(* ===== verification/Prelude.thy ===== *)
theory Prelude
  imports Main "HOL-Library.Word" "HOL-Library.AList" "HOL-Library.Multiset"
begin

section \<open>Prelude: Go values, errors, byte streams and maps\<close>

text \<open>
  The vocabulary every component of the development shares.

  \<^item> Bytes are \<open>8 word\<close>; Go strings are byte sequences and are modelled by HOL's
    \<open>string\<close> (a \<open>char\<close> is one byte); \<open>bytes_of\<close> and \<open>str_of\<close> are Go's conversions
    \<open>[]byte(s)\<close> and \<open>string(b)\<close>.
  \<^item> Every error return is a value of \<open>goerr\<close> on the left of a sum; a run-time panic is
    the constructor \<open>Panic\<close> of the same type, so that no branch of the code is lost.
  \<^item> A Go map is an association list with distinct keys. The order of the list is the order
    in which a \<open>range\<close> over the map visits the entries, which Go leaves unspecified:
    theorems quantify over the list.
  \<^item> An \<open>io.Reader\<close> that is read with \<open>io.ReadFull\<close> is the list of bytes the peer sends
    before the stream ends, together with the error that ends it.
\<close>

unbundle bit_operations_syntax

named_theorems go_simps \<open>unfolding equations for the shared Go primitives\<close>

subsection \<open>Errors and results\<close>

datatype goerr =
    EOF
  | UnexpectedEOF
  | ClosedPipe
  | OSErr string
  | Msg string
  | Wrap string goerr
  | Panic string

type_synonym 'a res = "goerr + 'a"

text \<open>\<open>err.Error()\<close>; \<open>fmt.Errorf("p: %w", err)\<close> is \<open>Wrap ''p'' err\<close>.\<close>

fun err_text :: "goerr \<Rightarrow> string" where
  "err_text EOF = ''EOF''"
| "err_text UnexpectedEOF = ''unexpected EOF''"
| "err_text ClosedPipe = ''io: read/write on closed pipe''"
| "err_text (OSErr s) = s"
| "err_text (Msg s) = s"
| "err_text (Wrap p e) = p @ '': '' @ err_text e"
| "err_text (Panic s) = s"

text \<open>\<open>errors.Cause\<close>: the innermost error of a chain of wrapped ones.\<close>

fun Cause :: "goerr \<Rightarrow> goerr" where
  "Cause (Wrap p e) = Cause e"
| "Cause e = e"

text \<open>Sequencing: stop at the first error, as \<open>if err != nil { return err }\<close> does.\<close>

fun and_then :: "'e + 'a \<Rightarrow> ('a \<Rightarrow> 'e + 'b) \<Rightarrow> 'e + 'b" where
  "and_then (Inl e) f = Inl e"
| "and_then (Inr x) f = f x"

lemma and_then_Inr_iff [simp]:
  "and_then r f = Inr y \<longleftrightarrow> (\<exists>x. r = Inr x \<and> f x = Inr y)"
  by (cases r) auto

lemma and_then_Inl_iff:
  "and_then r f = Inl e \<longleftrightarrow> r = Inl e \<or> (\<exists>x. r = Inr x \<and> f x = Inl e)"
  by (cases r) auto

lemma and_then_assoc: "and_then (and_then r f) g = and_then r (\<lambda>x. and_then (f x) g)"
  by (cases r) auto

text \<open>\<open>fmt.Errorf\<close> around a failing call.\<close>

fun wrap_err :: "string \<Rightarrow> 'a res \<Rightarrow> 'a res" where
  "wrap_err p (Inl e) = Inl (Wrap p e)"
| "wrap_err p (Inr x) = Inr x"

lemma wrap_err_Inr_iff [simp]: "wrap_err p r = Inr x \<longleftrightarrow> r = Inr x"
  by (cases r) auto

subsection \<open>Bytes, strings and big-endian words\<close>

type_synonym byte = "8 word"
type_synonym bytes = "byte list"

definition byte_of_char :: "char \<Rightarrow> byte" where
  "byte_of_char c = word_of_nat (of_char c)"

definition char_of_byte :: "byte \<Rightarrow> char" where
  "char_of_byte b = char_of (unat b)"

lemma char_of_byte_of_char [simp]: "char_of_byte (byte_of_char c) = c"
proof -
  have "(of_char c :: nat) < 256"
    by simp
  then show ?thesis
    by (simp add: char_of_byte_def byte_of_char_def unat_of_nat)
qed

lemma byte_of_char_of_byte [simp]: "byte_of_char (char_of_byte b) = b"
proof -
  have "unat b < 256"
    using unsigned_less [of b, where 'a = nat] by simp
  then show ?thesis
    by (simp add: char_of_byte_def byte_of_char_def)
qed

definition bytes_of :: "string \<Rightarrow> bytes" where
  "bytes_of s = map byte_of_char s"

definition str_of :: "bytes \<Rightarrow> string" where
  "str_of b = map char_of_byte b"

lemma str_of_bytes_of [simp]: "str_of (bytes_of s) = s"
  by (simp add: str_of_def bytes_of_def comp_def)

lemma bytes_of_str_of [simp]: "bytes_of (str_of b) = b"
  by (simp add: str_of_def bytes_of_def comp_def)

lemma length_bytes_of [simp]: "length (bytes_of s) = length s"
  by (simp add: bytes_of_def)

lemma length_str_of [simp]: "length (str_of b) = length b"
  by (simp add: str_of_def)

lemma bytes_of_eq_iff [simp]: "bytes_of s = bytes_of t \<longleftrightarrow> s = t"
  by (metis str_of_bytes_of)

text \<open>\<open>binary.BigEndian.PutUint16\<close> and \<open>binary.BigEndian.Uint16\<close>.\<close>

definition put16 :: "16 word \<Rightarrow> bytes" where
  "put16 w = [ucast (drop_bit 8 w), ucast w]"

definition get16 :: "byte \<Rightarrow> byte \<Rightarrow> 16 word" where
  "get16 a b = ucast b OR push_bit 8 (ucast a)"

lemma length_put16 [simp]: "length (put16 w) = 2"
  by (simp add: put16_def)

lemma get16_put16 [simp]: "get16 (ucast (drop_bit 8 w)) (ucast w) = w"
  unfolding get16_def
  by (rule bit_word_eqI) (auto simp: bit_simps)

lemma put16_get16 [simp]: "put16 (get16 a b) = [a, b]"
proof -
  have "\<not> bit b (8 + n)" for n
    using bit_imp_le_length [of b "8 + n"] by auto
  then show ?thesis
    unfolding get16_def put16_def
    by (auto intro!: bit_word_eqI simp: bit_simps)
qed

lemma unat_get16: "unat (get16 a b) = 256 * unat a + unat b"
proof -
  have dis: "ucast b AND push_bit 8 (ucast a) = (0 :: 16 word)"
    by (rule bit_word_eqI) (auto simp: bit_simps dest: bit_imp_le_length)
  have bounds: "unat a < 256" "unat b < 256"
    using unsigned_less [of a, where 'a = nat] unsigned_less [of b, where 'a = nat] by simp_all
  have ua: "unat (ucast a :: 16 word) = unat a" and ub: "unat (ucast b :: 16 word) = unat b"
    using bounds by (simp_all add: unsigned_ucast_eq take_bit_eq_mod)
  have "get16 a b = ucast b + ucast a * 256"
    unfolding get16_def using disjunctive_add_eq_or [OF dis] by (simp add: push_bit_eq_mult)
  then have "unat (get16 a b) = (unat b + unat a * 256 mod 65536) mod 65536"
    by (simp add: unat_word_ariths ua ub)
  with bounds show ?thesis
    by simp
qed

lemma unat_put16_len: "n < 65536 \<Longrightarrow> unat (word_of_nat n :: 16 word) = n"
  by (simp add: unat_of_nat)

subsection \<open>Readers\<close>

record stream =
  sdata :: bytes
  sfin :: goerr

text \<open>
  \<open>io.ReadFull(r, buf)\<close> with \<open>len(buf) = n\<close>: all bytes or an error, which is the error
  that ended the stream when nothing was read, and \<open>ErrUnexpectedEOF\<close> when the stream
  ended with EOF in the middle.
\<close>

definition read_full :: "nat \<Rightarrow> stream \<Rightarrow> (bytes \<times> stream) res" where
  "read_full n s =
     (if n \<le> length (sdata s) then Inr (take n (sdata s), s\<lparr>sdata := drop n (sdata s)\<rparr>)
      else if sdata s = [] then Inl (sfin s)
      else Inl (if sfin s = EOF then UnexpectedEOF else sfin s))"

text \<open>\<open>io.CopyN(io.Discard, r, n)\<close>: a short stream is the error that ended it.\<close>

definition discard_n :: "nat \<Rightarrow> stream \<Rightarrow> stream res" where
  "discard_n n s =
     (if n \<le> length (sdata s) then Inr (s\<lparr>sdata := drop n (sdata s)\<rparr>) else Inl (sfin s))"

lemma read_full_append [simp]:
  "n = length xs \<Longrightarrow> read_full n \<lparr>sdata = xs @ ys, sfin = e\<rparr> = Inr (xs, \<lparr>sdata = ys, sfin = e\<rparr>)"
  by (simp add: read_full_def)

lemma read_full_Inr_iff:
  "read_full n s = Inr (b, s') \<longleftrightarrow>
     length b = n \<and> sdata s = b @ sdata s' \<and> sfin s' = sfin s"
proof
  assume "read_full n s = Inr (b, s')"
  then show "length b = n \<and> sdata s = b @ sdata s' \<and> sfin s' = sfin s"
    by (auto simp: read_full_def min_def split: if_splits)
next
  assume "length b = n \<and> sdata s = b @ sdata s' \<and> sfin s' = sfin s"
  then show "read_full n s = Inr (b, s')"
    by (cases s; cases s') (auto simp: read_full_def)
qed

lemma read_full_short: "length (sdata s) < n \<Longrightarrow> \<exists>e. read_full n s = Inl e"
  by (simp add: read_full_def)

lemma discard_n_append [simp]:
  "n = length xs \<Longrightarrow> discard_n n \<lparr>sdata = xs @ ys, sfin = e\<rparr> = Inr \<lparr>sdata = ys, sfin = e\<rparr>"
  by (simp add: discard_n_def)

subsection \<open>Strings\<close>

text \<open>
  \<open>strings.ToLower\<close> on ASCII: host names, rule patterns and mode names are ASCII, and the
  bytes above 127 are left alone here.
\<close>

definition lower_char :: "char \<Rightarrow> char" where
  "lower_char c = (let n = (of_char c :: nat) in if 65 \<le> n \<and> n \<le> 90 then char_of (n + 32) else c)"

definition to_lower :: "string \<Rightarrow> string" where
  "to_lower s = map lower_char s"

definition upper_char :: "char \<Rightarrow> char" where
  "upper_char c = (let n = (of_char c :: nat) in if 97 \<le> n \<and> n \<le> 122 then char_of (n - 32) else c)"

text \<open>\<open>strings.ToUpper\<close>, likewise.\<close>

definition to_upper :: "string \<Rightarrow> string" where
  "to_upper s = map upper_char s"

definition has_prefix :: "string \<Rightarrow> string \<Rightarrow> bool" where
  "has_prefix s p = (take (length p) s = p)"

text \<open>\<open>strings.TrimPrefix\<close>.\<close>

definition trim_prefix :: "string \<Rightarrow> string \<Rightarrow> string" where
  "trim_prefix s p = (if has_prefix s p then drop (length p) s else s)"

definition has_suffix :: "string \<Rightarrow> string \<Rightarrow> bool" where
  "has_suffix s p = (length p \<le> length s \<and> drop (length s - length p) s = p)"

fun contains_str :: "string \<Rightarrow> string \<Rightarrow> bool" where
  "contains_str [] p = (p = [])"
| "contains_str (c # s) p = (has_prefix (c # s) p \<or> contains_str s p)"

lemma has_prefix_iff: "has_prefix s p \<longleftrightarrow> (\<exists>t. s = p @ t)"
  unfolding has_prefix_def by (metis append_eq_conv_conj append_take_drop_id)

lemma has_suffix_iff: "has_suffix s p \<longleftrightarrow> (\<exists>t. s = t @ p)"
proof
  assume "has_suffix s p"
  then show "\<exists>t. s = t @ p"
    unfolding has_suffix_def by (metis append_take_drop_id)
next
  assume "\<exists>t. s = t @ p"
  then show "has_suffix s p"
    by (auto simp: has_suffix_def)
qed

lemma contains_str_iff: "contains_str s p \<longleftrightarrow> (\<exists>a b. s = a @ p @ b)"
proof (induction s)
  case Nil
  then show ?case by auto
next
  case (Cons c s)
  have "(\<exists>a b. c # s = a @ p @ b) \<longleftrightarrow> (\<exists>b. c # s = p @ b) \<or> (\<exists>a b. s = a @ p @ b)"
    by (auto simp: Cons_eq_append_conv)
  with Cons show ?case
    by (simp add: has_prefix_iff)
qed

lemma to_lower_append [simp]: "to_lower (s @ t) = to_lower s @ to_lower t"
  by (simp add: to_lower_def)

lemma length_to_lower [simp]: "length (to_lower s) = length s"
  by (simp add: to_lower_def)

subsection \<open>Go maps as association lists\<close>

type_synonym 'v gomap = "(string \<times> 'v) list"

abbreviation gm_get :: "'v gomap \<Rightarrow> string \<Rightarrow> 'v option" where
  "gm_get m k \<equiv> map_of m k"

abbreviation gm_put :: "string \<Rightarrow> 'v \<Rightarrow> 'v gomap \<Rightarrow> 'v gomap" where
  "gm_put k v m \<equiv> AList.update k v m"

abbreviation gm_del :: "string \<Rightarrow> 'v gomap \<Rightarrow> 'v gomap" where
  "gm_del k m \<equiv> AList.delete k m"

abbreviation gm_ok :: "'v gomap \<Rightarrow> bool" where
  "gm_ok m \<equiv> distinct (map fst m)"

lemma gm_get_put: "gm_get (gm_put k v m) k' = (if k' = k then Some v else gm_get m k')"
  by (simp add: update_conv')

lemma gm_get_del: "gm_get (gm_del k m) k' = (if k' = k then None else gm_get m k')"
  by (simp add: delete_conv')

lemma gm_put_new: "k \<notin> fst ` set m \<Longrightarrow> gm_put k v m = m @ [(k, v)]"
  by (induction m) auto

lemma gm_get_mem: "gm_ok m \<Longrightarrow> gm_get m k = Some v \<longleftrightarrow> (k, v) \<in> set m"
  by simp

lemma gm_get_perm:
  assumes "gm_ok m" and "mset m = mset m'"
  shows "gm_get m = gm_get m'"
proof -
  have "mset (map fst m) = mset (map fst m')"
    using assms(2) by simp
  then have ok': "gm_ok m'"
    using assms(1) by (metis distinct_count_atmost_1 set_mset_mset)
  have "set m = set m'"
    using assms(2) by (metis set_mset_mset)
  then show ?thesis
    using assms(1) ok' by (simp add: map_of_inject_set)
qed

lemma find_Some_mem: "find P xs = Some x \<Longrightarrow> x \<in> set xs \<and> P x"
  by (auto simp: find_Some_iff)

text \<open>A loop that settles one key after the other: what it establishes for a key it keeps.\<close>

lemma fold_establishes:
  assumes "\<And>x a. I a \<Longrightarrow> I (f x a)" and "\<And>x a. I a \<Longrightarrow> Q x (f x a)"
    and "\<And>x y a. I a \<Longrightarrow> Q x a \<Longrightarrow> Q x (f y a)" and "I a"
  shows "I (fold f xs a) \<and> (\<forall>x \<in> set xs. Q x (fold f xs a))"
proof -
  have keep: "I a \<Longrightarrow> Q x a \<Longrightarrow> Q x (fold f ys a)" for x a ys
    using assms(1,3) by (induction ys arbitrary: a) auto
  show ?thesis
    using assms(4) by (induction xs arbitrary: a) (auto simp: assms(1,2) intro: keep)
qed

lemma fold_invariant: "(\<And>x a. I a \<Longrightarrow> I (f x a)) \<Longrightarrow> I a \<Longrightarrow> I (fold f xs a)"
  by (induction xs arbitrary: a) auto

end
