(* ===== verification/GoNet.thy ===== *)
theory GoNet
  imports Prelude
begin

section \<open>The parts of Go's standard library the proxy's addressing rests on\<close>

text \<open>
  Executable models of \<open>strconv.Itoa\<close>, \<open>strconv.Atoi\<close>, \<open>net.SplitHostPort\<close>,
  \<open>net.JoinHostPort\<close>, \<open>net.ParseIP\<close>, \<open>net.IP.To4\<close>, \<open>net.IP.String\<close>,
  \<open>netip.ParseAddr\<close>, \<open>netip.ParsePrefix\<close>, \<open>netip.AddrFromSlice\<close> and
  \<open>netip.Prefix.Contains\<close>, in the shape of their Go sources (same scan order, same error
  branches). The lemmas are the two round trips the components use: a decimal port survives
  \<open>Itoa\<close> and \<open>Atoi\<close>, and a host and port survive \<open>JoinHostPort\<close> and \<open>SplitHostPort\<close>.
\<close>

subsection \<open>Decimal numbers\<close>

definition digit_char :: "nat \<Rightarrow> char" where
  "digit_char d = char_of (48 + d)"

definition is_digit :: "char \<Rightarrow> bool" where
  "is_digit c = (48 \<le> (of_char c :: nat) \<and> (of_char c :: nat) \<le> 57)"

definition digit_val :: "char \<Rightarrow> nat" where
  "digit_val c = of_char c - 48"

fun show_nat :: "nat \<Rightarrow> string" where
  "show_nat n = (if n < 10 then [digit_char n] else show_nat (n div 10) @ [digit_char (n mod 10)])"

declare show_nat.simps [simp del]

definition itoa :: "int \<Rightarrow> string" where
  "itoa i = (if i < 0 then CHR ''-'' # show_nat (nat (- i)) else show_nat (nat i))"

fun read_digits :: "nat \<Rightarrow> string \<Rightarrow> nat option" where
  "read_digits acc [] = Some acc"
| "read_digits acc (c # cs) =
     (if is_digit c then read_digits (acc * 10 + digit_val c) cs else None)"

text \<open>
  \<open>strconv.Atoi\<close> returns a value next to the error: 0 for bad syntax, the nearest bound of
  the 64-bit \<open>int\<close> when the number does not fit. Callers that drop the error use the value.
\<close>

definition atoi :: "string \<Rightarrow> int \<times> goerr option" where
  "atoi s =
     (let neg = (s \<noteq> [] \<and> hd s = CHR ''-'');
          body = (if s \<noteq> [] \<and> (hd s = CHR ''-'' \<or> hd s = CHR ''+'') then tl s else s)
      in if body = [] then (0, Some (Msg ''invalid syntax''))
         else case read_digits 0 body of
           None \<Rightarrow> (0, Some (Msg ''invalid syntax''))
         | Some n \<Rightarrow>
             if neg then (if n > 2 ^ 63 then (- (2 ^ 63), Some (Msg ''value out of range''))
                          else (- int n, None))
             else (if n \<ge> 2 ^ 63 then (2 ^ 63 - 1, Some (Msg ''value out of range''))
                   else (int n, None)))"

lemma of_char_digit_char: "d < 10 \<Longrightarrow> (of_char (digit_char d) :: nat) = 48 + d"
  by (simp add: digit_char_def)

lemma is_digit_digit_char [simp]: "d < 10 \<Longrightarrow> is_digit (digit_char d)"
  by (simp add: is_digit_def of_char_digit_char)

lemma digit_val_digit_char [simp]: "d < 10 \<Longrightarrow> digit_val (digit_char d) = d"
  by (simp add: digit_val_def of_char_digit_char)

lemma read_digits_append:
  "read_digits a (xs @ ys) = (case read_digits a xs of None \<Rightarrow> None | Some b \<Rightarrow> read_digits b ys)"
  by (induction xs arbitrary: a) auto

lemma read_digits_show_nat [simp]: "read_digits 0 (show_nat n) = Some n"
proof (induction n rule: show_nat.induct)
  case (1 n)
  show ?case
  proof (cases "n < 10")
    case True
    then show ?thesis by (simp add: show_nat.simps [of n])
  next
    case False
    with 1 have "read_digits 0 (show_nat (n div 10)) = Some (n div 10)"
      by simp
    with False show ?thesis
      by (simp add: show_nat.simps [of n] read_digits_append)
  qed
qed

lemma show_nat_digits: "list_all is_digit (show_nat n)"
proof (induction n rule: show_nat.induct)
  case (1 n)
  then show ?case
    by (cases "n < 10") (simp_all add: show_nat.simps [of n])
qed

lemma show_nat_nonempty [simp]: "show_nat n \<noteq> []"
  by (subst show_nat.simps) simp

lemma digit_chars_not_sep:
  "is_digit c \<Longrightarrow> c \<noteq> CHR '':'' \<and> c \<noteq> CHR ''['' \<and> c \<noteq> CHR '']'' \<and> c \<noteq> CHR ''.''
     \<and> c \<noteq> CHR ''-'' \<and> c \<noteq> CHR ''+'' \<and> c \<noteq> CHR ''/'' \<and> c \<noteq> CHR ''%''"
  by (auto simp: is_digit_def)

lemma show_nat_no_sep:
  "CHR '':'' \<notin> set (show_nat n)" "CHR ''['' \<notin> set (show_nat n)" "CHR '']'' \<notin> set (show_nat n)"
  "CHR ''.'' \<notin> set (show_nat n)"
  using show_nat_digits [of n] by (auto simp: list_all_iff dest: digit_chars_not_sep)

lemma itoa_nat: "itoa (int n) = show_nat n"
  by (simp add: itoa_def)

lemma atoi_show_nat: "n < 2 ^ 63 \<Longrightarrow> atoi (show_nat n) = (int n, None)"
proof -
  assume n: "n < 2 ^ 63"
  have "is_digit (hd (show_nat n))"
    using show_nat_digits [of n] show_nat_nonempty [of n]
    by (cases "show_nat n") auto
  then have "hd (show_nat n) \<noteq> CHR ''-''" and "hd (show_nat n) \<noteq> CHR ''+''"
    using digit_chars_not_sep by blast+
  with n show ?thesis
    by (simp add: atoi_def Let_def)
qed

subsection \<open>Host and port\<close>

fun index_of :: "char \<Rightarrow> string \<Rightarrow> nat option" where
  "index_of c [] = None"
| "index_of c (x # xs) = (if x = c then Some 0 else map_option Suc (index_of c xs))"

fun last_index_of :: "char \<Rightarrow> string \<Rightarrow> nat option" where
  "last_index_of c [] = None"
| "last_index_of c (x # xs) =
     (case last_index_of c xs of
        Some i \<Rightarrow> Some (Suc i)
      | None \<Rightarrow> if x = c then Some 0 else None)"

lemma index_of_None: "index_of c s = None \<longleftrightarrow> c \<notin> set s"
  by (induction s) auto

lemma last_index_of_None: "last_index_of c s = None \<longleftrightarrow> c \<notin> set s"
  by (induction s) (auto split: option.splits)

lemma index_of_first: "c \<notin> set h \<Longrightarrow> index_of c (h @ c # t) = Some (length h)"
  by (induction h) auto

lemma last_index_of_last: "c \<notin> set p \<Longrightarrow> last_index_of c (h @ c # p) = Some (length h)"
  by (induction h) (auto simp: last_index_of_None split: option.splits)

definition split_host_port :: "string \<Rightarrow> (string \<times> string) res" where
  "split_host_port s =
     (let finish = (\<lambda>host j k i.
            if CHR ''['' \<in> set (drop j s) then Inl (Msg ''unexpected '[' in address'')
            else if CHR '']'' \<in> set (drop k s) then Inl (Msg ''unexpected ']' in address'')
            else Inr (host, drop (Suc i) s))
      in case last_index_of CHR '':'' s of
           None \<Rightarrow> Inl (Msg ''missing port in address'')
         | Some i \<Rightarrow>
             if hd s = CHR ''['' then
               (case index_of CHR '']'' s of
                  None \<Rightarrow> Inl (Msg ''missing ']' in address'')
                | Some e \<Rightarrow>
                    if Suc e = length s then Inl (Msg ''missing port in address'')
                    else if Suc e = i then finish (drop 1 (take e s)) 1 (Suc e) i
                    else if s ! (Suc e) = CHR '':'' then Inl (Msg ''too many colons in address'')
                    else Inl (Msg ''missing port in address''))
             else if CHR '':'' \<in> set (take i s) then Inl (Msg ''too many colons in address'')
             else finish (take i s) 0 0 i)"

definition join_host_port :: "string \<Rightarrow> string \<Rightarrow> string" where
  "join_host_port h p =
     (if CHR '':'' \<in> set h then CHR ''['' # h @ '']:'' @ p else h @ CHR '':'' # p)"

text \<open>The host a caller sees when it drops the error: Go returns empty strings then.\<close>

definition split_host :: "string \<Rightarrow> string" where
  "split_host s = (case split_host_port s of Inl _ \<Rightarrow> [] | Inr (h, _) \<Rightarrow> h)"

definition split_port :: "string \<Rightarrow> string" where
  "split_port s = (case split_host_port s of Inl _ \<Rightarrow> [] | Inr (_, p) \<Rightarrow> p)"

definition host_ok :: "string \<Rightarrow> bool" where
  "host_ok h \<longleftrightarrow> CHR ''['' \<notin> set h \<and> CHR '']'' \<notin> set h"

lemma split_join_plain:
  assumes "CHR '':'' \<notin> set h" "host_ok h" "CHR '':'' \<notin> set p" "host_ok p"
  shows "split_host_port (h @ CHR '':'' # p) = Inr (h, p)"
proof -
  have "hd (h @ CHR '':'' # p) \<noteq> CHR ''[''"
    using assms by (cases h) (auto simp: host_ok_def)
  then show ?thesis
    using assms last_index_of_last [of "CHR '':''" p h]
    by (simp add: split_host_port_def Let_def host_ok_def)
qed

lemma split_join_bracket:
  assumes "host_ok h" "CHR '':'' \<notin> set p" "host_ok p"
  shows "split_host_port (CHR ''['' # h @ '']:'' @ p) = Inr (h, p)"
proof -
  have "last_index_of CHR '':'' ((CHR ''['' # h @ '']'') @ CHR '':'' # p) = Some (Suc (Suc (length h)))"
    using last_index_of_last [OF assms(2), of "CHR ''['' # h @ '']''"] by simp
  moreover have "index_of CHR '']'' ((CHR ''['' # h) @ CHR '']'' # CHR '':'' # p) = Some (Suc (length h))"
    using assms(1) index_of_first [of "CHR '']''" "CHR ''['' # h"] by (simp add: host_ok_def)
  ultimately show ?thesis
    using assms by (simp add: split_host_port_def Let_def host_ok_def)
qed

lemma split_join_host_port:
  assumes "host_ok h" "CHR '':'' \<notin> set p" "host_ok p"
  shows "split_host_port (join_host_port h p) = Inr (h, p)"
  using assms split_join_plain split_join_bracket by (simp add: join_host_port_def)

lemma host_ok_show_nat [simp]: "host_ok (show_nat n)"
  by (simp add: host_ok_def show_nat_no_sep)

lemma split_join_itoa:
  "host_ok h \<Longrightarrow> split_host_port (join_host_port h (itoa (int n))) = Inr (h, show_nat n)"
  by (simp add: itoa_nat split_join_host_port show_nat_no_sep)

lemma split_no_colon: "CHR '':'' \<notin> set s \<Longrightarrow> split_host_port s = Inl (Msg ''missing port in address'')"
proof -
  assume "CHR '':'' \<notin> set s"
  then have "last_index_of CHR '':'' s = None" by (simp add: last_index_of_None)
  then show ?thesis by (simp add: split_host_port_def Let_def)
qed

subsection \<open>IP addresses\<close>

text \<open>\<open>netip.parseIPv4Fields\<close>: \<open>dot\<close> says that the scan is at the start or just after a dot.\<close>

fun parse_v4_fields :: "bool \<Rightarrow> nat \<Rightarrow> nat \<Rightarrow> nat list \<Rightarrow> string \<Rightarrow> nat list option" where
  "parse_v4_fields dot val dig fs [] = (if length fs < 3 then None else Some (fs @ [val]))"
| "parse_v4_fields dot val dig fs (c # cs) =
     (if is_digit c then
        (if dig = 1 \<and> val = 0 then None
         else if val * 10 + digit_val c > 255 then None
         else parse_v4_fields False (val * 10 + digit_val c) (Suc dig) fs cs)
      else if c = CHR ''.'' then
        (if dot \<or> cs = [] then None
         else if length fs = 3 then None
         else parse_v4_fields True 0 0 (fs @ [val]) cs)
      else None)"

definition parse_v4 :: "string \<Rightarrow> bytes option" where
  "parse_v4 s = map_option (map word_of_nat) (parse_v4_fields True 0 0 [] s)"

definition is_hex :: "char \<Rightarrow> bool" where
  "is_hex c = (let n = (of_char c :: nat) in
     48 \<le> n \<and> n \<le> 57 \<or> 97 \<le> n \<and> n \<le> 102 \<or> 65 \<le> n \<and> n \<le> 70)"

definition hex_val :: "char \<Rightarrow> nat" where
  "hex_val c = (let n = (of_char c :: nat) in
     if n \<le> 57 then n - 48 else if n \<le> 70 then n - 55 else n - 87)"

definition hex_num :: "string \<Rightarrow> nat" where
  "hex_num s = foldl (\<lambda>a c. a * 16 + hex_val c) 0 s"

text \<open>
  The group loop of \<open>netip.parseIPv6\<close>: \<open>n\<close> groups are still free, \<open>ip\<close> holds the bytes
  read so far and \<open>ell\<close> the position of the ellipsis.
\<close>

fun parse_v6_groups :: "nat \<Rightarrow> bytes \<Rightarrow> nat option \<Rightarrow> string \<Rightarrow> (bytes \<times> nat option \<times> string) option" where
  "parse_v6_groups 0 ip ell s = Some (ip, ell, s)"
| "parse_v6_groups (Suc n) ip ell s =
     (let ds = takeWhile is_hex s; rest = dropWhile is_hex s; acc = hex_num ds;
          ip' = ip @ [word_of_nat (acc div 256), word_of_nat (acc mod 256)]
      in if length ds > 4 \<or> ds = [] then None
         else if rest \<noteq> [] \<and> hd rest = CHR ''.'' then
           (if ell = None \<and> length ip \<noteq> 12 \<or> length ip + 4 > 16 then None
            else case parse_v4 s of None \<Rightarrow> None | Some f \<Rightarrow> Some (ip @ f, ell, []))
         else if rest = [] then Some (ip', ell, [])
         else if hd rest \<noteq> CHR '':'' \<or> length rest = 1 then None
         else if hd (tl rest) = CHR '':'' then
           (if ell \<noteq> None then None
            else if tl (tl rest) = [] then Some (ip', Some (length ip'), [])
            else parse_v6_groups n ip' (Some (length ip')) (tl (tl rest)))
         else parse_v6_groups n ip' ell (tl rest))"

definition parse_v6_body :: "string \<Rightarrow> bytes option" where
  "parse_v6_body s =
     (let start = (if has_prefix s ''::'' then Some 0 else None);
          s' = (if has_prefix s ''::'' then drop 2 s else s)
      in if start \<noteq> None \<and> s' = [] then Some (replicate 16 0)
         else case parse_v6_groups 8 [] start s' of
           None \<Rightarrow> None
         | Some (ip, ell, rest) \<Rightarrow>
             if rest \<noteq> [] then None
             else if length ip < 16 then
               (case ell of None \<Rightarrow> None
                | Some e \<Rightarrow> Some (take e ip @ replicate (16 - length ip) 0 @ drop e ip))
             else if ell \<noteq> None then None else Some ip)"

text \<open>\<open>netip.Addr\<close>: invalid, IPv4, or IPv6 with a zone.\<close>

datatype naddr = NoAddr | A4 bytes | A6 bytes string

definition parse_v6 :: "string \<Rightarrow> naddr option" where
  "parse_v6 s =
     (case index_of CHR ''%'' s of
        None \<Rightarrow> map_option (\<lambda>b. A6 b []) (parse_v6_body s)
      | Some i \<Rightarrow>
          (let zone = drop (Suc i) s in
           if zone = [] then None else map_option (\<lambda>b. A6 b zone) (parse_v6_body (take i s))))"

fun parse_addr_scan :: "string \<Rightarrow> string \<Rightarrow> naddr option" where
  "parse_addr_scan s [] = None"
| "parse_addr_scan s (c # cs) =
     (if c = CHR ''.'' then map_option A4 (parse_v4 s)
      else if c = CHR '':'' then parse_v6 s
      else if c = CHR ''%'' then None
      else parse_addr_scan s cs)"

definition parse_addr :: "string \<Rightarrow> naddr option" where
  "parse_addr s = parse_addr_scan s s"

text \<open>\<open>net.ParseIP\<close> gives the 16-byte form, \<open>To4\<close> unmaps it.\<close>

definition v4_in_v6 :: bytes where
  "v4_in_v6 = replicate 10 0 @ [0xff, 0xff]"

definition parse_ip :: "string \<Rightarrow> bytes option" where
  "parse_ip s =
     (case parse_addr s of
        Some (A4 b) \<Rightarrow> Some (v4_in_v6 @ b)
      | Some (A6 b z) \<Rightarrow> (if z = [] then Some b else None)
      | _ \<Rightarrow> None)"

definition to4 :: "bytes \<Rightarrow> bytes option" where
  "to4 ip =
     (if length ip = 4 then Some ip
      else if length ip = 16 \<and> take 12 ip = v4_in_v6 then Some (drop 12 ip) else None)"

definition addr_from_slice :: "bytes \<Rightarrow> naddr option" where
  "addr_from_slice b =
     (if length b = 4 then Some (A4 b) else if length b = 16 then Some (A6 b []) else None)"

definition v4_string :: "bytes \<Rightarrow> string" where
  "v4_string b =
     show_nat (unat (b ! 0)) @ ''.'' @ show_nat (unat (b ! 1)) @ ''.'' @
     show_nat (unat (b ! 2)) @ ''.'' @ show_nat (unat (b ! 3))"

definition hex_digit :: "nat \<Rightarrow> char" where
  "hex_digit k = (if k < 10 then char_of (48 + k) else char_of (87 + k))"

fun show_hex :: "nat \<Rightarrow> string" where
  "show_hex n = (if n < 16 then [hex_digit n] else show_hex (n div 16) @ [hex_digit (n mod 16)])"

declare show_hex.simps [simp del]

definition v6_groups :: "bytes \<Rightarrow> nat list" where
  "v6_groups b = map (\<lambda>i. unat (get16 (b ! (2 * i)) (b ! (2 * i + 1)))) [0..<8]"

text \<open>The longest run of at least two zero groups, the first one among equals.\<close>

definition zero_run :: "nat list \<Rightarrow> nat \<Rightarrow> nat" where
  "zero_run gs i = length (takeWhile (\<lambda>g. g = 0) (drop i gs))"

definition best_run :: "nat list \<Rightarrow> nat \<times> nat" where
  "best_run gs =
     foldl (\<lambda>(a, l) i. if zero_run gs i \<ge> 2 \<and> zero_run gs i > l then (i, zero_run gs i) else (a, l))
       (255, 0) [0..<length gs]"

fun join_colon :: "nat list \<Rightarrow> string" where
  "join_colon [] = []"
| "join_colon [g] = show_hex g"
| "join_colon (g # gs) = show_hex g @ CHR '':'' # join_colon gs"

definition v6_string :: "bytes \<Rightarrow> string" where
  "v6_string b =
     (let gs = v6_groups b; (a, l) = best_run gs in
      if l = 0 then join_colon gs
      else join_colon (take a gs) @ ''::'' @ join_colon (drop (a + l) gs))"

definition ip_string :: "bytes \<Rightarrow> string" where
  "ip_string ip =
     (case to4 ip of Some b \<Rightarrow> v4_string b
      | None \<Rightarrow> if length ip = 16 then v6_string ip else ''?'')"

subsection \<open>Prefixes\<close>

definition bytes_val :: "bytes \<Rightarrow> nat" where
  "bytes_val b = foldl (\<lambda>a x. a * 256 + unat x) 0 b"

definition parse_prefix :: "string \<Rightarrow> (naddr \<times> nat) option" where
  "parse_prefix s =
     (case last_index_of CHR ''/'' s of
        None \<Rightarrow> None
      | Some i \<Rightarrow>
          (let bs = drop (Suc i) s in
           case parse_addr (take i s) of
             None \<Rightarrow> None
           | Some a \<Rightarrow>
               (let w = (case a of A4 _ \<Rightarrow> 32 | _ \<Rightarrow> 128);
                    zoned = (case a of A6 _ z \<Rightarrow> z \<noteq> [] | _ \<Rightarrow> False)
                in if zoned then None
                   else if length bs > 1 \<and> \<not> (is_digit (hd bs) \<and> hd bs \<noteq> CHR ''0'') then None
                   else case atoi bs of
                     (_, Some _) \<Rightarrow> None
                   | (n, None) \<Rightarrow> if n < 0 \<or> n > w then None else Some (a, nat n))))"

fun prefix_contains :: "naddr \<times> nat \<Rightarrow> naddr \<Rightarrow> bool" where
  "prefix_contains (A4 p, n) (A4 a) = (bytes_val p div 2 ^ (32 - n) = bytes_val a div 2 ^ (32 - n))"
| "prefix_contains (A6 p _, n) (A6 a z) =
     (z = [] \<and> bytes_val p div 2 ^ (128 - n) = bytes_val a div 2 ^ (128 - n))"
| "prefix_contains _ _ = False"

lemma parse_prefix_no_slash: "CHR ''/'' \<notin> set s \<Longrightarrow> parse_prefix s = None"
proof -
  assume "CHR ''/'' \<notin> set s"
  then have "last_index_of CHR ''/'' s = None" by (simp add: last_index_of_None)
  then show ?thesis by (simp add: parse_prefix_def)
qed

subsection \<open>IPv4 addresses survive printing and parsing\<close>

lemma digit_char_not_dot: "d < 10 \<Longrightarrow> is_digit (digit_char d) \<and> digit_char d \<noteq> CHR ''.''"
  using digit_chars_not_sep [of "digit_char d"] by simp

lemma show_nat_byte:
  assumes "n \<le> 255"
  shows "show_nat n = (if n < 10 then [digit_char n] else if n < 100 then [digit_char (n div 10), digit_char (n mod 10)]
     else [digit_char (n div 100), digit_char (n div 10 mod 10), digit_char (n mod 10)])"
proof -
  have "n div 10 div 10 = n div 100" by (simp add: div_mult2_eq [symmetric])
  moreover have "n div 10 < 10 \<longleftrightarrow> n < 100" "n div 100 < 10" using assms by auto
  ultimately show ?thesis
    by (simp add: show_nat.simps [of n] show_nat.simps [of "n div 10"] show_nat.simps [of "n div 100"])
qed

lemma parse_v4_field:
  assumes "n \<le> 255"
  shows "\<exists>dig. parse_v4_fields dot 0 0 fs (show_nat n @ rest) = parse_v4_fields False n dig fs rest"
proof -
  consider "n < 10" | "10 \<le> n" "n < 100" | "100 \<le> n" by linarith
  then show ?thesis
  proof cases
    case 1
    then show ?thesis by (auto simp: show_nat_byte [OF assms])
  next
    case 2
    then have "n div 10 \<noteq> 0" "n div 10 < 10" "n div 10 * 10 + n mod 10 = n" by auto
    with 2 assms show ?thesis by (auto simp: show_nat_byte [OF assms])
  next
    case 3
    let ?a = "n div 100" and ?b = "n div 10 mod 10" and ?c = "n mod 10"
    have d: "?a < 10" "?b < 10" "?c < 10" "?a \<noteq> 0" using 3 assms by auto
    have "?a = n div 10 div 10" by (simp add: div_mult2_eq [symmetric])
    then have e: "?a * 10 + ?b = n div 10" by simp
    have n: "n div 10 * 10 + ?c = n" "\<not> 255 < n div 10" "\<not> n < 10" "\<not> n < 100" "\<not> 255 < ?a" using assms 3 by auto
    have "parse_v4_fields dot 0 0 fs (digit_char ?a # digit_char ?b # digit_char ?c # rest)
        = parse_v4_fields False n (Suc (Suc (Suc 0))) fs rest"
      using d n assms by (simp add: e)
    then show ?thesis
      unfolding show_nat_byte [OF assms] using n by (auto simp del: parse_v4_fields.simps)
  qed
qed

lemma parse_v4_dot: "rest \<noteq> [] \<Longrightarrow> length fs < 3 \<Longrightarrow>
  parse_v4_fields False n dig fs (CHR ''.'' # rest) = parse_v4_fields True 0 0 (fs @ [n]) rest"
  by (simp add: is_digit_def)

lemma parse_v4_print:
  assumes "a \<le> 255" "b \<le> 255" "c \<le> 255" "d \<le> 255"
  shows "parse_v4_fields True 0 0 [] (show_nat a @ ''.'' @ show_nat b @ ''.'' @ show_nat c @ ''.'' @ show_nat d) = Some [a, b, c, d]"
proof -
  note f = parse_v4_field [OF assms(1), of True "[]"] parse_v4_field [OF assms(2), of True "[a]"]
    parse_v4_field [OF assms(3), of True "[a, b]"] parse_v4_field [OF assms(4), of True "[a, b, c]" "[]"]
  have "parse_v4_fields True 0 0 [a, b, c] (show_nat d) = Some [a, b, c, d]"
    using f(4) by auto
  then have "parse_v4_fields True 0 0 [a, b] (show_nat c @ ''.'' @ show_nat d) = Some [a, b, c, d]"
    using f(3) [of "''.'' @ show_nat d"] parse_v4_dot [of "show_nat d" "[a, b]"] by auto
  then have "parse_v4_fields True 0 0 [a] (show_nat b @ ''.'' @ show_nat c @ ''.'' @ show_nat d) = Some [a, b, c, d]"
    using f(2) [of "''.'' @ show_nat c @ ''.'' @ show_nat d"] parse_v4_dot [of "show_nat c @ ''.'' @ show_nat d" "[a]"] by auto
  then show ?thesis
    using f(1) [of "''.'' @ show_nat b @ ''.'' @ show_nat c @ ''.'' @ show_nat d"]
      parse_v4_dot [of "show_nat b @ ''.'' @ show_nat c @ ''.'' @ show_nat d" "[]"] by auto
qed

lemma parse_addr_scan_digits:
  "list_all is_digit ds \<Longrightarrow> parse_addr_scan s (ds @ CHR ''.'' # rest) = map_option A4 (parse_v4 s)"
  by (induction ds) (auto dest: digit_chars_not_sep)

lemma parse_addr_v4_string:
  assumes "length b = 4"
  shows "parse_addr (v4_string b) = Some (A4 b)"
proof -
  have le: "unat (x :: byte) \<le> 255" for x
    using unsigned_less [of x, where 'a = nat] by simp
  from assms obtain w x y z where b: "b = [w, x, y, z]"
    by (auto simp: numeral_eq_Suc length_Suc_conv)
  have "parse_v4 (v4_string b) = Some b"
    using parse_v4_print [OF le le le le, of w x y z] by (simp add: b v4_string_def parse_v4_def)
  then show ?thesis
    using parse_addr_scan_digits [OF show_nat_digits, of "v4_string b" "unat w"
        "show_nat (unat x) @ ''.'' @ show_nat (unat y) @ ''.'' @ show_nat (unat z)"]
    by (simp add: parse_addr_def b v4_string_def)
qed

lemma ip_string_v4: "length b = 4 \<Longrightarrow> ip_string b = v4_string b"
  by (simp add: ip_string_def to4_def)

lemma parse_ip_v4_string: "length b = 4 \<Longrightarrow> parse_ip (v4_string b) = Some (v4_in_v6 @ b)"
  by (simp add: parse_ip_def parse_addr_v4_string)

lemma host_ok_v4_string [simp]: "host_ok (v4_string b)"
  by (simp add: host_ok_def v4_string_def show_nat_no_sep)

lemma to4_mapped: "length b = 4 \<Longrightarrow> to4 (v4_in_v6 @ b) = Some b"
  by (simp add: to4_def v4_in_v6_def)

subsection \<open>Parsed addresses have 16 bytes\<close>

lemma parse_v4_fields_length: "parse_v4_fields dot val dig fs s = Some r \<Longrightarrow> length fs \<le> 3 \<Longrightarrow> length r = 4"
  by (induction dot val dig fs s rule: parse_v4_fields.induct) (auto split: if_splits)

lemma parse_v4_length: "parse_v4 s = Some b \<Longrightarrow> length b = 4"
  by (auto simp: parse_v4_def dest: parse_v4_fields_length)

lemma parse_v6_groups_length:
  "parse_v6_groups n ip ell s = Some (ip', r) \<Longrightarrow> length ip + 2 * n \<le> 16 \<Longrightarrow> length ip' \<le> 16"
proof (induction n arbitrary: ip ell s)
  case (Suc n)
  from Suc.prems show ?case
    by (auto simp: Let_def split: if_splits option.splits dest: parse_v4_length dest!: Suc.IH)
qed simp

lemma parse_v6_body_length: "parse_v6_body s = Some b \<Longrightarrow> length b = 16"
  by (auto simp: parse_v6_body_def Let_def split: if_splits option.splits dest!: parse_v6_groups_length)

lemma parse_ip_length: "parse_ip s = Some b \<Longrightarrow> length b = 16"
proof -
  have "length v4_in_v6 = 12"
    by (simp add: v4_in_v6_def)
  moreover have "parse_addr_scan s t = Some (A4 x) \<Longrightarrow> length x = 4" for t x
    by (induction s t rule: parse_addr_scan.induct)
      (auto simp: parse_v6_def Let_def split: if_splits option.splits dest: parse_v4_length)
  moreover have "parse_addr_scan s t = Some (A6 x z) \<Longrightarrow> length x = 16" for t x z
    by (induction s t rule: parse_addr_scan.induct)
      (auto simp: parse_v6_def Let_def split: if_splits option.splits dest: parse_v6_body_length)
  ultimately show "parse_ip s = Some b \<Longrightarrow> length b = 16"
    by (auto simp: parse_ip_def parse_addr_def split: option.splits naddr.splits if_splits)
qed

end
