(* ===== verification/Types.thy ===== *)
theory Types
  imports GoNet
begin

section \<open>Shared data types\<close>

text \<open>
  The structs of \<open>internal/shared/types\<close> and the settings structs of
  \<open>internal/shared/settings/types.go\<close>, one record per struct with the fields in source order.
  A pointer that may be nil is an \<open>option\<close>. \<open>server_state\<close> is what a reader of a
  \<open>map[string]*types.ServerState\<close> sees once the \<open>Profile\<close> and \<open>Instance\<close> pointers are
  followed; the theory \<open>AppServer\<close> keeps the pointers themselves, since the two zones share
  them.
\<close>

subsection \<open>types/config.go\<close>

record server_profile =
  pf_id :: string
  pf_remarks :: string
  pf_type :: string
  pf_active :: bool
  pf_local_port :: int
  pf_address :: string
  pf_port :: int
  pf_network :: string
  pf_scheme :: string
  pf_path :: string
  pf_host :: string
  pf_grpc_service :: string
  pf_grpc_mode :: string
  pf_grpc_authority :: string
  pf_edge_ip :: string
  pf_uuid :: string
  pf_flow :: string
  pf_security :: string
  pf_sni :: string
  pf_fingerprint :: string
  pf_public_key :: string
  pf_short_id :: string

record app_config =
  cf_mode :: string
  cf_max_conns :: int
  cf_buffer_size :: int
  cf_crypt :: int
  cf_unified_port :: int
  cf_web_port :: int
  cf_web_user :: string
  cf_web_password :: string
  cf_log_level :: string

subsection \<open>types/state.go and types/types.go\<close>

record listener_info =
  li_address :: string
  li_port :: int

record metrics =
  mt_active :: int
  mt_latency :: int

datatype health_status = StatusUnknown | StatusUp | StatusDown

text \<open>
  \<open>ss_instance\<close>: \<open>None\<close> is a nil \<open>Instance\<close>; \<open>Some li\<close> is an instance whose
  \<open>GetListenerInfo()\<close> returns \<open>li\<close>, itself nil or not.
\<close>

record server_state =
  ss_profile :: server_profile
  ss_instance :: "listener_info option option"
  ss_health :: health_status
  ss_metrics :: "metrics option"

type_synonym server_states = "server_state gomap"

text \<open>The test \<open>state.Profile.Active && state.Health == types.StatusUp\<close> of the callers.\<close>

definition usable :: "server_state \<Rightarrow> bool" where
  "usable s \<longleftrightarrow> pf_active (ss_profile s) \<and> ss_health s = StatusUp"

text \<open>\<open>fmt.Sprintf("%s:%d", li.Address, li.Port)\<close>.\<close>

definition li_addr :: "listener_info \<Rightarrow> string" where
  "li_addr li = li_address li @ '':'' @ itoa (li_port li)"

subsection \<open>settings/types.go\<close>

record rule =
  ru_priority :: int
  ru_type :: string
  ru_value :: "string list"
  ru_target :: string

record gateway_settings =
  gs_mode :: string
  gs_ttl :: int
  gs_rules :: "string list"
  gs_lb :: string

record routing_settings =
  rt_rules :: "rule list"

text \<open>\<open>createDefaultSettings\<close> and the zero value \<open>&GatewaySettings{}\<close> of \<open>ensureDefaultModules\<close>.\<close>

definition default_gateway :: gateway_settings where
  "default_gateway = \<lparr>gs_mode = ''disabled'', gs_ttl = 300, gs_rules = [], gs_lb = ''''\<rparr>"

definition zero_gateway :: gateway_settings where
  "zero_gateway = \<lparr>gs_mode = '''', gs_ttl = 0, gs_rules = [], gs_lb = ''''\<rparr>"

definition default_routing :: routing_settings where
  "default_routing = \<lparr>rt_rules = []\<rparr>"

text \<open>The \<open>interface{}\<close> a subscriber receives: a pointer to one of the three modules.\<close>

datatype settings_value = SVGateway gateway_settings | SVRouting routing_settings | SVLogging

end
