(* ===== verification/Sticky.thy ===== *)
theory Sticky
  imports Types
begin

section \<open>The sticky-session manager (internal/core/dispatcher/sticky_manager.go)\<close>

text \<open>
  State and operations of \<open>StickyManager\<close>: the cache from \<open>"clientIP:host"\<close> keys to
  records with an expiry, the mode, the time to live, the compiled rule matchers and the
  clean-up goroutine. Times and durations are nanoseconds; a duration is a 64-bit signed
  value in Go, so the time to live is computed with that wrap-around. \<open>time.Now()\<close> is an
  argument. A rule with a \<open>*\<close> becomes a regular expression in the code; when the rule holds
  no other character with a meaning in regular expressions, the expression is the
  case-insensitive wildcard match modelled by \<open>glob\<close>, and otherwise the matcher is what the
  parameter \<open>re\<close> (\<open>regexp.Compile\<close>) gives.
\<close>

subsection \<open>State\<close>

record sticky_record =
  sr_server :: string
  sr_expiry :: int

datatype matcher = Glob string | Regex "string \<Rightarrow> bool" | Exact string

record sticky_manager =
  sk_cache :: "sticky_record gomap"
  sk_ttl :: int
  sk_mode :: string
  sk_matchers :: "matcher list"
  sk_stopped :: bool
  sk_started :: nat

text \<open>The value of a 64-bit signed integer.\<close>

definition wrap64 :: "int \<Rightarrow> int" where
  "wrap64 i = (i + 2 ^ 63) mod 2 ^ 64 - 2 ^ 63"

definition second :: int where
  "second = 1000000000"

subsection \<open>Rule matchers\<close>

definition regex_meta :: "char set" where
  "regex_meta = set [CHR 0x5C, CHR ''+'', CHR ''?'', CHR ''('', CHR '')'', CHR ''|'',
     CHR ''['', CHR '']'', CHR ''{'', CHR ''}'', CHR ''^'', CHR ''$'']"

fun glob :: "string \<Rightarrow> string \<Rightarrow> bool" where
  "glob [] s = (s = [])"
| "glob (p # ps) [] = (p = CHR ''*'' \<and> glob ps [])"
| "glob (p # ps) (c # cs) =
     (if p = CHR ''*'' then glob ps (c # cs) \<or> c \<noteq> CHR 0x0A \<and> glob (p # ps) cs
      else lower_char p = lower_char c \<and> glob ps cs)"

definition compile_rule :: "(string \<Rightarrow> (string \<Rightarrow> bool) option) \<Rightarrow> string \<Rightarrow> matcher" where
  "compile_rule re rule =
     (if CHR ''*'' \<in> set rule then
        (if set rule \<inter> regex_meta = {} then Glob rule
         else case re rule of Some m \<Rightarrow> Regex m | None \<Rightarrow> Exact (to_lower rule))
      else Exact (to_lower rule))"

fun run_matcher :: "matcher \<Rightarrow> string \<Rightarrow> bool" where
  "run_matcher (Glob p) host = glob p host"
| "run_matcher (Regex m) host = m host"
| "run_matcher (Exact r) host = (to_lower host = r)"

definition NewStickyManager ::
  "(string \<Rightarrow> (string \<Rightarrow> bool) option) \<Rightarrow> gateway_settings option \<Rightarrow> sticky_manager" where
  "NewStickyManager re cfg =
     (let matchers = (case cfg of None \<Rightarrow> [] | Some g \<Rightarrow> map (compile_rule re) (gs_rules g));
          mode = (case cfg of None \<Rightarrow> ''disabled'' | Some g \<Rightarrow> gs_mode g);
          ttl = (case cfg of None \<Rightarrow> 0 | Some g \<Rightarrow> gs_ttl g)
      in \<lparr>sk_cache = [], sk_ttl = wrap64 (ttl * second), sk_mode = mode,
          sk_matchers = matchers, sk_stopped = False, sk_started = 0\<rparr>)"

subsection \<open>Operations\<close>

definition ShouldApply :: "sticky_manager \<Rightarrow> string \<Rightarrow> bool" where
  "ShouldApply sm host =
     (if sk_ttl sm \<le> 0 then False
      else if sk_mode sm = ''disabled'' then False
      else if sk_mode sm = ''global'' then True
      else if sk_mode sm = ''conditional'' then list_ex (\<lambda>m. run_matcher m host) (sk_matchers sm)
      else False)"

text \<open>The guard \<open>sm.mode == "disabled" || sm.ttl <= 0\<close> that opens four of the methods.\<close>

definition sticky_off :: "sticky_manager \<Rightarrow> bool" where
  "sticky_off sm \<longleftrightarrow> sk_mode sm = ''disabled'' \<or> sk_ttl sm \<le> 0"

text \<open>\<open>now1\<close> is the clock at the expiry test, \<open>now2\<close> at the renewal.\<close>

definition sticky_get ::
  "int \<Rightarrow> int \<Rightarrow> sticky_manager \<Rightarrow> string \<Rightarrow> server_states \<Rightarrow> sticky_record option \<times> sticky_manager" where
  "sticky_get now1 now2 sm key states =
     (if sticky_off sm then (None, sm)
      else case gm_get (sk_cache sm) key of
        None \<Rightarrow> (None, sm)
      | Some rec \<Rightarrow>
          if now1 > sr_expiry rec then (None, sm\<lparr>sk_cache := gm_del key (sk_cache sm)\<rparr>)
          else case gm_get states (sr_server rec) of
            None \<Rightarrow> (None, sm\<lparr>sk_cache := gm_del key (sk_cache sm)\<rparr>)
          | Some st \<Rightarrow>
              if \<not> usable st then (None, sm\<lparr>sk_cache := gm_del key (sk_cache sm)\<rparr>)
              else (let rec' = rec\<lparr>sr_expiry := now2 + sk_ttl sm\<rparr>
                    in (Some rec', sm\<lparr>sk_cache := gm_put key rec' (sk_cache sm)\<rparr>)))"

definition sticky_set :: "int \<Rightarrow> sticky_manager \<Rightarrow> string \<Rightarrow> string \<Rightarrow> sticky_manager" where
  "sticky_set now sm key server =
     (if sticky_off sm then sm
      else sm\<lparr>sk_cache := gm_put key \<lparr>sr_server = server, sr_expiry = now + sk_ttl sm\<rparr> (sk_cache sm)\<rparr>)"

text \<open>
  \<open>Start\<close> launches one clean-up goroutine per call, each of which runs until the stop channel
  is closed; \<open>Stop\<close> closes the channel once.
\<close>

definition sticky_start :: "sticky_manager \<Rightarrow> sticky_manager" where
  "sticky_start sm = (if sticky_off sm then sm else sm\<lparr>sk_started := Suc (sk_started sm)\<rparr>)"

definition sticky_stop :: "sticky_manager \<Rightarrow> sticky_manager" where
  "sticky_stop sm = (if sticky_off sm then sm else sm\<lparr>sk_stopped := True\<rparr>)"

definition cleanup :: "int \<Rightarrow> sticky_manager \<Rightarrow> sticky_manager" where
  "cleanup now sm = sm\<lparr>sk_cache := filter (\<lambda>(k, r). \<not> now > sr_expiry r) (sk_cache sm)\<rparr>"

definition GetAllClientIPs :: "sticky_manager \<Rightarrow> string list" where
  "GetAllClientIPs sm =
     remdups (List.map_filter
       (\<lambda>(k, r). case split_host_port k of Inl _ \<Rightarrow> None | Inr (ip, _) \<Rightarrow> Some ip) (sk_cache sm))"

text \<open>The number of clean-up goroutines that are still running.\<close>

definition sticky_live :: "sticky_manager \<Rightarrow> nat" where
  "sticky_live sm = (if sk_stopped sm then 0 else sk_started sm)"

subsection \<open>Well-formedness and frame facts\<close>

definition sticky_ok :: "sticky_manager \<Rightarrow> bool" where
  "sticky_ok sm \<longleftrightarrow> gm_ok (sk_cache sm)"

lemma distinct_delete: "gm_ok m \<Longrightarrow> gm_ok (gm_del k m)"
  by (simp add: distinct_delete)

lemma sticky_get_ok: "sticky_ok sm \<Longrightarrow> sticky_ok (snd (sticky_get n1 n2 sm k st))"
  by (auto simp: sticky_get_def sticky_ok_def Let_def distinct_update distinct_delete
      split: option.splits)

lemma sticky_set_ok: "sticky_ok sm \<Longrightarrow> sticky_ok (sticky_set n sm k v)"
  by (auto simp: sticky_set_def sticky_ok_def distinct_update)

lemma cleanup_ok: "sticky_ok sm \<Longrightarrow> sticky_ok (cleanup n sm)"
  by (auto simp: cleanup_def sticky_ok_def intro: distinct_map_filter)

lemma sticky_new_ok: "sticky_ok (NewStickyManager re cfg)"
  by (simp add: NewStickyManager_def sticky_ok_def Let_def)

lemma sticky_get_frame:
  "sk_ttl (snd (sticky_get n1 n2 sm k st)) = sk_ttl sm"
  "sk_mode (snd (sticky_get n1 n2 sm k st)) = sk_mode sm"
  "sk_matchers (snd (sticky_get n1 n2 sm k st)) = sk_matchers sm"
  by (auto simp: sticky_get_def Let_def split: option.splits)

lemma should_apply_not_off: "ShouldApply sm h \<Longrightarrow> \<not> sticky_off sm"
  by (auto simp: ShouldApply_def sticky_off_def split: if_splits)

lemma should_apply_cong:
  "sk_ttl a = sk_ttl b \<Longrightarrow> sk_mode a = sk_mode b \<Longrightarrow> sk_matchers a = sk_matchers b \<Longrightarrow>
     ShouldApply a h = ShouldApply b h"
  by (simp add: ShouldApply_def)

text \<open>What a successful look-up guarantees to the caller.\<close>

lemma sticky_get_Some:
  assumes "sticky_get n1 n2 sm k states = (Some r, sm')"
  shows "\<exists>st rec. gm_get states (sr_server r) = Some st \<and> usable st
           \<and> gm_get (sk_cache sm) k = Some rec \<and> sr_server rec = sr_server r
           \<and> n1 \<le> sr_expiry rec \<and> sr_expiry r = n2 + sk_ttl sm
           \<and> gm_get (sk_cache sm') k = Some r"
  using assms
  by (auto simp: sticky_get_def Let_def gm_get_put split: option.splits if_splits)

subsection \<open>Wildcards\<close>

lemma glob_plain:
  "CHR ''*'' \<notin> set p \<Longrightarrow> glob p s \<longleftrightarrow> to_lower p = to_lower s"
  by (induction p s rule: glob.induct) (auto simp: to_lower_def)

lemma glob_star_split:
  "glob (CHR ''*'' # p) s \<longleftrightarrow> (\<exists>a b. s = a @ b \<and> CHR 0x0A \<notin> set a \<and> glob p b)"
proof (induction s)
  case Nil
  then show ?case by simp
next
  case step: (Cons c cs)
  have "glob (CHR ''*'' # p) (c # cs) \<longleftrightarrow> glob p (c # cs) \<or> c \<noteq> CHR 0x0A \<and> glob (CHR ''*'' # p) cs"
    by simp
  also have "\<dots> \<longleftrightarrow> (\<exists>a b. c # cs = a @ b \<and> CHR 0x0A \<notin> set a \<and> glob p b)"
  proof
    assume "glob p (c # cs) \<or> c \<noteq> CHR 0x0A \<and> glob (CHR ''*'' # p) cs"
    then show "\<exists>a b. c # cs = a @ b \<and> CHR 0x0A \<notin> set a \<and> glob p b"
    proof
      assume "glob p (c # cs)"
      then have "c # cs = [] @ (c # cs) \<and> CHR 0x0A \<notin> set [] \<and> glob p (c # cs)" by simp
      then show ?thesis by blast
    next
      assume "c \<noteq> CHR 0x0A \<and> glob (CHR ''*'' # p) cs"
      then obtain a b where "cs = a @ b" "CHR 0x0A \<notin> set a" "glob p b" and "c \<noteq> CHR 0x0A"
        using step by blast
      then have "c # cs = (c # a) @ b \<and> CHR 0x0A \<notin> set (c # a) \<and> glob p b" by simp
      then show ?thesis by blast
    qed
  next
    assume "\<exists>a b. c # cs = a @ b \<and> CHR 0x0A \<notin> set a \<and> glob p b"
    then obtain a b where ab: "c # cs = a @ b" "CHR 0x0A \<notin> set a" "glob p b"
      by blast
    show "glob p (c # cs) \<or> c \<noteq> CHR 0x0A \<and> glob (CHR ''*'' # p) cs"
    proof (cases a)
      case Nil
      with ab show ?thesis by simp
    next
      case (Cons d a')
      with ab have "c \<noteq> CHR 0x0A" "cs = a' @ b" "CHR 0x0A \<notin> set a'" by auto
      with ab step show ?thesis by blast
    qed
  qed
  finally show ?case .
qed

subsection \<open>Properties\<close>

text \<open>
  A session stays with its backend: once \<open>Set\<close> has stored a server for a key, \<open>Get\<close>
  on that key returns the same server, and renews the record, as long as it is called within
  the time to live and the server is still active and healthy.
\<close>

lemma sticky_affinity:
  assumes "\<not> sticky_off sm"
    and "t1 \<le> t0 + sk_ttl sm"
    and "gm_get states server = Some st" and "usable st"
  shows "\<exists>sm'. sticky_get t1 t2 (sticky_set t0 sm key server) key states
                 = (Some \<lparr>sr_server = server, sr_expiry = t2 + sk_ttl sm\<rparr>, sm')
             \<and> gm_get (sk_cache sm') key = Some \<lparr>sr_server = server, sr_expiry = t2 + sk_ttl sm\<rparr>"
proof -
  have off: "\<not> sticky_off (sticky_set t0 sm key server)"
    using assms(1) by (simp add: sticky_set_def sticky_off_def)
  show ?thesis
    using assms off
    by (simp add: sticky_get_def sticky_set_def gm_get_put Let_def)
qed

definition demo_profile :: server_profile where
  "demo_profile = \<lparr>pf_id = ''s1'', pf_remarks = ''S1'', pf_type = ''worker'', pf_active = True,
     pf_local_port = 0, pf_address = ''a'', pf_port = 443, pf_network = '''', pf_scheme = ''wss'',
     pf_path = ''/'', pf_host = '''', pf_grpc_service = '''', pf_grpc_mode = '''',
     pf_grpc_authority = '''', pf_edge_ip = '''', pf_uuid = '''', pf_flow = '''', pf_security = '''',
     pf_sni = '''', pf_fingerprint = '''', pf_public_key = '''', pf_short_id = ''''\<rparr>"

definition demo_state :: server_state where
  "demo_state = \<lparr>ss_profile = demo_profile,
     ss_instance = Some (Some \<lparr>li_address = ''127.0.0.1'', li_port = 1001\<rparr>),
     ss_health = StatusUp, ss_metrics = Some \<lparr>mt_active = 1, mt_latency = 5\<rparr>\<rparr>"

definition demo_sticky :: sticky_manager where
  "demo_sticky = NewStickyManager (\<lambda>_. None)
     (Some \<lparr>gs_mode = ''global'', gs_ttl = 5, gs_rules = [''*.a.com''], gs_lb = ''''\<rparr>)"

lemma demo_sticky_simps [simp]:
  "sk_mode demo_sticky = ''global''" "sk_ttl demo_sticky = 5000000000" "sk_cache demo_sticky = []"
  by (simp_all add: demo_sticky_def NewStickyManager_def Let_def wrap64_def second_def)

lemma demo_state_usable [simp]: "usable demo_state"
  by (simp add: usable_def demo_state_def demo_profile_def)

lemma sticky_affinity_witness:
  "\<exists>sm'. sticky_get 7 8 (sticky_set 3 demo_sticky ''k'' ''s1'') ''k'' [(''s1'', demo_state)]
     = (Some \<lparr>sr_server = ''s1'', sr_expiry = 5000000008\<rparr>, sm')"
proof -
  have "\<not> sticky_off demo_sticky"
    by (simp add: sticky_off_def)
  from sticky_affinity [OF this, of 7 3 "[(''s1'', demo_state)]" "''s1''" demo_state 8 "''k''"]
  show ?thesis by auto
qed

text \<open>
  A record is used only while it is valid: \<open>Get\<close> returns nothing and removes the record
  when it has expired, when its server is gone, or when its server is inactive or not up.
\<close>

lemma sticky_get_rejects_invalid:
  assumes "\<not> sticky_off sm" and "gm_get (sk_cache sm) key = Some rec"
    and "t1 > sr_expiry rec \<or> (\<forall>st. gm_get states (sr_server rec) = Some st \<longrightarrow> \<not> usable st)"
  shows "fst (sticky_get t1 t2 sm key states) = None
       \<and> gm_get (sk_cache (snd (sticky_get t1 t2 sm key states))) key = None"
  using assms
  by (auto simp: sticky_get_def gm_get_del split: option.splits)

lemma sticky_get_rejects_invalid_witness:
  "fst (sticky_get 6000000000 6000000000 (sticky_set 3 demo_sticky ''k'' ''s1'') ''k''
     [(''s1'', demo_state)]) = None"
proof -
  let ?sm = "sticky_set 3 demo_sticky ''k'' ''s1''"
  have off: "\<not> sticky_off ?sm"
    by (simp add: sticky_set_def sticky_off_def)
  have rec: "gm_get (sk_cache ?sm) ''k'' = Some \<lparr>sr_server = ''s1'', sr_expiry = 5000000003\<rparr>"
    by (simp add: sticky_set_def sticky_off_def)
  show ?thesis
    using sticky_get_rejects_invalid [OF off rec] by simp
qed

lemma map_of_filter_val:
  "gm_ok m \<Longrightarrow> gm_get (filter (\<lambda>(k, v). P v) m) key =
     (case gm_get m key of Some v \<Rightarrow> if P v then Some v else None | None \<Rightarrow> None)"
  by (induction m) (auto simp: map_of_eq_None_iff split: option.splits)

text \<open>
  Clean-up is invisible: a \<open>Get\<close> at or after the clean-up returns exactly what it would
  have returned without it, so the background goroutine only frees memory.
\<close>

lemma cleanup_unobservable:
  assumes "sticky_ok sm" and "now \<le> t1"
  shows "fst (sticky_get t1 t2 (cleanup now sm) key states) = fst (sticky_get t1 t2 sm key states)"
proof -
  have look: "gm_get (sk_cache (cleanup now sm)) key =
      (case gm_get (sk_cache sm) key of Some v \<Rightarrow> if \<not> now > sr_expiry v then Some v else None
       | None \<Rightarrow> None)"
    using assms(1) by (simp add: cleanup_def sticky_ok_def map_of_filter_val)
  have off: "sticky_off (cleanup now sm) = sticky_off sm" "sk_ttl (cleanup now sm) = sk_ttl sm"
    by (simp_all add: cleanup_def sticky_off_def)
  show ?thesis
    using assms(2) by (auto simp: sticky_get_def look off Let_def split: option.splits)
qed

lemma cleanup_unobservable_witness:
  "fst (sticky_get 9 9 (cleanup 4 (sticky_set 3 demo_sticky ''k'' ''s1'')) ''k'' [(''s1'', demo_state)])
   = fst (sticky_get 9 9 (sticky_set 3 demo_sticky ''k'' ''s1'') ''k'' [(''s1'', demo_state)])"
proof (rule cleanup_unobservable)
  show "sticky_ok (sticky_set 3 demo_sticky ''k'' ''s1'')"
    by (rule sticky_set_ok) (simp add: demo_sticky_def sticky_new_ok)
qed simp

text \<open>
  What a wildcard rule means: in conditional mode with the single rule \<open>*suffix\<close> (no
  other wildcard and no regular-expression character), sessions are sticky exactly for the
  one-line hosts that end with the suffix, up to case.
\<close>

lemma wildcard_rule_matches_suffix:
  assumes "CHR ''*'' \<notin> set suf" and "set suf \<inter> regex_meta = {}"
    and "CHR 0x0A \<notin> set host"
    and "gs_mode cfg = ''conditional''" and "gs_rules cfg = [CHR ''*'' # suf]"
    and "0 < gs_ttl cfg" and "gs_ttl cfg \<le> 9000000000"
  shows "ShouldApply (NewStickyManager re (Some cfg)) host \<longleftrightarrow> has_suffix (to_lower host) (to_lower suf)"
proof -
  have ttl: "wrap64 (gs_ttl cfg * second) > 0"
    using assms(6,7) by (simp add: wrap64_def second_def)
  have rule: "compile_rule re (CHR ''*'' # suf) = Glob (CHR ''*'' # suf)"
    using assms(2) by (simp add: compile_rule_def regex_meta_def)
  have "glob (CHR ''*'' # suf) host \<longleftrightarrow> (\<exists>a b. host = a @ b \<and> to_lower suf = to_lower b)"
    unfolding glob_star_split glob_plain [OF assms(1)] using assms(3) by (metis UnCI set_append)
  also have "\<dots> \<longleftrightarrow> has_suffix (to_lower host) (to_lower suf)"
    unfolding has_suffix_iff to_lower_def by (auto simp: map_eq_append_conv)
  finally have "glob (CHR ''*'' # suf) host \<longleftrightarrow> has_suffix (to_lower host) (to_lower suf)" .
  then show ?thesis
    using assms(4,5) ttl rule by (simp add: ShouldApply_def NewStickyManager_def Let_def)
qed

lemma wildcard_rule_matches_suffix_witness:
  "ShouldApply (NewStickyManager (\<lambda>_. None)
     (Some \<lparr>gs_mode = ''conditional'', gs_ttl = 300, gs_rules = [''*.google.com''], gs_lb = ''''\<rparr>))
     ''www.Google.com''"
proof -
  let ?cfg = "\<lparr>gs_mode = ''conditional'', gs_ttl = 300, gs_rules = [''*.google.com''], gs_lb = ''''\<rparr>"
  have "has_suffix (to_lower ''www.Google.com'') (to_lower ''.google.com'')"
    by code_simp
  then show ?thesis
    using wildcard_rule_matches_suffix [of "''.google.com''" "''www.Google.com''" ?cfg "\<lambda>_. None"]
    by (simp add: regex_meta_def)
qed

end
