(* ===== verification/Dispatcher.thy ===== *)
theory Dispatcher
  imports Sticky "HOL-Library.List_Lexorder" "HOL-Library.Char_ord"
begin

section \<open>Routing and load balancing (internal/core/dispatcher/dispatcher.go)\<close>

text \<open>
  The two load balancers, the routing table and the decision procedure \<open>Dispatch\<close>. The
  server states come from the state provider as an argument; \<open>net.LookupIP\<close> is the
  parameter \<open>lookup\<close> (\<open>None\<close> for a resolver error); \<open>sort.Slice\<close>, which is not stable, is
  the parameter \<open>srt\<close>, of which \<open>slice_sort\<close> states the documented behaviour: a permutation
  of its input sorted by the key. The locale \<open>balancer\<close> is the interface \<open>LoadBalancer\<close>; both
  implementations are interpretations of it.
\<close>

subsection \<open>Load balancers\<close>

datatype load_balancer = LeastConnectionsBalancer | RoundRobinBalancer "32 word"

definition max_int64 :: int where
  "max_int64 = 2 ^ 63 - 1"

text \<open>
  The loop of \<open>LeastConnectionsBalancer.Select\<close> over \<open>bestServer\<close> and \<open>minConnections\<close>;
  \<open>lc_candidate\<close> is the conjunction of its two nested tests.
\<close>

definition lc_candidate :: "server_state \<Rightarrow> bool" where
  "lc_candidate s \<longleftrightarrow> usable s \<and> ss_instance s \<noteq> None \<and> ss_metrics s \<noteq> None"

definition active_of :: "server_state \<Rightarrow> int" where
  "active_of s = (case ss_metrics s of None \<Rightarrow> 0 | Some m \<Rightarrow> mt_active m)"

fun lc_loop :: "server_states \<Rightarrow> server_state option \<Rightarrow> int \<Rightarrow> server_state option" where
  "lc_loop [] best mn = best"
| "lc_loop ((k, s) # rest) best mn =
     (if lc_candidate s \<and> active_of s < mn then lc_loop rest (Some s) (active_of s)
      else lc_loop rest best mn)"

definition lc_select :: "unit \<Rightarrow> server_states \<Rightarrow> server_state res \<times> unit" where
  "lc_select u states =
     (case lc_loop states None max_int64 of
        None \<Rightarrow> (Inl (Msg ''no healthy backends available''), u)
      | Some s \<Rightarrow> (Inr s, u))"

definition available_ids :: "server_states \<Rightarrow> string list" where
  "available_ids states = sort (map fst (filter (\<lambda>(k, s). usable s) states))"

text \<open>\<open>RoundRobinBalancer.Select\<close>: \<open>atomic.AddUint32(&b.next, 1) - 1\<close> is the old counter.\<close>

definition rr_select :: "32 word \<Rightarrow> server_states \<Rightarrow> server_state res \<times> 32 word" where
  "rr_select next states =
     (let ids = available_ids states in
      if ids = [] then (Inl (Msg ''no healthy backends available for round robin''), next)
      else case gm_get states (ids ! (unat next mod length ids)) of
             None \<Rightarrow> (Inl (Panic ''nil server state''), next + 1)
           | Some s \<Rightarrow> (Inr s, next + 1))"

fun lb_select :: "load_balancer \<Rightarrow> server_states \<Rightarrow> server_state res \<times> load_balancer" where
  "lb_select LeastConnectionsBalancer states =
     (fst (lc_select () states), LeastConnectionsBalancer)"
| "lb_select (RoundRobinBalancer n) states =
     (let (r, n') = rr_select n states in (r, RoundRobinBalancer n'))"

text \<open>
  \<open>GetBackendForLoadBalancing\<close> over any balancer: a nil instance is an error, a nil listener
  a nil dereference.
\<close>

definition backend_with ::
  "('b \<Rightarrow> server_states \<Rightarrow> server_state res \<times> 'b) \<Rightarrow> 'b \<Rightarrow> server_states \<Rightarrow> (string \<times> string) res \<times> 'b" where
  "backend_with select b states =
     (let (r, b') = select b states in
      (and_then r (\<lambda>s. case ss_instance s of
          None \<Rightarrow> Inl (Msg (''load balancer selected an inactive server instance for ID ''
                            @ pf_id (ss_profile s)))
        | Some None \<Rightarrow> Inl (Panic ''nil listener info'')
        | Some (Some li) \<Rightarrow> Inr (li_addr li, pf_id (ss_profile s))), b'))"

definition GetBackendForLoadBalancing ::
  "load_balancer \<Rightarrow> server_states \<Rightarrow> (string \<times> string) res \<times> load_balancer" where
  "GetBackendForLoadBalancing lb states = backend_with lb_select lb states"

subsection \<open>Routing table\<close>

record route_info =
  ri_server :: string
  ri_target :: string

record processed_rule =
  pr_rule :: rule
  pr_route :: route_info

record dispatcher =
  d_rules :: "processed_rule list"
  d_sticky :: sticky_manager
  d_lb :: "load_balancer option"

definition slice_sort :: "(processed_rule list \<Rightarrow> processed_rule list) \<Rightarrow> bool" where
  "slice_sort srt \<longleftrightarrow>
     (\<forall>xs. mset (srt xs) = mset xs \<and> sorted (map (\<lambda>p. ru_priority (pr_rule p)) (srt xs)))"

definition is_virtual :: "string \<Rightarrow> bool" where
  "is_virtual t \<longleftrightarrow> t = ''DIRECT'' \<or> t = ''REJECT''"

text \<open>The body of the loop over \<open>cfg.Rules\<close>: \<open>None\<close> is a skipped rule (\<open>continue\<close>).\<close>

definition resolve_rule :: "server_states \<Rightarrow> rule \<Rightarrow> processed_rule option" where
  "resolve_rule states r =
     (if is_virtual (ru_target r)
      then Some \<lparr>pr_rule = r, pr_route = \<lparr>ri_server = ru_target r, ri_target = ru_target r\<rparr>\<rparr>
      else case find (\<lambda>(k, s). pf_remarks (ss_profile s) = ru_target r) states of
        None \<Rightarrow> None
      | Some (k, s) \<Rightarrow>
          if usable s then
            (case ss_instance s of
               Some (Some li) \<Rightarrow>
                 Some \<lparr>pr_rule = r,
                       pr_route = \<lparr>ri_server = pf_id (ss_profile s), ri_target = li_addr li\<rparr>\<rparr>
             | _ \<Rightarrow> None)
          else None)"

definition updateRoutingTables ::
  "(processed_rule list \<Rightarrow> processed_rule list) \<Rightarrow> server_states \<Rightarrow> routing_settings \<Rightarrow> dispatcher \<Rightarrow> dispatcher" where
  "updateRoutingTables srt states cfg d =
     d\<lparr>d_rules := srt (List.map_filter (resolve_rule states) (rt_rules cfg))\<rparr>"

subsection \<open>Construction and settings updates\<close>

text \<open>
  \<open>atomic.Value.Store\<close> panics when the concrete type of the new value differs from the one
  stored before; the two balancers have different concrete types.
\<close>

fun same_type :: "load_balancer \<Rightarrow> load_balancer \<Rightarrow> bool" where
  "same_type LeastConnectionsBalancer LeastConnectionsBalancer = True"
| "same_type (RoundRobinBalancer _) (RoundRobinBalancer _) = True"
| "same_type _ _ = False"

definition balancer_for :: "string \<Rightarrow> load_balancer" where
  "balancer_for strategy =
     (if strategy = ''round_robin'' then RoundRobinBalancer 0 else LeastConnectionsBalancer)"

definition updateLoadBalancer :: "string \<Rightarrow> dispatcher \<Rightarrow> unit res \<times> dispatcher" where
  "updateLoadBalancer strategy d =
     (let lb = balancer_for strategy in
      case d_lb d of
        None \<Rightarrow> (Inr (), d\<lparr>d_lb := Some lb\<rparr>)
      | Some old \<Rightarrow>
          if same_type old lb then (Inr (), d\<lparr>d_lb := Some lb\<rparr>)
          else (Inl (Panic ''sync/atomic: store of inconsistently typed value into Value''), d))"

definition NewDispatcher ::
  "(string \<Rightarrow> (string \<Rightarrow> bool) option) \<Rightarrow> gateway_settings \<Rightarrow> dispatcher" where
  "NewDispatcher re gs =
     snd (updateLoadBalancer (gs_lb gs)
       \<lparr>d_rules = [], d_sticky = NewStickyManager re (Some gs), d_lb = None\<rparr>)"

text \<open>
  The old manager is stopped and dropped, the new one started and stored, and only then the
  balancer is replaced. The second component of the result holds the old manager, which
  dispatches in flight may still use.
\<close>

definition OnSettingsUpdate ::
  "(processed_rule list \<Rightarrow> processed_rule list) \<Rightarrow> (string \<Rightarrow> (string \<Rightarrow> bool) option) \<Rightarrow> server_states \<Rightarrow>
   string \<Rightarrow> settings_value \<Rightarrow> dispatcher \<Rightarrow> unit res \<times> sticky_manager \<times> dispatcher" where
  "OnSettingsUpdate srt re states key v d =
     (if key = ''gateway'' then
        (case v of
           SVGateway cfg \<Rightarrow>
             (let old = sticky_stop (d_sticky d);
                  new = sticky_start (NewStickyManager re (Some cfg));
                  (r, d') = updateLoadBalancer (gs_lb cfg) (d\<lparr>d_sticky := new\<rparr>)
              in (r, old, d'))
         | _ \<Rightarrow> (Inl (Msg ''dispatcher: received incorrect settings type for gateway module''),
                 d_sticky d, d))
      else if key = ''routing'' then
        (case v of
           SVRouting cfg \<Rightarrow> (Inr (), d_sticky d, updateRoutingTables srt states cfg d)
         | _ \<Rightarrow> (Inl (Msg ''dispatcher: received incorrect settings type for routing module''),
                 d_sticky d, d))
      else (Inr (), d_sticky d, d))"

definition dispatcher_start :: "dispatcher \<Rightarrow> dispatcher" where
  "dispatcher_start d = d\<lparr>d_sticky := sticky_start (d_sticky d)\<rparr>"

definition dispatcher_stop :: "dispatcher \<Rightarrow> dispatcher" where
  "dispatcher_stop d = d\<lparr>d_sticky := sticky_stop (d_sticky d)\<rparr>"

definition GetRecentClientIPs :: "dispatcher \<Rightarrow> string list" where
  "GetRecentClientIPs d = GetAllClientIPs (d_sticky d)"

subsection \<open>Dispatch\<close>

definition domain_matches :: "string \<Rightarrow> string \<Rightarrow> bool" where
  "domain_matches host pattern =
     (let h = to_lower host; p = to_lower pattern in
      if has_prefix p ''.'' then has_suffix h p
      else h = p \<or> has_suffix h (CHR ''.'' # p))"

definition cidr_matches :: "naddr \<Rightarrow> string \<Rightarrow> bool" where
  "cidr_matches ip cidr = (case parse_prefix cidr of None \<Rightarrow> False | Some p \<Rightarrow> prefix_contains p ip)"

text \<open>The address a \<open>dest_ip\<close> rule is tested on: the literal, or the first resolved one.\<close>

definition target_ip :: "(string \<Rightarrow> bytes list option) \<Rightarrow> string \<Rightarrow> naddr" where
  "target_ip lookup host =
     (case parse_addr host of
        Some a \<Rightarrow> a
      | None \<Rightarrow>
          (case lookup host of
             None \<Rightarrow> NoAddr
           | Some ips \<Rightarrow>
               (case List.map_filter addr_from_slice ips of [] \<Rightarrow> NoAddr | a # _ \<Rightarrow> a)))"

definition rule_matches ::
  "(string \<Rightarrow> bytes list option) \<Rightarrow> naddr \<Rightarrow> string \<Rightarrow> rule \<Rightarrow> bool" where
  "rule_matches lookup client host r =
     (if ru_type r = ''domain'' then list_ex (domain_matches host) (ru_value r)
      else if ru_type r = ''source_ip'' then list_ex (cidr_matches client) (ru_value r)
      else if ru_type r = ''dest_ip'' then
        (let ip = target_ip lookup host in ip \<noteq> NoAddr \<and> list_ex (cidr_matches ip) (ru_value r))
      else False)"

text \<open>Whether a matched rule is used: virtual targets always, a backend only while it is usable.\<close>

definition route_available :: "server_states \<Rightarrow> route_info \<Rightarrow> bool" where
  "route_available states ro \<longleftrightarrow>
     is_virtual (ri_target ro) \<or>
     (case gm_get states (ri_server ro) of None \<Rightarrow> False | Some s \<Rightarrow> usable s)"

fun rule_loop ::
  "(string \<Rightarrow> bytes list option) \<Rightarrow> server_states \<Rightarrow> naddr \<Rightarrow> string \<Rightarrow> processed_rule list \<Rightarrow> (string \<times> string) option" where
  "rule_loop lookup states client host [] = None"
| "rule_loop lookup states client host (p # ps) =
     (if rule_matches lookup client host (pr_rule p) \<and> route_available states (pr_route p)
      then Some (ri_target (pr_route p), ri_server (pr_route p))
      else rule_loop lookup states client host ps)"

definition sticky_key :: "string \<Rightarrow> string \<Rightarrow> string" where
  "sticky_key client host = client @ '':'' @ host"

text \<open>
  The sticky look-up: \<open>Some r\<close> ends the dispatch with \<open>r\<close>, \<open>None\<close> falls through to the
  load balancer.
\<close>

definition sticky_route ::
  "int \<Rightarrow> int \<Rightarrow> server_states \<Rightarrow> string \<Rightarrow> string \<Rightarrow> sticky_manager \<Rightarrow> (string \<times> string) res option \<times> sticky_manager" where
  "sticky_route t1 t2 states client host sm =
     (if ShouldApply sm host then
        (case sticky_get t1 t2 sm (sticky_key client host) states of
           (None, sm') \<Rightarrow> (None, sm')
         | (Some rec, sm') \<Rightarrow>
             (case gm_get states (sr_server rec) of
                None \<Rightarrow> (None, sm')
              | Some s \<Rightarrow>
                  (case ss_instance s of
                     None \<Rightarrow> (None, sm')
                   | Some None \<Rightarrow> (Some (Inl (Panic ''nil listener info'')), sm')
                   | Some (Some li) \<Rightarrow> (Some (Inr (li_addr li, sr_server rec)), sm'))))
      else (None, sm))"

fun is_panic :: "goerr \<Rightarrow> bool" where
  "is_panic (Panic _) = True"
| "is_panic _ = False"

definition balance ::
  "int \<Rightarrow> server_states \<Rightarrow> string \<Rightarrow> string \<Rightarrow> string \<Rightarrow> dispatcher \<Rightarrow> (string \<times> string) res \<times> dispatcher" where
  "balance t3 states client host target d =
     (case d_lb d of
        None \<Rightarrow> (Inl (Panic ''interface conversion: interface is nil''), d)
      | Some lb \<Rightarrow>
          (case GetBackendForLoadBalancing lb states of
             (Inl e, lb') \<Rightarrow>
               (Inl (if is_panic e then e
                     else Msg (''no route matched for target '' @ target @
                               '' and no healthy backends available'')),
                d\<lparr>d_lb := Some lb'\<rparr>)
           | (Inr (addr, sid), lb') \<Rightarrow>
               (Inr (addr, sid),
                (if ShouldApply (d_sticky d) host
                 then d\<lparr>d_lb := Some lb',
                        d_sticky := sticky_set t3 (d_sticky d) (sticky_key client host) sid\<rparr>
                 else d\<lparr>d_lb := Some lb'\<rparr>))))"

text \<open>\<open>t1\<close>, \<open>t2\<close>, \<open>t3\<close> are the clock readings of the call; \<open>source\<close> is \<open>source.String()\<close>.\<close>

definition Dispatch ::
  "(string \<Rightarrow> bytes list option) \<Rightarrow> int \<Rightarrow> int \<Rightarrow> int \<Rightarrow> server_states \<Rightarrow> string \<Rightarrow> string \<Rightarrow> dispatcher \<Rightarrow>
   (string \<times> string) res \<times> dispatcher" where
  "Dispatch lookup t1 t2 t3 states source target d =
     (let client = split_host source; host = split_host target in
      case parse_addr client of
        None \<Rightarrow> (Inl (Msg (''invalid source IP: '' @ client)), d)
      | Some ip \<Rightarrow>
          (case rule_loop lookup states ip host (d_rules d) of
             Some r \<Rightarrow> (Inr r, d)
           | None \<Rightarrow>
               (case sticky_route t1 t2 states client host (d_sticky d) of
                  (Some r, sm') \<Rightarrow> (r, d\<lparr>d_sticky := sm'\<rparr>)
                | (None, sm') \<Rightarrow> balance t3 states client host target (d\<lparr>d_sticky := sm'\<rparr>))))"

text \<open>\<open>ReportFailure\<close> and \<open>ReportSuccess\<close> pass on real servers only.\<close>

definition forward_report :: "string \<Rightarrow> (string \<Rightarrow> 'a \<Rightarrow> 'a) option \<Rightarrow> 'a \<Rightarrow> 'a" where
  "forward_report sid reporter a =
     (if is_virtual sid then a else case reporter of None \<Rightarrow> a | Some f \<Rightarrow> f sid a)"

subsection \<open>The balancer interface\<close>

text \<open>What \<open>Dispatch\<close> relies on: a selected server is one of the map's and is usable, and some
  server is selected whenever an eligible one is there.\<close>

locale balancer =
  fixes select :: "'b \<Rightarrow> server_states \<Rightarrow> server_state res \<times> 'b"
    and eligible :: "server_state \<Rightarrow> bool"
  assumes select_sound:
      "gm_ok states \<Longrightarrow> fst (select b states) = Inr s \<Longrightarrow> \<exists>k. (k, s) \<in> set states \<and> usable s"
    and select_complete:
      "gm_ok states \<Longrightarrow> (k, s) \<in> set states \<Longrightarrow> eligible s \<Longrightarrow> \<exists>s'. fst (select b states) = Inr s'"
begin

lemma backend_sound:
  assumes "gm_ok states" and "fst (backend_with select b states) = Inr (a, i)"
  shows "\<exists>k s li. (k, s) \<in> set states \<and> usable s \<and> ss_instance s = Some (Some li)
           \<and> a = li_addr li \<and> i = pf_id (ss_profile s)"
proof -
  from assms(2) obtain s where s: "fst (select b states) = Inr s"
    and r: "(case ss_instance s of None \<Rightarrow> Inl (Msg (''load balancer selected an inactive server instance for ID '' @ pf_id (ss_profile s)))
       | Some None \<Rightarrow> Inl (Panic ''nil listener info'')
       | Some (Some li) \<Rightarrow> Inr (li_addr li, pf_id (ss_profile s))) = Inr (a, i)"
    by (auto simp: backend_with_def split: prod.splits)
  from select_sound [OF assms(1) s] r show ?thesis
    by (auto split: option.splits)
qed

lemma backend_live:
  assumes "gm_ok states" and "(k, s) \<in> set states" and "eligible s"
    and "\<And>k s. (k, s) \<in> set states \<Longrightarrow> usable s \<Longrightarrow> \<exists>li. ss_instance s = Some (Some li)"
  shows "\<exists>a i. fst (backend_with select b states) = Inr (a, i)"
proof -
  from select_complete [OF assms(1-3)] obtain s' where s': "fst (select b states) = Inr s'"
    by blast
  with select_sound [OF assms(1)] assms(4) obtain li where "ss_instance s' = Some (Some li)"
    by blast
  with s' show ?thesis
    by (auto simp: backend_with_def split: prod.splits)
qed

end

text \<open>The loop invariant of the least-connections search.\<close>

lemma lc_loop_sound:
  "lc_loop states best mn = Some s \<Longrightarrow>
     best = Some s \<or> (\<exists>k. (k, s) \<in> set states \<and> lc_candidate s)"
  by (induction states best mn rule: lc_loop.induct) (fastforce split: if_splits)+

lemma lc_loop_min:
  assumes "lc_loop states best mn = Some s"
    and "\<And>b. best = Some b \<Longrightarrow> active_of b = mn"
  shows "active_of s \<le> mn \<and> (\<forall>(k, s') \<in> set states. lc_candidate s' \<longrightarrow> active_of s \<le> active_of s')"
  using assms
proof (induction states best mn rule: lc_loop.induct)
  case (1 best mn)
  then show ?case by simp
next
  case (2 k s' rest best mn)
  then show ?case
    by (cases "lc_candidate s' \<and> active_of s' < mn") fastforce+
qed

lemma lc_loop_complete:
  "lc_loop states best mn = None \<Longrightarrow>
     best = None \<and> (\<forall>(k, s) \<in> set states. \<not> (lc_candidate s \<and> active_of s < mn))"
  by (induction states best mn rule: lc_loop.induct) (auto split: if_splits)

lemma lc_select_Inr:
  assumes "fst (lc_select u states) = Inr s"
  shows "\<exists>k. (k, s) \<in> set states \<and> lc_candidate s"
  using assms lc_loop_sound [of states None max_int64]
  by (auto simp: lc_select_def split: option.splits)

lemma available_ids_set: "set (available_ids states) = {k. \<exists>s. (k, s) \<in> set states \<and> usable s}"
  by (force simp: available_ids_def)

lemma rr_pick:
  assumes "gm_ok states" and "available_ids states \<noteq> []"
  shows "\<exists>s. gm_get states (available_ids states ! (n mod length (available_ids states))) = Some s
           \<and> usable s"
proof -
  let ?ids = "available_ids states"
  have "?ids ! (n mod length ?ids) \<in> set ?ids"
    using assms(2) by (intro nth_mem) simp
  then obtain s where "(?ids ! (n mod length ?ids), s) \<in> set states" "usable s"
    by (auto simp: available_ids_set)
  then show ?thesis using assms(1) by (auto simp: map_of_eq_Some_iff)
qed

lemma rr_select_Inr:
  assumes "gm_ok states" and "available_ids states \<noteq> []"
  shows "\<exists>s. rr_select n states = (Inr s, n + 1) \<and> usable s
       \<and> gm_get states (available_ids states ! (unat n mod length (available_ids states))) = Some s"
  using rr_pick [OF assms, of "unat n"] assms(2) by (auto simp: rr_select_def Let_def)

lemma rr_select_none: "available_ids states = [] \<Longrightarrow> \<exists>e. rr_select n states = (Inl e, n)"
  by (simp add: rr_select_def)

text \<open>A server every balancer can take: usable, with an instance and a sane connection count.\<close>

definition balanceable :: "server_state \<Rightarrow> bool" where
  "balanceable s \<longleftrightarrow> lc_candidate s \<and> active_of s < max_int64"

interpretation lc: balancer lc_select balanceable
proof
  fix states and b :: unit and s
  assume "gm_ok states" and "fst (lc_select b states) = Inr s"
  then show "\<exists>k. (k, s) \<in> set states \<and> usable s"
    using lc_select_Inr by (auto simp: lc_candidate_def)
next
  fix states :: server_states and k s and b :: unit
  assume "(k, s) \<in> set states" and "balanceable s"
  then show "\<exists>s'. fst (lc_select b states) = Inr s'"
    using lc_loop_complete [of states None max_int64]
    by (auto simp: lc_select_def balanceable_def split: option.splits)
qed

interpretation rr: balancer rr_select usable
proof
  fix states b s
  assume ok: "gm_ok states" and r: "fst (rr_select b states) = Inr s"
  then have "available_ids states \<noteq> []"
    using rr_select_none [of states b] by auto
  from rr_select_Inr [OF ok this, of b] r ok show "\<exists>k. (k, s) \<in> set states \<and> usable s"
    by (auto dest: map_of_SomeD)
next
  fix states :: server_states and k s and b :: "32 word"
  assume ok: "gm_ok states" and "(k, s) \<in> set states" and "usable s"
  then have "available_ids states \<noteq> []"
    using available_ids_set [of states] by fastforce
  from rr_select_Inr [OF ok this, of b] show "\<exists>s'. fst (rr_select b states) = Inr s'"
    by auto
qed

lemma lb_select_fst:
  "fst (lb_select lb states) =
     (case lb of LeastConnectionsBalancer \<Rightarrow> fst (lc_select () states)
      | RoundRobinBalancer n \<Rightarrow> fst (rr_select n states))"
  by (cases lb) (auto split: prod.splits)

interpretation lb: balancer lb_select balanceable
proof
  fix states b s
  assume "gm_ok states" and "fst (lb_select b states) = Inr s"
  then show "\<exists>k. (k, s) \<in> set states \<and> usable s"
    using lc.select_sound rr.select_sound
    by (auto simp: lb_select_fst split: load_balancer.splits)
next
  fix states :: server_states and k s and b
  assume "gm_ok states" and "(k, s) \<in> set states" and "balanceable s"
  then show "\<exists>s'. fst (lb_select b states) = Inr s'"
    using lc.select_complete rr.select_complete
    by (auto simp: lb_select_fst balanceable_def lc_candidate_def split: load_balancer.splits)
qed

subsection \<open>Properties of the balancers\<close>

text \<open>
  Least connections: the server selected has the fewest active connections among all
  servers that are active, up, running and measured, whatever the order of the map.
\<close>

lemma least_connections_minimal:
  assumes "fst (lc_select u states) = Inr s"
    and "(k', s') \<in> set states" and "lc_candidate s'"
  shows "lc_candidate s \<and> (\<exists>k. (k, s) \<in> set states) \<and> active_of s \<le> active_of s'"
proof -
  from assms(1) have "lc_loop states None max_int64 = Some s"
    by (simp add: lc_select_def split: option.splits)
  from lc_loop_min [OF this] assms(2,3) have "active_of s \<le> active_of s'"
    by auto
  with lc_select_Inr [OF assms(1)] show ?thesis by blast
qed

definition demo_state2 :: server_state where
  "demo_state2 = demo_state\<lparr>ss_profile := demo_profile\<lparr>pf_id := ''s2'', pf_remarks := ''S2''\<rparr>,
     ss_instance := Some (Some \<lparr>li_address = ''127.0.0.1'', li_port = 1002\<rparr>),
     ss_metrics := Some \<lparr>mt_active = 5, mt_latency = 5\<rparr>\<rparr>"

abbreviation demo_states :: server_states where
  "demo_states \<equiv> [(''s2'', demo_state2), (''s1'', demo_state)]"

lemmas demo_defs = demo_state_def demo_state2_def demo_profile_def usable_def

lemma demo_usable [simp]: "usable demo_state2"
  by (simp add: demo_defs)

lemma least_connections_minimal_witness:
  "active_of demo_state \<le> active_of demo_state2 \<and> fst (lc_select () demo_states) = Inr demo_state"
proof -
  have sel: "fst (lc_select () demo_states) = Inr demo_state"
    by (simp add: lc_select_def lc_candidate_def active_of_def demo_defs max_int64_def)
  have "lc_candidate demo_state2"
    by (simp add: lc_candidate_def demo_defs)
  then show ?thesis
    using least_connections_minimal [OF sel, of "''s2''" demo_state2] sel by simp
qed

text \<open>\<open>k\<close> consecutive selections on unchanged states.\<close>

fun rr_run :: "nat \<Rightarrow> 32 word \<Rightarrow> server_states \<Rightarrow> server_state res list" where
  "rr_run 0 n states = []"
| "rr_run (Suc k) n states = fst (rr_select n states) # rr_run k (snd (rr_select n states)) states"

lemma unat_plus_one: "unat n + Suc k < 2 ^ 32 \<Longrightarrow> unat (n + 1 :: 32 word) = unat n + 1"
  by (simp add: unat_word_ariths)

lemma rr_run_eq:
  assumes "gm_ok states" and "available_ids states \<noteq> []" and "unat n + k < 2 ^ 32"
  shows "rr_run k n states =
    map (\<lambda>i. Inr (the (gm_get states (available_ids states ! ((unat n + i) mod length (available_ids states))))))
      [0..<k]"
  using assms(3)
proof (induction k arbitrary: n)
  case 0
  then show ?case by simp
next
  case (Suc k)
  obtain s where s: "rr_select n states = (Inr s, n + 1)"
    and g: "gm_get states (available_ids states ! (unat n mod length (available_ids states))) = Some s"
    using rr_select_Inr [OF assms(1,2), of n] by blast
  have "unat (n + 1) = unat n + 1" using Suc.prems by (intro unat_plus_one [of _ k]) simp
  moreover from this have "unat (n + 1) + k < 2 ^ 32" using Suc.prems by simp
  ultimately show ?case
    using Suc.IH [of "n + 1"] s g by (simp add: upt_conv_Cons map_Suc_upt [symmetric] del: upt_Suc)
qed

lemma rr_rotate:
  "xs \<noteq> [] \<Longrightarrow> map (\<lambda>i. xs ! ((n + i) mod length xs)) [0..<length xs] = rotate n xs"
  by (rule nth_equalityI) (simp_all add: nth_rotate)

lemma mset_rotate_eq: "mset (rotate n xs) = mset xs"
proof -
  have "mset (rotate n xs) = mset (take (n mod length xs) xs @ drop (n mod length xs) xs)"
    unfolding rotate_drop_take mset_append by (rule add.commute)
  then show ?thesis by simp
qed

text \<open>
  C23. Round robin is fair: over as many consecutive selections as there are usable servers,
  every usable server is selected exactly once (until the 32-bit counter wraps).
\<close>

theorem round_robin_fair:
  assumes "gm_ok states"
    and "unat n + length (filter (\<lambda>(k, s). usable s) states) < 2 ^ 32"
  shows "mset (rr_run (length (filter (\<lambda>(k, s). usable s) states)) n states)
       = mset (map (\<lambda>(k, s). Inr s) (filter (\<lambda>(k, s). usable s) states))"
proof (cases "available_ids states = []")
  case True
  then have "filter (\<lambda>(k, s). usable s) states = []"
    by (metis available_ids_def length_0_conv length_map length_sort)
  then show ?thesis by simp
next
  case False
  let ?us = "filter (\<lambda>(k, s). usable s) states"
  let ?ids = "available_ids states"
  have len: "length ?ids = length ?us"
    by (simp add: available_ids_def)
  have "rr_run (length ?us) n states
      = map (\<lambda>i. Inr (the (gm_get states i))) (map (\<lambda>i. ?ids ! ((unat n + i) mod length ?ids)) [0..<length ?ids])"
    using rr_run_eq [OF assms(1) False assms(2)] by (simp add: len comp_def)
  also have "\<dots> = map (\<lambda>i. Inr (the (gm_get states i))) (rotate (unat n) ?ids)"
    by (simp only: rr_rotate [OF False])
  finally have "mset (rr_run (length ?us) n states) = image_mset (\<lambda>i. Inr (the (gm_get states i))) (mset ?ids)"
    by (simp add: mset_rotate_eq)
  also have "\<dots> = mset (map (\<lambda>i. Inr (the (gm_get states i))) (map fst ?us))"
    by (simp add: available_ids_def multiset.map_comp comp_def)
  also have "map (\<lambda>i. Inr (the (gm_get states i))) (map fst ?us) = map (\<lambda>(k, s). Inr s) ?us"
    using assms(1) by (auto simp: map_of_is_SomeI)
  finally show ?thesis .
qed

theorem round_robin_fair_witness:
  "mset (rr_run (Suc (Suc 0)) 7 demo_states) = mset [Inr demo_state2, Inr demo_state]"
  using round_robin_fair [of demo_states 7] by simp

subsection \<open>Properties of the routing table\<close>

lemma resolve_rule_Some:
  assumes "resolve_rule states r = Some p"
  shows "pr_rule p = r \<and>
    (if is_virtual (ru_target r) then ri_server (pr_route p) = ru_target r \<and> ri_target (pr_route p) = ru_target r
     else \<exists>k s li. (k, s) \<in> set states \<and> usable s \<and> pf_remarks (ss_profile s) = ru_target r
        \<and> ss_instance s = Some (Some li) \<and> pr_route p = \<lparr>ri_server = pf_id (ss_profile s), ri_target = li_addr li\<rparr>)"
  using assms
  by (fastforce simp: resolve_rule_def dest!: find_Some_mem split: if_splits option.splits)

text \<open>
  \<open>updateRoutingTables\<close> builds the right table: sorted by priority, holding exactly the
  rules that resolve, and every entry that is not \<open>DIRECT\<close> or \<open>REJECT\<close> points to a server
  of the map that is active, up and listening, under that server's remarks.
\<close>

lemma routing_table_correct:
  assumes "slice_sort srt"
    and "t = d_rules (updateRoutingTables srt states cfg d)"
  shows "sorted (map (\<lambda>p. ru_priority (pr_rule p)) t)
    \<and> mset t = mset (List.map_filter (resolve_rule states) (rt_rules cfg))
    \<and> (\<forall>p \<in> set t. \<not> is_virtual (ru_target (pr_rule p)) \<longrightarrow>
         (\<exists>k s li. (k, s) \<in> set states \<and> usable s \<and> pf_remarks (ss_profile s) = ru_target (pr_rule p)
            \<and> ss_instance s = Some (Some li) \<and> ri_server (pr_route p) = pf_id (ss_profile s)
            \<and> ri_target (pr_route p) = li_addr li))"
proof (intro conjI ballI impI)
  show "sorted (map (\<lambda>p. ru_priority (pr_rule p)) t)"
    using assms by (simp add: updateRoutingTables_def slice_sort_def)
  show m: "mset t = mset (List.map_filter (resolve_rule states) (rt_rules cfg))"
    using assms by (simp add: updateRoutingTables_def slice_sort_def)
  fix p
  assume p: "p \<in> set t" and nv: "\<not> is_virtual (ru_target (pr_rule p))"
  from p m have "p \<in> set (List.map_filter (resolve_rule states) (rt_rules cfg))"
    by (metis set_mset_mset)
  then obtain r where "resolve_rule states r = Some p"
    by (auto simp: map_filter_def)
  from resolve_rule_Some [OF this] nv show "\<exists>k s li. (k, s) \<in> set states \<and> usable s
        \<and> pf_remarks (ss_profile s) = ru_target (pr_rule p)
        \<and> ss_instance s = Some (Some li) \<and> ri_server (pr_route p) = pf_id (ss_profile s)
        \<and> ri_target (pr_route p) = li_addr li"
    by fastforce
qed

lemma slice_sort_sort_key: "slice_sort (sort_key (\<lambda>p. ru_priority (pr_rule p)))"
  by (simp add: slice_sort_def)

definition demo_rule :: rule where
  "demo_rule = \<lparr>ru_priority = 3, ru_type = ''domain'', ru_value = [''baidu.com''], ru_target = ''S2''\<rparr>"

lemma routing_table_correct_witness:
  "sorted (map (\<lambda>p. ru_priority (pr_rule p)) (d_rules (updateRoutingTables
      (sort_key (\<lambda>p. ru_priority (pr_rule p))) demo_states
      \<lparr>rt_rules = [demo_rule, demo_rule\<lparr>ru_priority := 1\<rparr>]\<rparr>
      \<lparr>d_rules = [], d_sticky = demo_sticky, d_lb = None\<rparr>)))"
  using routing_table_correct [OF slice_sort_sort_key refl] by blast

lemma rule_loop_split:
  "rule_loop lookup states client host ps = Some r \<Longrightarrow>
     \<exists>xs p ys. ps = xs @ p # ys \<and> r = (ri_target (pr_route p), ri_server (pr_route p))
       \<and> rule_matches lookup client host (pr_rule p) \<and> route_available states (pr_route p)
       \<and> (\<forall>q \<in> set xs. \<not> (rule_matches lookup client host (pr_rule q) \<and> route_available states (pr_route q)))"
proof (induction ps)
  case Nil
  then show ?case by simp
next
  case (Cons p ps)
  show ?case
  proof (cases "rule_matches lookup client host (pr_rule p) \<and> route_available states (pr_route p)")
    case True
    with Cons.prems have "p # ps = [] @ p # ps \<and> r = (ri_target (pr_route p), ri_server (pr_route p))"
      by simp
    with True show ?thesis by (metis empty_iff empty_set)
  next
    case False
    with Cons.prems have "rule_loop lookup states client host ps = Some r" by auto
    from Cons.IH [OF this] obtain xs q ys where "ps = xs @ q # ys"
      and q: "r = (ri_target (pr_route q), ri_server (pr_route q))"
        "rule_matches lookup client host (pr_rule q)" "route_available states (pr_route q)"
        "\<forall>z \<in> set xs. \<not> (rule_matches lookup client host (pr_rule z) \<and> route_available states (pr_route z))"
      by blast
    then have "p # ps = (p # xs) @ q # ys" by simp
    moreover from q(4) False have "\<forall>z \<in> set (p # xs). \<not> (rule_matches lookup client host (pr_rule z) \<and> route_available states (pr_route z))"
      by simp
    ultimately show ?thesis using q by blast
  qed
qed

text \<open>
  Rules are taken in priority order: the route that the rule loop returns belongs to a
  rule that matches and whose target is available, and no rule of a strictly smaller priority
  value in a sorted table both matches and has an available target. If nothing is returned,
  no rule matches with an available target.
\<close>

lemma rule_loop_priority:
  assumes "sorted (map (\<lambda>p. ru_priority (pr_rule p)) ps)"
    and "rule_loop lookup states client host ps = Some r"
  shows "\<exists>p \<in> set ps. r = (ri_target (pr_route p), ri_server (pr_route p))
       \<and> rule_matches lookup client host (pr_rule p) \<and> route_available states (pr_route p)
       \<and> (\<forall>q \<in> set ps. rule_matches lookup client host (pr_rule q) \<and> route_available states (pr_route q)
            \<longrightarrow> ru_priority (pr_rule p) \<le> ru_priority (pr_rule q))"
proof -
  from rule_loop_split [OF assms(2)] obtain xs p ys where ps: "ps = xs @ p # ys"
    and p: "r = (ri_target (pr_route p), ri_server (pr_route p))"
      "rule_matches lookup client host (pr_rule p)" "route_available states (pr_route p)"
    and xs: "\<forall>q \<in> set xs. \<not> (rule_matches lookup client host (pr_rule q) \<and> route_available states (pr_route q))"
    by blast
  have "\<forall>q \<in> set (p # ys). ru_priority (pr_rule p) \<le> ru_priority (pr_rule q)"
    using assms(1) by (auto simp: ps sorted_append)
  with xs have "\<forall>q \<in> set ps. rule_matches lookup client host (pr_rule q) \<and> route_available states (pr_route q)
      \<longrightarrow> ru_priority (pr_rule p) \<le> ru_priority (pr_rule q)"
    unfolding ps by (simp only: set_append) blast
  moreover have "p \<in> set ps" by (simp add: ps)
  ultimately show ?thesis using p by blast
qed

lemma rule_loop_None:
  "rule_loop lookup states client host ps = None \<longleftrightarrow>
     (\<forall>p \<in> set ps. \<not> (rule_matches lookup client host (pr_rule p) \<and> route_available states (pr_route p)))"
  by (induction ps) auto

definition demo_direct :: processed_rule where
  "demo_direct = \<lparr>pr_rule = demo_rule\<lparr>ru_target := ''DIRECT''\<rparr>,
     pr_route = \<lparr>ri_server = ''DIRECT'', ri_target = ''DIRECT''\<rparr>\<rparr>"

lemma demo_direct_match:
  "rule_matches lookup client ''www.baidu.com'' (pr_rule demo_direct)"
  "route_available states (pr_route demo_direct)"
proof -
  have "domain_matches ''www.baidu.com'' ''baidu.com''" by code_simp
  then show "rule_matches lookup client ''www.baidu.com'' (pr_rule demo_direct)"
    by (simp add: rule_matches_def demo_direct_def demo_rule_def)
  show "route_available states (pr_route demo_direct)"
    by (simp add: route_available_def demo_direct_def is_virtual_def)
qed

lemma rule_loop_priority_witness:
  "\<exists>p \<in> set [demo_direct]. (''DIRECT'', ''DIRECT'') = (ri_target (pr_route p), ri_server (pr_route p))"
proof -
  have "rule_loop (\<lambda>_. None) [] NoAddr ''www.baidu.com'' [demo_direct] = Some (''DIRECT'', ''DIRECT'')"
    by (simp add: demo_direct_match) (simp add: demo_direct_def)
  from rule_loop_priority [OF _ this] show ?thesis by auto
qed

end
