(* ===== verification/Routing.thy ===== *)
theory Routing
  imports Dispatcher
begin

section \<open>What a dispatch decision guarantees\<close>

text \<open>
  Properties of \<open>Dispatch\<close>, of the matching of rules and of settings updates, over the
  definitions of \<open>Dispatcher\<close> and \<open>Sticky\<close>.
\<close>

subsection \<open>Decisions\<close>

text \<open>The state provider keys every state by its profile's ID.\<close>

definition well_keyed :: "server_states \<Rightarrow> bool" where
  "well_keyed states \<longleftrightarrow> gm_ok states \<and> (\<forall>(k, s) \<in> set states. pf_id (ss_profile s) = k)"

lemma well_keyedD: "well_keyed states \<Longrightarrow> (k, s) \<in> set states \<Longrightarrow> gm_get states (pf_id (ss_profile s)) = Some s"
  by (auto simp: well_keyed_def map_of_is_SomeI)

lemma GetBackend_sound:
  assumes "well_keyed states" and "GetBackendForLoadBalancing lb states = (Inr (a, i), lb')"
  shows "\<exists>s li. gm_get states i = Some s \<and> usable s \<and> ss_instance s = Some (Some li) \<and> a = li_addr li"
proof -
  have "fst (backend_with lb_select lb states) = Inr (a, i)"
    using assms(2) by (simp add: GetBackendForLoadBalancing_def)
  from lb.backend_sound [OF _ this] assms(1) obtain k s li where
    "(k, s) \<in> set states" "usable s" "ss_instance s = Some (Some li)" "a = li_addr li"
    "i = pf_id (ss_profile s)"
    by (auto simp: well_keyed_def)
  with well_keyedD [OF assms(1)] show ?thesis by blast
qed

lemma sticky_route_sound:
  assumes "sticky_route t1 t2 states client host sm = (Some (Inr (a, i)), sm')"
  shows "\<exists>s li. gm_get states i = Some s \<and> usable s \<and> ss_instance s = Some (Some li) \<and> a = li_addr li"
  using assms
  by (auto simp: sticky_route_def split: if_splits option.splits prod.splits dest!: sticky_get_Some)

lemma balance_sound:
  assumes "well_keyed states" and "balance t3 states client host target d = (Inr (a, i), d')"
  shows "\<exists>s li. gm_get states i = Some s \<and> usable s \<and> ss_instance s = Some (Some li) \<and> a = li_addr li"
  using assms GetBackend_sound [OF assms(1)]
  by (auto simp: balance_def split: option.splits prod.splits sum.splits)

lemma decision_without_rule:
  assumes "well_keyed states" and "Dispatch lookup t1 t2 t3 states source target d = (Inr (addr, sid), d')"
    and "parse_addr (split_host source) = Some ip" and "rule_loop lookup states ip (split_host target) (d_rules d) = None"
  shows "\<exists>s li. gm_get states sid = Some s \<and> usable s \<and> ss_instance s = Some (Some li) \<and> addr = li_addr li"
proof -
  obtain q sm' where q: "sticky_route t1 t2 states (split_host source) (split_host target) (d_sticky d) = (q, sm')"
    by fastforce
  show ?thesis
  proof (cases q)
    case (Some r)
    with q assms(2-4) have "r = Inr (addr, sid)" by (simp add: Dispatch_def Let_def)
    with sticky_route_sound [of t1 t2 states _ _ _ addr sid sm'] Some q show ?thesis by blast
  next
    case None
    with q assms(2-4) have
      "balance t3 states (split_host source) (split_host target) target (d\<lparr>d_sticky := sm'\<rparr>) = (Inr (addr, sid), d')"
      by (simp add: Dispatch_def Let_def)
    from balance_sound [OF assms(1) this] show ?thesis by blast
  qed
qed

lemma dispatch_decision:
  assumes "well_keyed states"
    and "Dispatch lookup t1 t2 t3 states source target d = (Inr (addr, sid), d')"
  shows "(\<exists>p \<in> set (d_rules d). addr = ri_target (pr_route p) \<and> sid = ri_server (pr_route p)
             \<and> (\<exists>ip. parse_addr (split_host source) = Some ip
                  \<and> rule_matches lookup ip (split_host target) (pr_rule p))
             \<and> (is_virtual addr \<or> (\<exists>s. gm_get states sid = Some s \<and> usable s)))
       \<or> (\<exists>s li. gm_get states sid = Some s \<and> usable s \<and> ss_instance s = Some (Some li)
             \<and> addr = li_addr li)"
proof -
  from assms(2) obtain ip where ip: "parse_addr (split_host source) = Some ip"
    by (auto simp: Dispatch_def Let_def split: option.splits)
  show ?thesis
  proof (cases "rule_loop lookup states ip (split_host target) (d_rules d)")
    case (Some r)
    with assms(2) ip have "r = (addr, sid)"
      by (simp add: Dispatch_def Let_def)
    with rule_loop_split [OF Some] ip show ?thesis
      by (fastforce simp: route_available_def split: option.splits)
  next
    case None
    from decision_without_rule [OF assms ip None] show ?thesis by blast
  qed
qed

text \<open>
  C3. Traffic only goes where it may, and the first applicable rule wins. With the table sorted by priority: when some rule matches
  and its target is available, the decision is the target of such a rule, of the smallest priority value among them, and that is a virtual target
  or a server that is in the current state, active and up. Otherwise the decision (the sticky session's or the balancer's) is a server that is in the
  current state, active and up, with the address it is listening on.
\<close>

theorem dispatch_sound:
  assumes "well_keyed states" and "sorted (map (\<lambda>p. ru_priority (pr_rule p)) (d_rules d))"
    and "Dispatch lookup t1 t2 t3 states source target d = (Inr (addr, sid), d')"
  shows "\<exists>ip. parse_addr (split_host source) = Some ip
     \<and> (let applies = (\<lambda>p. rule_matches lookup ip (split_host target) (pr_rule p) \<and> route_available states (pr_route p)) in
        if \<exists>p \<in> set (d_rules d). applies p then
          (\<exists>p \<in> set (d_rules d). applies p \<and> addr = ri_target (pr_route p) \<and> sid = ri_server (pr_route p)
             \<and> (is_virtual addr \<or> (\<exists>s. gm_get states sid = Some s \<and> usable s))
             \<and> (\<forall>q \<in> set (d_rules d). applies q \<longrightarrow> ru_priority (pr_rule p) \<le> ru_priority (pr_rule q)))
        else \<exists>s li. gm_get states sid = Some s \<and> usable s \<and> ss_instance s = Some (Some li) \<and> addr = li_addr li)"
proof -
  from assms(3) obtain ip where ip: "parse_addr (split_host source) = Some ip"
    by (auto simp: Dispatch_def Let_def split: option.splits)
  let ?applies = "\<lambda>p. rule_matches lookup ip (split_host target) (pr_rule p) \<and> route_available states (pr_route p)"
  show ?thesis
  proof (cases "rule_loop lookup states ip (split_host target) (d_rules d)")
    case (Some r)
    then have r: "r = (addr, sid)" using assms(3) ip by (simp add: Dispatch_def Let_def)
    from rule_loop_priority [OF assms(2) Some] obtain p where p: "p \<in> set (d_rules d)" "?applies p"
      "addr = ri_target (pr_route p)" "sid = ri_server (pr_route p)"
      "\<forall>q \<in> set (d_rules d). ?applies q \<longrightarrow> ru_priority (pr_rule p) \<le> ru_priority (pr_rule q)"
      unfolding r by auto
    moreover have "is_virtual addr \<or> (\<exists>s. gm_get states sid = Some s \<and> usable s)"
      using p(2-4) by (auto simp: route_available_def split: option.splits)
    ultimately show ?thesis using ip by auto
  next
    case None
    then have "\<not> (\<exists>p \<in> set (d_rules d). ?applies p)" using rule_loop_None by blast
    with decision_without_rule [OF assms(1,3) ip None] ip show ?thesis by auto
  qed
qed

abbreviation demo_dispatcher :: dispatcher where
  "demo_dispatcher \<equiv> \<lparr>d_rules = [], d_sticky = demo_sticky, d_lb = Some LeastConnectionsBalancer\<rparr>"

lemma demo_client: "split_host ''192.168.1.10:12345'' = ''192.168.1.10''"
  "parse_addr ''192.168.1.10'' = Some (A4 [192, 168, 1, 10])"
  "split_host ''www.google.com:443'' = ''www.google.com''"
  by code_simp+

lemma demo_addr: "li_addr \<lparr>li_address = ''127.0.0.1'', li_port = 1001\<rparr> = ''127.0.0.1:1001''"
  by code_simp

lemma demo_keyed: "well_keyed demo_states"
  by (simp add: well_keyed_def demo_defs)

lemma demo_backend:
  "GetBackendForLoadBalancing LeastConnectionsBalancer demo_states
     = (Inr (''127.0.0.1:1001'', ''s1''), LeastConnectionsBalancer)"
proof -
  have "fst (lc_select () demo_states) = Inr demo_state"
    by (simp add: lc_select_def lc_candidate_def active_of_def demo_defs max_int64_def)
  then show ?thesis
    by (simp add: GetBackendForLoadBalancing_def backend_with_def demo_addr demo_state_def demo_profile_def)
qed

lemma demo_dispatch:
  "\<exists>d'. Dispatch (\<lambda>_. None) 1 1 1 demo_states ''192.168.1.10:12345'' ''www.google.com:443'' demo_dispatcher
     = (Inr (''127.0.0.1:1001'', ''s1''), d')"
  by (simp add: Dispatch_def Let_def demo_client sticky_route_def sticky_get_def balance_def demo_backend)

theorem dispatch_sound_witness:
  "(\<exists>s li. gm_get demo_states ''s1'' = Some s \<and> usable s \<and> ss_instance s = Some (Some li) \<and> ''127.0.0.1:1001'' = li_addr li)
   \<and> (\<exists>p \<in> {demo_direct}. ''DIRECT'' = ri_target (pr_route p))"
proof -
  from demo_dispatch obtain d' where
    "Dispatch (\<lambda>_. None) 1 1 1 demo_states ''192.168.1.10:12345'' ''www.google.com:443'' demo_dispatcher
     = (Inr (''127.0.0.1:1001'', ''s1''), d')" by blast
  from dispatch_sound [OF demo_keyed _ this]
  have 1: "\<exists>s li. gm_get demo_states ''s1'' = Some s \<and> usable s \<and> ss_instance s = Some (Some li) \<and> ''127.0.0.1:1001'' = li_addr li"
    by simp
  have host: "split_host ''www.baidu.com:443'' = ''www.baidu.com''" by code_simp
  have rule: "rule_loop (\<lambda>_. None) demo_states (A4 [192, 168, 1, 10]) ''www.baidu.com'' [demo_direct] = Some (''DIRECT'', ''DIRECT'')"
    by (simp add: demo_direct_match) (simp add: demo_direct_def)
  have "Dispatch (\<lambda>_. None) 1 1 1 demo_states ''192.168.1.10:12345'' ''www.baidu.com:443'' (demo_dispatcher\<lparr>d_rules := [demo_direct]\<rparr>)
     = (Inr (''DIRECT'', ''DIRECT''), demo_dispatcher\<lparr>d_rules := [demo_direct]\<rparr>)"
    by (simp add: Dispatch_def Let_def demo_client host rule del: rule_loop.simps)
  from dispatch_sound [OF demo_keyed _ this] demo_client(2)
  have "\<exists>p \<in> {demo_direct}. ''DIRECT'' = ri_target (pr_route p)"
    by (auto simp: demo_client(1) host demo_direct_match)
  with 1 show ?thesis by blast
qed

lemma sticky_route_no_error:
  assumes "\<And>k s. gm_get states k = Some s \<Longrightarrow> usable s \<Longrightarrow> \<exists>li. ss_instance s = Some (Some li)"
    and "sticky_route t1 t2 states client host sm = (Some r, sm')"
  shows "\<exists>a i. r = Inr (a, i)"
  using assms(2)
  by (fastforce simp: sticky_route_def split: if_splits option.splits prod.splits
      dest!: sticky_get_Some dest: assms(1))

lemma balance_live:
  assumes "gm_ok states" and "(k, s) \<in> set states" and "balanceable s"
    and "\<And>k s. (k, s) \<in> set states \<Longrightarrow> usable s \<Longrightarrow> \<exists>li. ss_instance s = Some (Some li)"
    and "d_lb d = Some lb"
  shows "\<exists>a i. fst (balance t3 states client host target d) = Inr (a, i)"
proof -
  from lb.backend_live [OF assms(1-3), of lb] assms(4) obtain a i where
    "fst (GetBackendForLoadBalancing lb states) = Inr (a, i)"
    by (auto simp: GetBackendForLoadBalancing_def)
  then show ?thesis
    using assms(5) by (auto simp: balance_def split: prod.splits)
qed

text \<open>
  A dispatch succeeds whenever it can: for a client with a valid IP address, if every
  usable server is listening and at least one server is balanceable, \<open>Dispatch\<close> returns a
  route, without error and without panic.
\<close>

lemma dispatch_route:
  assumes "gm_ok states" and "(k, s) \<in> set states" and "balanceable s"
    and "\<And>k s. (k, s) \<in> set states \<Longrightarrow> usable s \<Longrightarrow> \<exists>li. ss_instance s = Some (Some li)"
    and "d_lb d = Some lb"
    and "parse_addr (split_host source) = Some ip"
  shows "\<exists>addr sid. fst (Dispatch lookup t1 t2 t3 states source target d) = Inr (addr, sid)"
proof (cases "rule_loop lookup states ip (split_host target) (d_rules d)")
  case (Some r)
  with assms(6) show ?thesis
    by (cases r) (simp add: Dispatch_def Let_def)
next
  case None
  obtain q sm' where q: "sticky_route t1 t2 states (split_host source) (split_host target) (d_sticky d) = (q, sm')"
    by (cases "sticky_route t1 t2 states (split_host source) (split_host target) (d_sticky d)")
  show ?thesis
  proof (cases q)
    case (Some r)
    have "\<exists>a i. r = Inr (a, i)"
      by (rule sticky_route_no_error [OF _ q [unfolded Some]]) (auto dest: map_of_SomeD assms(4))
    with Some None q assms(6) show ?thesis
      by (auto simp: Dispatch_def Let_def)
  next
    case nostick: None
    have "\<exists>a i. fst (balance t3 states (split_host source) (split_host target) target (d\<lparr>d_sticky := sm'\<rparr>)) = Inr (a, i)"
      by (rule balance_live [OF assms(1-4)]) (simp_all add: assms(5))
    with nostick None q assms(6) show ?thesis
      by (simp add: Dispatch_def Let_def)
  qed
qed


abbreviation demo_busy :: server_states where
  "demo_busy \<equiv> [(''s2'', demo_state2\<lparr>ss_metrics := Some \<lparr>mt_active = 0, mt_latency = 1\<rparr>\<rparr>), (''s1'', demo_state)]"


subsection \<open>Matching\<close>

text \<open>
  What a domain rule covers: a pattern without a leading dot matches exactly the domain
  itself and the names below it, a pattern with a leading dot only the names below; both
  ignore case. In particular \<open>baidu.com\<close> does not match \<open>notbaidu.com\<close>.
\<close>

lemma domain_rule_semantics:
  assumes "\<not> has_prefix (to_lower pat) ''.''"
  shows "(domain_matches host pat \<longleftrightarrow>
            to_lower host = to_lower pat \<or> (\<exists>sub. to_lower host = sub @ ''.'' @ to_lower pat))
       \<and> (domain_matches host (CHR ''.'' # pat) \<longleftrightarrow> (\<exists>sub. to_lower host = sub @ ''.'' @ to_lower pat))"
proof -
  have "to_lower (CHR ''.'' # pat) = CHR ''.'' # to_lower pat"
    by (simp add: to_lower_def lower_char_def)
  then show ?thesis
    using assms by (simp add: domain_matches_def Let_def has_prefix_def has_suffix_iff)
qed

lemma domain_rule_semantics_witness:
  "domain_matches ''WWW.baidu.com'' ''baidu.com'' \<and> \<not> domain_matches ''notbaidu.com'' ''baidu.com''"
proof -
  have p: "\<not> has_prefix (to_lower ''baidu.com'') ''.''" by code_simp
  have low: "to_lower ''WWW.baidu.com'' = ''www.baidu.com''" "to_lower ''notbaidu.com'' = ''notbaidu.com''"
    "to_lower ''baidu.com'' = ''baidu.com''" by code_simp+
  have "\<not> has_suffix ''notbaidu.com'' ''.baidu.com''" by code_simp
  then have no: "\<not> (\<exists>sub. ''notbaidu.com'' = sub @ ''.'' @ ''baidu.com'')"
    by (simp add: has_suffix_iff)
  have "''www.baidu.com'' = ''www'' @ ''.'' @ ''baidu.com''" by simp
  then have yes: "\<exists>sub. ''www.baidu.com'' = sub @ ''.'' @ ''baidu.com''" by blast
  from domain_rule_semantics [OF p, of "''WWW.baidu.com''"] domain_rule_semantics [OF p, of "''notbaidu.com''"]
  show ?thesis unfolding low using yes no by simp
qed

text \<open>
  A plain address is not a prefix: a \<open>source_ip\<close> or \<open>dest_ip\<close> rule whose values hold
  no slash never matches any connection, although the rule is accepted and shown.
\<close>

lemma plain_ip_rule_never_matches:
  assumes "ru_type r = ''source_ip'' \<or> ru_type r = ''dest_ip''"
    and "\<forall>v \<in> set (ru_value r). CHR ''/'' \<notin> set v"
  shows "\<not> rule_matches lookup client host r"
proof -
  have "\<not> list_ex (cidr_matches ip) (ru_value r)" for ip
    using assms(2) by (auto simp: list_ex_iff cidr_matches_def parse_prefix_no_slash)
  then show ?thesis
    using assms(1) by (auto simp: rule_matches_def Let_def)
qed

lemma plain_ip_rule_never_matches_witness:
  "\<not> rule_matches (\<lambda>_. None) (A4 [192, 148, 3, 3]) ''www.google.com''
       \<lparr>ru_priority = 1, ru_type = ''source_ip'', ru_value = [''192.148.3.3''], ru_target = ''cloudflare''\<rparr>"
  by (rule plain_ip_rule_never_matches) simp_all

subsection \<open>Hot reload\<close>

text \<open>
  Hot reload of the balancer: a gateway update keeps working when the new strategy is of
  the kind already running, and panics otherwise, because the two kinds are different concrete
  types for \<open>atomic.Value\<close>. In both cases the sticky manager has been replaced before.
\<close>

lemma gateway_update_balancer:
  assumes "d_lb d = Some old"
    and "OnSettingsUpdate srt re states ''gateway'' (SVGateway cfg) d = (r, oldsm, d')"
  shows "(r = Inr () \<longleftrightarrow> same_type old (balancer_for (gs_lb cfg)))
       \<and> (\<not> same_type old (balancer_for (gs_lb cfg)) \<longrightarrow>
            r = Inl (Panic ''sync/atomic: store of inconsistently typed value into Value'') \<and> d_lb d' = Some old)
       \<and> (same_type old (balancer_for (gs_lb cfg)) \<longrightarrow> d_lb d' = Some (balancer_for (gs_lb cfg)))
       \<and> d_sticky d' = sticky_start (NewStickyManager re (Some cfg)) \<and> d_rules d' = d_rules d"
  using assms
  by (auto simp: OnSettingsUpdate_def updateLoadBalancer_def Let_def split: if_splits)

lemma gateway_update_balancer_witness:
  "fst (OnSettingsUpdate id (\<lambda>_. None) [] ''gateway''
      (SVGateway \<lparr>gs_mode = ''global'', gs_ttl = 5, gs_rules = [], gs_lb = ''round_robin''\<rparr>) demo_dispatcher)
   = Inl (Panic ''sync/atomic: store of inconsistently typed value into Value'')"
proof -
  let ?cfg = "\<lparr>gs_mode = ''global'', gs_ttl = 5, gs_rules = [], gs_lb = ''round_robin''\<rparr>"
  obtain r oldsm d' where u: "OnSettingsUpdate id (\<lambda>_. None) [] ''gateway'' (SVGateway ?cfg) demo_dispatcher = (r, oldsm, d')"
    by (cases "OnSettingsUpdate id (\<lambda>_. None) [] ''gateway'' (SVGateway ?cfg) demo_dispatcher")
  have "\<not> same_type LeastConnectionsBalancer (balancer_for (gs_lb ?cfg))"
    by (simp add: balancer_for_def)
  with gateway_update_balancer [OF _ u, of LeastConnectionsBalancer] u show ?thesis by simp
qed

text \<open>A panic ends the process, so the sequence stops there.\<close>

fun reloads ::
  "(string \<Rightarrow> (string \<Rightarrow> bool) option) \<Rightarrow> gateway_settings list \<Rightarrow> dispatcher \<Rightarrow> sticky_manager list \<times> dispatcher" where
  "reloads re [] d = ([], d)"
| "reloads re (g # gs) d =
     (case OnSettingsUpdate id re [] ''gateway'' (SVGateway g) d of
        (Inl _, old, d') \<Rightarrow> ([old], d')
      | (Inr _, old, d') \<Rightarrow> (let (olds, d'') = reloads re gs d' in (old # olds, d'')))"

definition one_goroutine :: "sticky_manager \<Rightarrow> bool" where
  "one_goroutine sm \<longleftrightarrow> sticky_live sm = (if sticky_off sm then 0 else 1)"

lemma fresh_one_goroutine: "one_goroutine (sticky_start (NewStickyManager re cfg))"
  by (simp add: one_goroutine_def sticky_start_def sticky_live_def sticky_off_def NewStickyManager_def Let_def)

lemma stop_one_goroutine: "one_goroutine sm \<Longrightarrow> sticky_live (sticky_stop sm) = 0"
  by (auto simp: one_goroutine_def sticky_stop_def sticky_live_def split: if_splits)

text \<open>
  Hot reload leaks no goroutine: after any sequence of gateway updates on a started
  dispatcher, the managers that were replaced have no clean-up goroutine left, and the current
  one has exactly one if sessions can be sticky and none otherwise.
\<close>

lemma reload_no_leak:
  assumes "one_goroutine (d_sticky d)" and "reloads re gs d = (olds, d')"
  shows "(\<forall>sm \<in> set olds. sticky_live sm = 0) \<and> one_goroutine (d_sticky d')"
  using assms
proof (induction gs arbitrary: d olds d')
  case Nil
  then show ?case by simp
next
  case (Cons g gs)
  obtain r old d1 where u: "OnSettingsUpdate id re [] ''gateway'' (SVGateway g) d = (r, old, d1)"
    by (cases "OnSettingsUpdate id re [] ''gateway'' (SVGateway g) d")
  have old: "old = sticky_stop (d_sticky d)" and d1: "d_sticky d1 = sticky_start (NewStickyManager re (Some g))"
    using u by (auto simp: OnSettingsUpdate_def updateLoadBalancer_def Let_def split: option.splits if_splits)
  have one: "one_goroutine (d_sticky d1)"
    by (simp add: d1 fresh_one_goroutine)
  have dead: "sticky_live old = 0"
    using stop_one_goroutine [OF Cons.prems(1)] by (simp add: old)
  show ?case
  proof (cases r)
    case (Inl e)
    with Cons.prems(2) u one dead show ?thesis by auto
  next
    case (Inr x)
    with Cons.prems(2) u obtain olds' where "reloads re gs d1 = (olds', d')" and "olds = old # olds'"
      by (auto split: prod.splits)
    with Cons.IH [OF one] dead show ?thesis by simp
  qed
qed

lemma reload_no_leak_witness:
  "one_goroutine (d_sticky (snd (reloads (\<lambda>_. None)
     [\<lparr>gs_mode = ''global'', gs_ttl = 5, gs_rules = [], gs_lb = ''''\<rparr>,
      \<lparr>gs_mode = ''disabled'', gs_ttl = 5, gs_rules = [], gs_lb = ''''\<rparr>]
     (dispatcher_start (NewDispatcher (\<lambda>_. None) default_gateway)))))"
proof -
  have "one_goroutine (d_sticky (dispatcher_start (NewDispatcher (\<lambda>_. None) default_gateway)))"
    by (simp add: dispatcher_start_def NewDispatcher_def updateLoadBalancer_def Let_def fresh_one_goroutine)
  from reload_no_leak [OF this surjective_pairing] show ?thesis by blast
qed

end
