(* ===== verification/Settings.thy ===== *)
theory Settings
  imports Types
begin

section \<open>The settings manager (internal/shared/settings/manager.go)\<close>

text \<open>
  Run-time settings, their persistence and their publication. The modules live behind
  pointers, and \<open>deepCopy\<close> copies only the gateway module, so the pointers are kept: a
  \<open>settings_heap\<close> maps addresses to module structs and \<open>runtime_settings\<close> holds addresses.

  The JSON text of an update is represented by what \<open>json.Unmarshal\<close> makes of it:
  \<open>JMalformed\<close> is text that is not valid JSON (refused before anything is written), and
  \<open>JObject f\<close> an object with the fields that are present; \<open>jf_badtype\<close> says that some field
  has a value of the wrong type, in which case \<open>json.Unmarshal\<close> still stores the other
  fields and then returns an error. The elements of \<open>rules\<close> carry all their keys.
\<close>

subsection \<open>State\<close>

record settings_heap =
  sh_gw :: "nat \<Rightarrow> gateway_settings"
  sh_rt :: "nat \<Rightarrow> routing_settings"
  sh_next :: nat

record runtime_settings =
  rs_gateway :: nat
  rs_routing :: nat

text \<open>The contents of \<open>settings.json\<close>: a missing module is a nil pointer after parsing.\<close>

record settings_doc =
  sd_gateway :: "gateway_settings option"
  sd_routing :: "routing_settings option"

datatype settings_file = FAbsent | FUnreadable goerr | FGarbage | FDoc settings_doc

text \<open>The result of \<open>os.WriteFile\<close>; a failed write leaves the file in some state.\<close>

datatype write_result = WriteOk | WriteFail goerr settings_file

datatype module_ref = MGateway nat | MRouting nat | MLogging

record settings_manager =
  sm_heap :: settings_heap
  sm_settings :: runtime_settings
  sm_file :: settings_file
  sm_subs :: "string \<Rightarrow> nat list"
  sm_pending :: "(string \<times> module_ref) list"

record json_fields =
  jf_mode :: "string option"
  jf_ttl :: "int option"
  jf_sticky :: "string list option"
  jf_lb :: "string option"
  jf_rules :: "rule list option"
  jf_badtype :: bool

datatype json_msg = JMalformed | JObject json_fields

subsection \<open>Operations\<close>

definition doc_of :: "settings_heap \<Rightarrow> runtime_settings \<Rightarrow> settings_doc" where
  "doc_of h s = \<lparr>sd_gateway = Some (sh_gw h (rs_gateway s)), sd_routing = Some (sh_rt h (rs_routing s))\<rparr>"

definition persist :: "write_result \<Rightarrow> settings_doc \<Rightarrow> settings_file \<Rightarrow> unit res \<times> settings_file" where
  "persist w d f = (case w of WriteOk \<Rightarrow> (Inr (), FDoc d) | WriteFail e f' \<Rightarrow> (Inl e, f'))"

text \<open>\<open>ensureDefaultModules\<close>: a nil module becomes its zero value.\<close>

definition ensure_defaults :: "settings_doc \<Rightarrow> gateway_settings \<times> routing_settings" where
  "ensure_defaults d =
     ((case sd_gateway d of None \<Rightarrow> zero_gateway | Some g \<Rightarrow> g),
      (case sd_routing d of None \<Rightarrow> default_routing | Some r \<Rightarrow> r))"

definition fresh_manager :: "gateway_settings \<Rightarrow> routing_settings \<Rightarrow> settings_file \<Rightarrow> settings_manager" where
  "fresh_manager g r f =
     \<lparr>sm_heap = \<lparr>sh_gw = (\<lambda>_. g), sh_rt = (\<lambda>_. r), sh_next = 1\<rparr>,
      sm_settings = \<lparr>rs_gateway = 0, rs_routing = 0\<rparr>, sm_file = f, sm_subs = (\<lambda>_. []), sm_pending = []\<rparr>"

text \<open>\<open>NewSettingsManager\<close> with \<open>load\<close>; \<open>w\<close> is the result of writing the default file.\<close>

definition NewSettingsManager :: "write_result \<Rightarrow> settings_file \<Rightarrow> settings_manager res" where
  "NewSettingsManager w f =
     wrap_err ''failed to load initial settings''
     (case f of
        FAbsent \<Rightarrow>
          (case persist w \<lparr>sd_gateway = Some default_gateway, sd_routing = Some default_routing\<rparr> f of
             (Inl e, _) \<Rightarrow> Inl (Wrap ''failed to write default settings file'' e)
           | (Inr _, f') \<Rightarrow> Inr (fresh_manager default_gateway default_routing f'))
      | FUnreadable e \<Rightarrow> Inl (Wrap ''failed to read settings file'' e)
      | FGarbage \<Rightarrow> Inl (Wrap ''failed to parse settings.json'' (Msg ''invalid JSON''))
      | FDoc d \<Rightarrow> (let (g, r) = ensure_defaults d in Inr (fresh_manager g r f)))"

definition Register :: "string \<Rightarrow> nat \<Rightarrow> settings_manager \<Rightarrow> settings_manager" where
  "Register key sub m = m\<lparr>sm_subs := (sm_subs m)(key := sm_subs m key @ [sub])\<rparr>"

text \<open>What \<open>Get()\<close> shows to a reader that follows the pointers now.\<close>

definition settings_view :: "settings_manager \<Rightarrow> gateway_settings \<times> routing_settings" where
  "settings_view m = (sh_gw (sm_heap m) (rs_gateway (sm_settings m)), sh_rt (sm_heap m) (rs_routing (sm_settings m)))"

definition deepCopy :: "settings_heap \<Rightarrow> runtime_settings \<Rightarrow> settings_heap \<times> runtime_settings" where
  "deepCopy h s =
     (h\<lparr>sh_gw := (sh_gw h)(sh_next h := sh_gw h (rs_gateway s)), sh_next := Suc (sh_next h)\<rparr>,
      s\<lparr>rs_gateway := sh_next h\<rparr>)"

definition getModuleByKey :: "runtime_settings \<Rightarrow> string \<Rightarrow> module_ref option" where
  "getModuleByKey s key =
     (if key = ''gateway'' then Some (MGateway (rs_gateway s))
      else if key = ''routing'' then Some (MRouting (rs_routing s))
      else if key = ''logging'' then Some MLogging
      else None)"

definition unmarshal_gateway :: "json_fields \<Rightarrow> gateway_settings \<Rightarrow> gateway_settings" where
  "unmarshal_gateway f g =
     \<lparr>gs_mode = (case jf_mode f of None \<Rightarrow> gs_mode g | Some v \<Rightarrow> v),
      gs_ttl = (case jf_ttl f of None \<Rightarrow> gs_ttl g | Some v \<Rightarrow> v),
      gs_rules = (case jf_sticky f of None \<Rightarrow> gs_rules g | Some v \<Rightarrow> v),
      gs_lb = (case jf_lb f of None \<Rightarrow> gs_lb g | Some v \<Rightarrow> v)\<rparr>"

definition unmarshal_routing :: "json_fields \<Rightarrow> routing_settings \<Rightarrow> routing_settings" where
  "unmarshal_routing f r = (case jf_rules f of None \<Rightarrow> r | Some rs \<Rightarrow> r\<lparr>rt_rules := rs\<rparr>)"

fun unmarshal_into :: "json_fields \<Rightarrow> module_ref \<Rightarrow> settings_heap \<Rightarrow> settings_heap" where
  "unmarshal_into f (MGateway a) h = h\<lparr>sh_gw := (sh_gw h)(a := unmarshal_gateway f (sh_gw h a))\<rparr>"
| "unmarshal_into f (MRouting a) h = h\<lparr>sh_rt := (sh_rt h)(a := unmarshal_routing f (sh_rt h a))\<rparr>"
| "unmarshal_into f MLogging h = h"

definition settings_update ::
  "write_result \<Rightarrow> string \<Rightarrow> json_msg \<Rightarrow> settings_manager \<Rightarrow> unit res \<times> settings_manager" where
  "settings_update w key msg m =
     (let (h, new) = deepCopy (sm_heap m) (sm_settings m) in
      case getModuleByKey new key of
        None \<Rightarrow> (Inl (Msg (''unknown settings module: '' @ key)), m)
      | Some ref \<Rightarrow>
          (case msg of
             JMalformed \<Rightarrow>
               (Inl (Wrap (''failed to parse JSON for module '' @ key) (Msg ''invalid JSON'')), m)
           | JObject f \<Rightarrow>
               (let h' = unmarshal_into f ref h in
                if jf_badtype f then
                  (Inl (Wrap (''failed to parse JSON for module '' @ key) (Msg ''wrong type'')), m\<lparr>sm_heap := h'\<rparr>)
                else case persist w (doc_of h' new) (sm_file m) of
                  (Inl e, file') \<Rightarrow>
                    (Inl (Wrap ''failed to save updated settings to disk'' e), m\<lparr>sm_heap := h', sm_file := file'\<rparr>)
                | (Inr _, file') \<Rightarrow>
                    (Inr (), m\<lparr>sm_heap := h', sm_settings := new, sm_file := file',
                               sm_pending := sm_pending m @ [(key, ref)]\<rparr>))))"

fun deref_module :: "settings_heap \<Rightarrow> module_ref \<Rightarrow> settings_value" where
  "deref_module h (MGateway a) = SVGateway (sh_gw h a)"
| "deref_module h (MRouting a) = SVRouting (sh_rt h a)"
| "deref_module h MLogging = SVLogging"

text \<open>
  \<open>notify\<close> calls the subscribers in order. An error is logged and the loop goes on; a panic
  of a subscriber ends the goroutine, and with it the process.
\<close>

fun notify_loop ::
  "(nat \<Rightarrow> string \<Rightarrow> settings_value \<Rightarrow> 's \<Rightarrow> unit res \<times> 's) \<Rightarrow> string \<Rightarrow> settings_value \<Rightarrow> nat list \<Rightarrow> 's \<Rightarrow> unit res \<times> 's" where
  "notify_loop call key v [] st = (Inr (), st)"
| "notify_loop call key v (sub # subs) st =
     (case call sub key v st of
        (Inl (Panic p), st') \<Rightarrow> (Inl (Panic p), st')
      | (_, st') \<Rightarrow> notify_loop call key v subs st')"

definition notify ::
  "(nat \<Rightarrow> string \<Rightarrow> settings_value \<Rightarrow> 's \<Rightarrow> unit res \<times> 's) \<Rightarrow> settings_manager \<Rightarrow> string \<times> module_ref \<Rightarrow> 's \<Rightarrow> unit res \<times> 's" where
  "notify call m p st =
     notify_loop call (fst p) (deref_module (sm_heap m) (snd p)) (sm_subs m (fst p)) st"

subsection \<open>Invariant\<close>

text \<open>The addresses in use are allocated, so a copy never lands on a live module.\<close>

definition settings_ok :: "settings_manager \<Rightarrow> bool" where
  "settings_ok m \<longleftrightarrow> rs_gateway (sm_settings m) < sh_next (sm_heap m)"

lemma new_manager_ok: "NewSettingsManager w f = Inr m \<Longrightarrow> settings_ok m"
  by (auto simp: NewSettingsManager_def fresh_manager_def settings_ok_def
      split: settings_file.splits prod.splits sum.splits)

lemma unmarshal_next [simp]: "sh_next (unmarshal_into f r h) = sh_next h"
  by (cases r) auto

lemma update_ok: "settings_ok m \<Longrightarrow> settings_ok (snd (settings_update w key msg m))"
  by (auto simp: settings_update_def deepCopy_def settings_ok_def Let_def
      split: option.splits json_msg.splits prod.splits sum.splits)

lemmas update_unfold = settings_update_def deepCopy_def getModuleByKey_def persist_def Let_def

subsection \<open>Properties\<close>

text \<open>
  A successful update does what it says: the addressed module has the fields that were
  sent and keeps the others, the other module is unchanged, the file holds exactly the new
  settings, and the subscribers of that module, and only they, are about to be notified.
\<close>

lemma settings_update_success:
  assumes "settings_ok m" and "settings_update w key (JObject f) m = (Inr (), m')"
  shows "settings_view m' =
           ((if key = ''gateway'' then unmarshal_gateway f (fst (settings_view m)) else fst (settings_view m)),
            (if key = ''routing'' then unmarshal_routing f (snd (settings_view m)) else snd (settings_view m)))
       \<and> sm_file m' = FDoc \<lparr>sd_gateway = Some (fst (settings_view m')), sd_routing = Some (snd (settings_view m'))\<rparr>
       \<and> (\<exists>ref. sm_pending m' = sm_pending m @ [(key, ref)]
            \<and> (key = ''gateway'' \<longrightarrow> deref_module (sm_heap m') ref = SVGateway (fst (settings_view m')))
            \<and> (key = ''routing'' \<longrightarrow> deref_module (sm_heap m') ref = SVRouting (snd (settings_view m'))))"
  using assms
  by (auto simp: update_unfold settings_view_def settings_ok_def doc_of_def
      split: if_splits write_result.splits)

definition demo_settings :: settings_manager where
  "demo_settings = fresh_manager default_gateway default_routing FAbsent"

definition demo_fields :: json_fields where
  "demo_fields = \<lparr>jf_mode = Some ''global'', jf_ttl = None, jf_sticky = None, jf_lb = None,
     jf_rules = Some [\<lparr>ru_priority = 1, ru_type = ''domain'', ru_value = [''a.com''], ru_target = ''DIRECT''\<rparr>],
     jf_badtype = False\<rparr>"

lemma demo_settings_ok: "settings_ok demo_settings"
  by (simp add: demo_settings_def fresh_manager_def settings_ok_def)

lemma settings_update_success_witness:
  "\<exists>m'. settings_update WriteOk ''gateway'' (JObject demo_fields) demo_settings = (Inr (), m')
      \<and> gs_mode (fst (settings_view m')) = ''global'' \<and> gs_ttl (fst (settings_view m')) = 300"
proof -
  have "fst (settings_update WriteOk ''gateway'' (JObject demo_fields) demo_settings) = Inr ()"
    by (simp add: update_unfold demo_fields_def)
  then obtain m' where u: "settings_update WriteOk ''gateway'' (JObject demo_fields) demo_settings = (Inr (), m')"
    by (cases "settings_update WriteOk ''gateway'' (JObject demo_fields) demo_settings") auto
  from settings_update_success [OF demo_settings_ok u] u show ?thesis
    by (simp add: unmarshal_gateway_def demo_fields_def demo_settings_def fresh_manager_def
        settings_view_def default_gateway_def)
qed

text \<open>
  A rejected update of the gateway, logging or an unknown module is atomic: whatever the
  reason (unknown key, bad JSON, wrong type, failed write), readers keep seeing the settings
  they saw before and nobody is notified.
\<close>

lemma failed_update_atomic:
  assumes "settings_ok m" and "key \<noteq> ''routing''"
    and "settings_update w key msg m = (Inl e, m')"
  shows "settings_view m' = settings_view m \<and> sm_settings m' = sm_settings m
       \<and> sm_pending m' = sm_pending m"
  using assms
  by (auto simp: update_unfold settings_view_def settings_ok_def
      split: if_splits json_msg.splits write_result.splits)

lemma failed_update_atomic_witness:
  "settings_view (snd (settings_update (WriteFail (OSErr ''disk full'') FAbsent) ''gateway'' (JObject demo_fields) demo_settings))
   = settings_view demo_settings"
proof -
  let ?u = "settings_update (WriteFail (OSErr ''disk full'') FAbsent) ''gateway'' (JObject demo_fields) demo_settings"
  have "fst ?u = Inl (Wrap ''failed to save updated settings to disk'' (OSErr ''disk full''))"
    by (simp add: update_unfold demo_fields_def)
  then obtain m' where "?u = (Inl (Wrap ''failed to save updated settings to disk'' (OSErr ''disk full'')), m')"
    by (cases ?u) auto
  from failed_update_atomic [OF demo_settings_ok _ this] this show ?thesis by simp
qed

text \<open>
  A rejected update of the routing module is not atomic: \<open>deepCopy\<close> shares the routing
  module with the published settings, so when the write fails or a field has the wrong type,
  the error is returned but readers already see the new rules, and no subscriber is told.
\<close>

lemma failed_routing_update_leaks:
  assumes "jf_rules f = Some rs" and "jf_badtype f \<or> w = WriteFail e file'"
  shows "(\<exists>err. fst (settings_update w ''routing'' (JObject f) m) = Inl err)
       \<and> rt_rules (snd (settings_view (snd (settings_update w ''routing'' (JObject f) m)))) = rs
       \<and> sm_pending (snd (settings_update w ''routing'' (JObject f) m)) = sm_pending m"
  using assms
  by (auto simp: update_unfold settings_view_def unmarshal_routing_def)

lemma failed_routing_update_leaks_witness:
  "rt_rules (snd (settings_view demo_settings)) = []
   \<and> rt_rules (snd (settings_view (snd (settings_update (WriteFail (OSErr ''disk full'') FAbsent) ''routing''
        (JObject demo_fields) demo_settings)))) \<noteq> []"
  using failed_routing_update_leaks [of demo_fields _ "WriteFail (OSErr ''disk full'') FAbsent"
      "OSErr ''disk full''" FAbsent demo_settings]
  by (simp add: demo_fields_def demo_settings_def fresh_manager_def settings_view_def default_routing_def)



end
