(* ===== verification/Protocol.thy ===== *)
theory Protocol
  imports Prelude GoNet
begin

section \<open>The tunnel protocol (internal/shared/protocol, internal/shared/securecrypt)\<close>

text \<open>
  Packets, their framing on a byte stream and the encrypted framing on top of it. The AEAD
  constructions (\<open>crypto/aes\<close>, \<open>crypto/cipher\<close>, \<open>x/crypto/chacha20poly1305\<close>) and SHA-256 are
  parameters: an \<open>aead\<close> record holds the nonce size, \<open>Seal\<close> and \<open>Open\<close>, and \<open>aead_ok\<close> states
  what \<open>cipher.AEAD\<close> documents of them. The locale \<open>frame_codec\<close> is the interface between a
  framing and the loops that read one packet after the other from a stream.
\<close>

subsection \<open>protocol.go\<close>

definition FlagControlNewStreamTCP :: byte where "FlagControlNewStreamTCP = 0x01"
definition FlagControlNewStreamTCPSuccess :: byte where "FlagControlNewStreamTCPSuccess = 0x02"
definition FlagTCPData :: byte where "FlagTCPData = 0x03"
definition FlagUDPData :: byte where "FlagUDPData = 0x04"
definition FlagControlCloseStream :: byte where "FlagControlCloseStream = 0x05"

lemmas flag_defs = FlagControlNewStreamTCP_def FlagControlNewStreamTCPSuccess_def FlagTCPData_def
  FlagUDPData_def FlagControlCloseStream_def

record packet =
  pk_stream :: "16 word"
  pk_flag :: byte
  pk_payload :: bytes

text \<open>
  \<open>WritePacket\<close>: the bytes handed to \<open>writer.Write\<close>, or the refusal; \<open>wr\<close> is the error the
  writer returns, if any, and \<open>out\<close> what was written to it before.
\<close>

definition packet_bytes :: "packet \<Rightarrow> bytes res" where
  "packet_bytes p =
     (let n = 2 + 1 + length (pk_payload p) in
      if n > 65535 then Inl (Msg (''packet payload is too large: '' @ itoa (int (length (pk_payload p)))))
      else Inr (put16 (word_of_nat n) @ put16 (pk_stream p) @ [pk_flag p] @ pk_payload p))"

definition WritePacket :: "goerr option \<Rightarrow> packet \<Rightarrow> bytes \<Rightarrow> bytes res" where
  "WritePacket wr p out =
     and_then (packet_bytes p) (\<lambda>b. case wr of None \<Rightarrow> Inr (out @ b) | Some e \<Rightarrow> Inl e)"

text \<open>The part \<open>ReadPacket\<close> and \<open>ReadUnsecurePacket\<close> share; they differ in their messages.\<close>

definition read_packet_msg :: "string \<Rightarrow> stream \<Rightarrow> (packet \<times> stream) res" where
  "read_packet_msg kind s =
     (case read_full 2 s of
        Inl e \<Rightarrow> Inl (if e = EOF \<or> e = UnexpectedEOF then EOF
                      else Wrap (''failed to read '' @ kind @ ''packet length'') e)
      | Inr (l, s1) \<Rightarrow>
          (let n = unat (get16 (l ! 0) (l ! 1)) in
           if n < 3 then Inl (Msg (''received invalid '' @ kind @ ''packet with content length < 3''))
           else case read_full n s1 of
             Inl e \<Rightarrow> Inl (Wrap (''failed to read '' @ kind @ ''packet content (expected '' @ itoa (int n) @ '' bytes)'') e)
           | Inr (data, s2) \<Rightarrow>
               Inr (\<lparr>pk_stream = get16 (data ! 0) (data ! 1), pk_flag = data ! 2, pk_payload = drop 3 data\<rparr>, s2)))"

definition ReadPacket :: "stream \<Rightarrow> (packet \<times> stream) res" where
  "ReadPacket s = read_packet_msg '''' s"

definition ReadUnsecurePacket :: "stream \<Rightarrow> (packet \<times> stream) res" where
  "ReadUnsecurePacket s = read_packet_msg ''unsecure '' s"

subsection \<open>securecrypt\<close>

record aead =
  ae_nonce_size :: nat
  ae_seal :: "bytes \<Rightarrow> bytes \<Rightarrow> bytes"
  ae_open :: "bytes \<Rightarrow> bytes \<Rightarrow> bytes option"

text \<open>\<open>rnd\<close> is what reading the nonce from \<open>rand.Reader\<close> gives.\<close>

definition Encrypt :: "aead \<Rightarrow> bytes res \<Rightarrow> bytes \<Rightarrow> bytes res" where
  "Encrypt c rnd pt =
     and_then (wrap_err ''failed to generate nonce'' rnd) (\<lambda>nonce. Inr (nonce @ ae_seal c nonce pt))"

definition Decrypt :: "aead \<Rightarrow> bytes \<Rightarrow> bytes res" where
  "Decrypt c ct =
     (let n = ae_nonce_size c in
      if length ct < n then Inl (Msg ''ciphertext is too short'')
      else case ae_open c (take n ct) (drop n ct) of
        None \<Rightarrow> Inl (Wrap ''decryption failed'' (Msg ''message authentication failed''))
      | Some pt \<Rightarrow> Inr pt)"

datatype algorithm = CHACHA20_POLY1305 | AES_256_GCM | OtherAlgo string

text \<open>\<open>aesNew\<close>, \<open>newGCM\<close> and \<open>newX\<close> stand for \<open>aes.NewCipher\<close>, \<open>cipher.NewGCM\<close> and
  \<open>chacha20poly1305.NewX\<close>.\<close>

definition newAESGCMAEAD :: "(bytes \<Rightarrow> 'b res) \<Rightarrow> ('b \<Rightarrow> aead res) \<Rightarrow> bytes \<Rightarrow> aead res" where
  "newAESGCMAEAD aesNew newGCM key =
     and_then (wrap_err ''failed to create AES block cipher'' (aesNew key))
       (\<lambda>block. wrap_err ''failed to create AES-GCM instance'' (newGCM block))"

definition newChaCha20AEAD :: "(bytes \<Rightarrow> aead res) \<Rightarrow> bytes \<Rightarrow> aead res" where
  "newChaCha20AEAD newX key = wrap_err ''failed to create XChaCha20-Poly1305 instance'' (newX key)"

definition NewCipherWithAlgo ::
  "(bytes \<Rightarrow> bytes) \<Rightarrow> (bytes \<Rightarrow> 'b res) \<Rightarrow> ('b \<Rightarrow> aead res) \<Rightarrow> (bytes \<Rightarrow> aead res) \<Rightarrow> int \<Rightarrow> algorithm \<Rightarrow> aead res" where
  "NewCipherWithAlgo sha256 aesNew newGCM newX key algo =
     (let finalKey = sha256 (bytes_of (''liuproxy-secure-v2-key-'' @ itoa key)) in
      case algo of
        AES_256_GCM \<Rightarrow> newAESGCMAEAD aesNew newGCM finalKey
      | _ \<Rightarrow> newChaCha20AEAD newX finalKey)"

definition NewCipher ::
  "(bytes \<Rightarrow> bytes) \<Rightarrow> (bytes \<Rightarrow> 'b res) \<Rightarrow> ('b \<Rightarrow> aead res) \<Rightarrow> (bytes \<Rightarrow> aead res) \<Rightarrow> int \<Rightarrow> aead res" where
  "NewCipher sha256 aesNew newGCM newX key = NewCipherWithAlgo sha256 aesNew newGCM newX key CHACHA20_POLY1305"

text \<open>What \<open>cipher.AEAD\<close> documents: \<open>Open\<close> inverts \<open>Seal\<close> under the same nonce, and the sealed
  message is longer than the plaintext by a fixed overhead.\<close>

definition aead_ok :: "nat \<Rightarrow> aead \<Rightarrow> bool" where
  "aead_ok overhead c \<longleftrightarrow>
     (\<forall>nonce pt. length nonce = ae_nonce_size c \<longrightarrow>
        ae_open c nonce (ae_seal c nonce pt) = Some pt \<and> length (ae_seal c nonce pt) = length pt + overhead)"

subsection \<open>secure_io.go\<close>

definition secure_err :: "string \<Rightarrow> goerr \<Rightarrow> goerr" where
  "secure_err op e = Wrap (''secure_io: operation '' @ [CHR 0x27] @ op @ [CHR 0x27] @ '' failed'') e"

text \<open>The payload is encrypted in place, so the caller's packet changes too.\<close>

definition WriteSecurePacket ::
  "aead \<Rightarrow> bytes res \<Rightarrow> goerr option \<Rightarrow> packet \<Rightarrow> bytes \<Rightarrow> (packet \<times> bytes) res" where
  "WriteSecurePacket c rnd wr p out =
     and_then
       (if length (pk_payload p) > 0
        then (case Encrypt c rnd (pk_payload p) of
                Inl e \<Rightarrow> Inl (secure_err ''encrypt'' e)
              | Inr ct \<Rightarrow> Inr (p\<lparr>pk_payload := ct\<rparr>))
        else Inr p)
       (\<lambda>p'. case WritePacket wr p' out of
               Inl e \<Rightarrow> Inl (secure_err ''write'' e)
             | Inr out' \<Rightarrow> Inr (p', out'))"

definition ReadSecurePacket :: "aead \<Rightarrow> stream \<Rightarrow> (packet \<times> stream) res" where
  "ReadSecurePacket c s =
     (case ReadPacket s of
        Inl e \<Rightarrow> Inl (if e = EOF then EOF else secure_err ''read'' e)
      | Inr (p, s') \<Rightarrow>
          if length (pk_payload p) > 0
          then (case Decrypt c (pk_payload p) of
                  Inl e \<Rightarrow> Inl (secure_err ''decrypt'' e)
                | Inr pt \<Rightarrow> Inr (p\<lparr>pk_payload := pt\<rparr>, s'))
          else Inr (p, s'))"

subsection \<open>Framings and the streams read through them\<close>

fun encode_all :: "('x \<Rightarrow> bytes res) \<Rightarrow> 'x list \<Rightarrow> bytes res" where
  "encode_all enc [] = Inr []"
| "encode_all enc (x # xs) = and_then (enc x) (\<lambda>b. and_then (encode_all enc xs) (\<lambda>bs. Inr (b @ bs)))"

fun decode_n :: "(stream \<Rightarrow> ('a \<times> stream) res) \<Rightarrow> nat \<Rightarrow> stream \<Rightarrow> ('a list \<times> stream) res" where
  "decode_n dec 0 s = Inr ([], s)"
| "decode_n dec (Suc n) s =
     and_then (dec s) (\<lambda>(x, s'). and_then (decode_n dec n s') (\<lambda>(xs, s''). Inr (x # xs, s'')))"

locale frame_codec =
  fixes enc :: "'x \<Rightarrow> bytes res"
    and dec :: "stream \<Rightarrow> ('a \<times> stream) res"
    and val :: "'x \<Rightarrow> 'a"
    and good :: "'x \<Rightarrow> bool"
  assumes dec_enc: "good x \<Longrightarrow> enc x = Inr b \<Longrightarrow> dec \<lparr>sdata = b @ rest, sfin = e\<rparr> = Inr (val x, \<lparr>sdata = rest, sfin = e\<rparr>)"
    and dec_end: "dec \<lparr>sdata = [], sfin = EOF\<rparr> = Inl EOF"
    and dec_cut: "good x \<Longrightarrow> enc x = Inr b \<Longrightarrow> k < length b \<Longrightarrow> \<exists>err. dec \<lparr>sdata = take k b, sfin = e\<rparr> = Inl err"
begin

lemma decode_encoded:
  "list_all good xs \<Longrightarrow> encode_all enc xs = Inr b \<Longrightarrow>
     decode_n dec (length xs) \<lparr>sdata = b @ rest, sfin = e\<rparr> = Inr (map val xs, \<lparr>sdata = rest, sfin = e\<rparr>)"
  by (induction xs arbitrary: b) (auto simp: dec_enc)

lemma stream_roundtrip:
  assumes "list_all good xs" and "encode_all enc xs = Inr b"
  shows "decode_n dec (length xs) \<lparr>sdata = b, sfin = EOF\<rparr> = Inr (map val xs, \<lparr>sdata = [], sfin = EOF\<rparr>)
       \<and> dec \<lparr>sdata = [], sfin = EOF\<rparr> = Inl EOF"
  using decode_encoded [OF assms, of "[]" EOF] dec_end by simp

lemma stream_cut:
  "list_all good xs \<Longrightarrow> encode_all enc xs = Inr b \<Longrightarrow> k < length b \<Longrightarrow>
     \<exists>m < length xs. \<exists>s err. decode_n dec m \<lparr>sdata = take k b, sfin = e\<rparr> = Inr (map val (take m xs), s) \<and> dec s = Inl err"
proof (induction xs arbitrary: b k)
  case Nil
  then show ?case by simp
next
  case (Cons x xs)
  then obtain b1 b2 where b: "enc x = Inr b1" "encode_all enc xs = Inr b2" "b = b1 @ b2"
    by (auto simp: and_then_Inr_iff)
  show ?case
  proof (cases "k < length b1")
    case True
    with Cons.prems b dec_cut [of x b1 k e] show ?thesis
      by (intro exI [of _ 0]) auto
  next
    case False
    with Cons.prems b have "list_all good xs" "k - length b1 < length b2" by simp_all
    from Cons.IH [OF this(1) b(2) this(2)] obtain m s err
      where m: "m < length xs" "decode_n dec m \<lparr>sdata = take (k - length b1) b2, sfin = e\<rparr> = Inr (map val (take m xs), s)"
        "dec s = Inl err" by blast
    have "dec \<lparr>sdata = take k b, sfin = e\<rparr> = Inr (val x, \<lparr>sdata = take (k - length b1) b2, sfin = e\<rparr>)"
      using Cons.prems b False dec_enc [of x b1 "take (k - length b1) b2" e] by simp
    with m show ?thesis
      by (intro exI [of _ "Suc m"]) auto
  qed
qed

end

lemma packet_bytes_length: "packet_bytes p = Inr b \<Longrightarrow> length b = 5 + length (pk_payload p)"
  by (auto simp: packet_bytes_def Let_def split: if_splits)

lemma read_packet_bytes:
  assumes "packet_bytes p = Inr b"
  shows "read_packet_msg kind \<lparr>sdata = b @ rest, sfin = e\<rparr> = Inr (p, \<lparr>sdata = rest, sfin = e\<rparr>)"
proof -
  let ?n = "3 + length (pk_payload p)"
  let ?c = "put16 (pk_stream p) @ [pk_flag p] @ pk_payload p"
  from assms have n: "?n < 65536" and b: "b = put16 (word_of_nat ?n) @ ?c"
    by (auto simp: packet_bytes_def Let_def split: if_splits)
  have u: "unat (get16 (put16 (word_of_nat ?n) ! 0) (put16 (word_of_nat ?n) ! 1)) = ?n"
    using unat_put16_len [OF n] by (simp add: put16_def)
  have r1: "read_full 2 \<lparr>sdata = b @ rest, sfin = e\<rparr> = Inr (put16 (word_of_nat ?n), \<lparr>sdata = ?c @ rest, sfin = e\<rparr>)"
    unfolding b append_assoc by (rule read_full_append) simp
  have r2: "read_full ?n \<lparr>sdata = ?c @ rest, sfin = e\<rparr> = Inr (?c, \<lparr>sdata = rest, sfin = e\<rparr>)"
    by (rule read_full_append) simp
  have fields: "get16 (?c ! 0) (?c ! 1) = pk_stream p" "?c ! 2 = pk_flag p" "drop 3 ?c = pk_payload p"
    by (simp_all add: put16_def numeral_2_eq_2 numeral_3_eq_3)
  show ?thesis
    unfolding read_packet_msg_def r1 sum.case prod.case Let_def u r2 fields by simp
qed

lemma read_packet_cut:
  assumes "packet_bytes p = Inr b" and "k < length b"
  shows "\<exists>err. read_packet_msg kind \<lparr>sdata = take k b, sfin = e\<rparr> = Inl err"
proof (rule ccontr)
  let ?s = "\<lparr>sdata = take k b, sfin = e\<rparr>"
  assume "\<nexists>err. read_packet_msg kind ?s = Inl err"
  then obtain l s1 where l: "read_full 2 ?s = Inr (l, s1)"
    and d: "\<exists>data s2. read_full (unat (get16 (l ! 0) (l ! 1))) s1 = Inr (data, s2)"
    by (auto simp: read_packet_msg_def Let_def split: sum.splits prod.splits if_splits)
  let ?n = "3 + length (pk_payload p)"
  from assms have n: "?n < 65536" and b: "b = put16 (word_of_nat ?n) @ put16 (pk_stream p) @ [pk_flag p] @ pk_payload p"
    by (auto simp: packet_bytes_def Let_def split: if_splits)
  from l have "length l = 2" "take k b = l @ sdata s1"
    by (simp_all add: read_full_Inr_iff)
  then have "l = take 2 b" and len: "length (sdata s1) = k - 2"
    using assms(2) by (metis append_eq_conv_conj take_take min_def nat_le_linear append_take_drop_id length_append
        le_add1 length_take not_less order.strict_implies_order, metis (no_types) add_diff_cancel_left' length_append length_take min.absorb4)
  then have "unat (get16 (l ! 0) (l ! 1)) = ?n"
    using unat_put16_len [OF n] by (simp add: b put16_def)
  with d obtain data s2 where "read_full ?n s1 = Inr (data, s2)" by auto
  then have "?n \<le> length (sdata s1)"
    by (auto simp: read_full_Inr_iff)
  with len assms(2) packet_bytes_length [OF assms(1)] show False by simp
qed

lemma read_packet_shrinks:
  assumes "read_packet_msg kind s = Inr (p, s')"
  shows "length (sdata s') < length (sdata s)"
  using assms by (auto simp: read_packet_msg_def Let_def read_full_Inr_iff split: sum.splits prod.splits if_splits)

interpretation plain: frame_codec packet_bytes ReadPacket id "\<lambda>_. True"
  by unfold_locales
    (simp_all add: ReadPacket_def read_packet_bytes read_packet_cut, simp add: read_packet_msg_def read_full_def)

interpretation unsecure: frame_codec packet_bytes ReadUnsecurePacket id "\<lambda>_. True"
  by unfold_locales
    (simp_all add: ReadUnsecurePacket_def read_packet_bytes read_packet_cut, simp add: read_packet_msg_def read_full_def)

subsection \<open>The encrypted framing\<close>

text \<open>What one call of \<open>WriteSecurePacket\<close> puts on the wire, for the nonce that was drawn.\<close>

definition secure_bytes :: "aead \<Rightarrow> bytes \<times> packet \<Rightarrow> bytes res" where
  "secure_bytes c np = and_then (WriteSecurePacket c (Inr (fst np)) None (snd np) []) (\<lambda>(p', out). Inr out)"

definition fresh_nonce :: "aead \<Rightarrow> bytes \<times> packet \<Rightarrow> bool" where
  "fresh_nonce c np \<longleftrightarrow> length (fst np) = ae_nonce_size c"

definition sealed :: "aead \<Rightarrow> bytes \<times> packet \<Rightarrow> packet" where
  "sealed c np =
     (if pk_payload (snd np) = [] then snd np
      else snd np\<lparr>pk_payload := fst np @ ae_seal c (fst np) (pk_payload (snd np))\<rparr>)"

lemma secure_bytes_Inr_iff: "secure_bytes c np = Inr b \<longleftrightarrow> packet_bytes (sealed c np) = Inr b"
  by (auto simp: secure_bytes_def sealed_def WriteSecurePacket_def WritePacket_def Encrypt_def
      split: sum.splits)

lemma sealed_length:
  assumes "aead_ok ov c" and "fresh_nonce c np"
  shows "length (pk_payload (sealed c np)) =
    (if pk_payload (snd np) = [] then 0 else ae_nonce_size c + length (pk_payload (snd np)) + ov)"
  using assms by (simp add: sealed_def fresh_nonce_def aead_ok_def)

lemma Decrypt_sealed:
  assumes "aead_ok ov c" and "length nonce = ae_nonce_size c"
  shows "Decrypt c (nonce @ ae_seal c nonce pt) = Inr pt"
  using assms by (simp add: Decrypt_def aead_ok_def)

lemma ReadSecurePacket_sealed:
  assumes "aead_ok ov c" and "fresh_nonce c np" and "ReadPacket s = Inr (sealed c np, s')"
  shows "ReadSecurePacket c s = Inr (snd np, s')"
proof (cases "pk_payload (snd np) = []")
  case True
  with assms(3) show ?thesis by (simp add: ReadSecurePacket_def sealed_def)
next
  case False
  with sealed_length [OF assms(1,2)] have "0 < length (pk_payload (sealed c np))" by simp
  with False assms show ?thesis
    using Decrypt_sealed [OF assms(1), of "fst np" "pk_payload (snd np)"]
    by (auto simp: ReadSecurePacket_def sealed_def fresh_nonce_def)
qed

lemma secure_frame_codec:
  assumes "aead_ok ov c"
  shows "frame_codec (secure_bytes c) (ReadSecurePacket c) snd (fresh_nonce c)"
proof
  fix x b rest e
  assume "fresh_nonce c x" and "secure_bytes c x = Inr b"
  then show "ReadSecurePacket c \<lparr>sdata = b @ rest, sfin = e\<rparr> = Inr (snd x, \<lparr>sdata = rest, sfin = e\<rparr>)"
    using ReadSecurePacket_sealed [OF assms] plain.dec_enc [of "sealed c x" b rest e]
    by (simp add: secure_bytes_Inr_iff)
next
  show "ReadSecurePacket c \<lparr>sdata = [], sfin = EOF\<rparr> = Inl EOF"
    by (simp add: ReadSecurePacket_def plain.dec_end)
next
  fix x b k e
  assume "secure_bytes c x = Inr b" and "k < length b"
  then show "\<exists>err. ReadSecurePacket c \<lparr>sdata = take k b, sfin = e\<rparr> = Inl err"
    using plain.dec_cut [of "sealed c x" b k e] by (auto simp: secure_bytes_Inr_iff ReadSecurePacket_def)
qed

lemma ReadSecurePacket_shrinks: "ReadSecurePacket c s = Inr (p, s') \<Longrightarrow> length (sdata s') < length (sdata s)"
  by (auto simp: ReadSecurePacket_def ReadPacket_def dest: read_packet_shrinks split: sum.splits prod.splits if_splits)

lemma packet_bytes_ok_iff: "(\<exists>b. packet_bytes p = Inr b) \<longleftrightarrow> length (pk_payload p) \<le> 65532"
  by (auto simp: packet_bytes_def Let_def)

text \<open>
  C8. Tunnel stream round trip: packets written one after the other with WriteSecurePacket, each
  under any nonce of the cipher's size, are read back by ReadSecurePacket in the same order with
  the same stream ids, flags and plaintext payloads, and the end of the stream is then reported
  as EOF. The AEAD is a parameter for which Open inverts Seal and the overhead is fixed.
\<close>

theorem secure_stream_roundtrip:
  assumes "aead_ok ov c" and "list_all (fresh_nonce c) xs" and "encode_all (secure_bytes c) xs = Inr b"
  shows "decode_n (ReadSecurePacket c) (length xs) \<lparr>sdata = b, sfin = EOF\<rparr> = Inr (map snd xs, \<lparr>sdata = [], sfin = EOF\<rparr>)
       \<and> ReadSecurePacket c \<lparr>sdata = [], sfin = EOF\<rparr> = Inl EOF"
  using frame_codec.stream_roundtrip [OF secure_frame_codec [OF assms(1)] assms(2,3)] .

text \<open>
  C9. A tunnel connection that breaks at any byte of the encrypted packet stream delivers a proper
  prefix of the packets that were written and then an error: no partial, merged or invented
  packet is ever returned, whatever error the connection ended with.
\<close>

theorem secure_stream_cut:
  assumes "aead_ok ov c" and "list_all (fresh_nonce c) xs" and "encode_all (secure_bytes c) xs = Inr b"
    and "k < length b"
  shows "\<exists>m < length xs. \<exists>s err.
    decode_n (ReadSecurePacket c) m \<lparr>sdata = take k b, sfin = e\<rparr> = Inr (map snd (take m xs), s) \<and> ReadSecurePacket c s = Inl err"
  using frame_codec.stream_cut [OF secure_frame_codec [OF assms(1)] assms(2-4)] .

text \<open>
  The 16-bit length field bounds the payload: WriteSecurePacket sends a packet exactly when its
  payload is empty or the payload with the nonce and the AEAD overhead fits in 65532 bytes;
  otherwise it reports an error and nothing reaches the connection.
\<close>

lemma secure_payload_limit:
  assumes "aead_ok ov c" and "length nonce = ae_nonce_size c"
  shows "(\<exists>r. WriteSecurePacket c (Inr nonce) None p out = Inr r) \<longleftrightarrow>
    pk_payload p = [] \<or> ae_nonce_size c + length (pk_payload p) + ov \<le> 65532"
proof -
  have "(\<exists>r. WriteSecurePacket c (Inr nonce) None p out = Inr r) \<longleftrightarrow> (\<exists>b. packet_bytes (sealed c (nonce, p)) = Inr b)"
    by (auto simp: WriteSecurePacket_def WritePacket_def Encrypt_def sealed_def split: sum.splits)
  then show ?thesis
    using sealed_length [OF assms(1), of "(nonce, p)"] assms(2)
    by (auto simp: packet_bytes_ok_iff fresh_nonce_def)
qed

definition demo_aead :: aead where
  "demo_aead = \<lparr>ae_nonce_size = 2, ae_seal = (\<lambda>nonce pt. pt @ replicate 16 0),
     ae_open = (\<lambda>nonce ct. if length ct < 16 then None else Some (take (length ct - 16) ct))\<rparr>"

lemma demo_aead_ok: "aead_ok 16 demo_aead"
  by (simp add: aead_ok_def demo_aead_def)

definition demo_packets :: "(bytes \<times> packet) list" where
  "demo_packets = [([7, 9], \<lparr>pk_stream = 258, pk_flag = 3, pk_payload = [1, 2, 3]\<rparr>), ([0, 0], \<lparr>pk_stream = 0, pk_flag = 5, pk_payload = []\<rparr>)]"

definition demo_wire :: bytes where
  "demo_wire = [0, 24, 1, 2, 3, 7, 9, 1, 2, 3] @ replicate 16 0 @ [0, 3, 0, 0, 5]"

lemma demo_packets_wire: "list_all (fresh_nonce demo_aead) demo_packets \<and> encode_all (secure_bytes demo_aead) demo_packets = Inr demo_wire"
  by (simp add: demo_packets_def demo_wire_def fresh_nonce_def demo_aead_def secure_bytes_Inr_iff sealed_def packet_bytes_def put16_def)

theorem secure_stream_roundtrip_witness:
  "decode_n (ReadSecurePacket demo_aead) (length demo_packets) \<lparr>sdata = demo_wire, sfin = EOF\<rparr>
     = Inr (map snd demo_packets, \<lparr>sdata = [], sfin = EOF\<rparr>)
   \<and> ReadSecurePacket demo_aead \<lparr>sdata = [], sfin = EOF\<rparr> = Inl EOF"
  using secure_stream_roundtrip [OF demo_aead_ok] demo_packets_wire by blast

theorem secure_stream_cut_witness:
  "\<exists>m < length demo_packets. \<exists>s err.
    decode_n (ReadSecurePacket demo_aead) m \<lparr>sdata = take 27 demo_wire, sfin = ClosedPipe\<rparr> = Inr (map snd (take m demo_packets), s)
    \<and> ReadSecurePacket demo_aead s = Inl err"
proof -
  have "27 < length demo_wire" by code_simp
  then show ?thesis
    using secure_stream_cut [OF demo_aead_ok] demo_packets_wire by blast
qed

lemma secure_payload_limit_witness:
  "(\<exists>r. WriteSecurePacket demo_aead (Inr [1, 2]) None \<lparr>pk_stream = 1, pk_flag = 3, pk_payload = replicate 65514 0\<rparr> [] = Inr r)
   \<and> \<not> (\<exists>r. WriteSecurePacket demo_aead (Inr [1, 2]) None \<lparr>pk_stream = 1, pk_flag = 3, pk_payload = replicate 65515 0\<rparr> [] = Inr r)"
proof -
  have n: "length [1, 2 :: byte] = ae_nonce_size demo_aead" by (simp add: demo_aead_def)
  show ?thesis
    unfolding secure_payload_limit [OF demo_aead_ok n] by (simp add: demo_aead_def)
qed

end
