(* ===== verification/Conn.thy ===== *)
theory Conn
  imports GoNet
begin

section \<open>Connections, buffered readers and the calls that use them\<close>

text \<open>
  A call that reads and writes connections is a function of the state of the connection: it
  never returns (\<open>None\<close>), or gives a result or an error with the new state. Two states are
  used. A \<open>conn\<close> is a \<open>net.Conn\<close> read through a \<open>bufio.Reader\<close> with \<open>io.ReadFull\<close> and
  \<open>io.CopyN\<close> only, so that the segmentation of the input is invisible and its input is a
  stream. A \<open>bconn\<close> keeps the buffer of the reader and the segments still to arrive, for the
  code that looks at \<open>Buffered()\<close> and \<open>Peek\<close>. The lemma \<open>read_b_refines\<close> is the simulation of
  the first by the second.
\<close>

type_synonym ('s, 'a) io = "'s \<Rightarrow> ('a res \<times> 's) option"

definition ret_io :: "'a \<Rightarrow> ('s, 'a) io" where
  "ret_io x s = Some (Inr x, s)"

definition fail_io :: "goerr \<Rightarrow> ('s, 'a) io" where
  "fail_io e s = Some (Inl e, s)"

definition bind_io :: "('s, 'a) io \<Rightarrow> ('a \<Rightarrow> ('s, 'b) io) \<Rightarrow> ('s, 'b) io" where
  "bind_io m f s =
     (case m s of
        None \<Rightarrow> None
      | Some (Inl e, s') \<Rightarrow> Some (Inl e, s')
      | Some (Inr x, s') \<Rightarrow> f x s')"

definition wrap_io :: "string \<Rightarrow> ('s, 'a) io \<Rightarrow> ('s, 'a) io" where
  "wrap_io p m s = map_option (map_prod (wrap_err p) id) (m s)"

definition lift_io :: "'a res \<Rightarrow> ('s, 'a) io" where
  "lift_io r s = Some (r, s)"

lemma bind_io_Inr:
  "bind_io m f s = Some (Inr y, s'') \<longleftrightarrow> (\<exists>x s'. m s = Some (Inr x, s') \<and> f x s' = Some (Inr y, s''))"
  by (auto simp: bind_io_def split: option.splits sum.splits prod.splits)

text \<open>A call that comes back, with a result or an error.\<close>

definition returns :: "('s, 'a) io \<Rightarrow> 's \<Rightarrow> bool" where
  "returns m s \<longleftrightarrow> (\<exists>r. m s = Some r)"

named_theorems returns_intros

lemma returns_bind [returns_intros]:
  "returns m s \<Longrightarrow> (\<And>x s'. returns (f x) s') \<Longrightarrow> returns (bind_io m f) s"
  by (auto simp: returns_def bind_io_def split: sum.splits prod.splits)

lemma returns_basic [returns_intros]:
  "returns (ret_io x) s" "returns (fail_io e) s" "returns (lift_io r) s" "returns m s \<Longrightarrow> returns (wrap_io p m) s"
  by (auto simp: returns_def ret_io_def fail_io_def lift_io_def wrap_io_def)

lemma returns_if [returns_intros]: "(b \<Longrightarrow> returns m s) \<Longrightarrow> (\<not> b \<Longrightarrow> returns m' s) \<Longrightarrow> returns (if b then m else m') s"
  by simp

lemma returns_prod [returns_intros]: "(\<And>a b. returns (f a b) s) \<Longrightarrow> returns (case p of (a, b) \<Rightarrow> f a b) s"
  by (cases p) simp

named_theorems io_simps

lemmas [io_simps] = ret_io_def fail_io_def bind_io_def lift_io_def wrap_io_def

subsection \<open>Connections read as a stream\<close>

text \<open>\<open>c_wres\<close> schedules the outcomes of the next writes; when it is used up they succeed.\<close>

record conn =
  c_in :: stream
  c_out :: bytes
  c_wres :: "goerr option list"

definition read_c :: "nat \<Rightarrow> (conn, bytes) io" where
  "read_c n c =
     Some (case read_full n (c_in c) of
             Inl e \<Rightarrow> (Inl e, c\<lparr>c_in := (c_in c)\<lparr>sdata := []\<rparr>\<rparr>)
           | Inr (b, s) \<Rightarrow> (Inr b, c\<lparr>c_in := s\<rparr>))"

definition discard_c :: "nat \<Rightarrow> (conn, unit) io" where
  "discard_c n c =
     Some (case discard_n n (c_in c) of
             Inl e \<Rightarrow> (Inl e, c\<lparr>c_in := (c_in c)\<lparr>sdata := []\<rparr>\<rparr>)
           | Inr s \<Rightarrow> (Inr (), c\<lparr>c_in := s\<rparr>))"

definition write_c :: "bytes \<Rightarrow> (conn, unit) io" where
  "write_c b c =
     Some (case c_wres c of
             Some e # r \<Rightarrow> (Inl e, c\<lparr>c_wres := r\<rparr>)
           | _ \<Rightarrow> (Inr (), c\<lparr>c_out := c_out c @ b, c_wres := tl (c_wres c)\<rparr>))"

text \<open>A connection on which every write succeeds, with \<open>input\<close> still to be read.\<close>

definition live :: "bytes \<Rightarrow> goerr \<Rightarrow> bytes \<Rightarrow> conn" where
  "live input e out = \<lparr>c_in = \<lparr>sdata = input, sfin = e\<rparr>, c_out = out, c_wres = []\<rparr>"

lemma c_out_live [simp]: "c_out (live i e out) = out"
  by (simp add: live_def)

lemma read_live [simp]: "n = length b \<Longrightarrow> read_c n (live (b @ rest) e out) = Some (Inr b, live rest e out)"
  by (simp add: read_c_def live_def)

lemma discard_live [simp]: "n = length b \<Longrightarrow> discard_c n (live (b @ rest) e out) = Some (Inr (), live rest e out)"
  by (simp add: discard_c_def live_def)

lemma write_live [simp]: "write_c b (live i e out) = Some (Inr (), live i e (out @ b))"
  by (simp add: write_c_def live_def)

lemma read_live_short: "length i < n \<Longrightarrow> \<exists>err. read_c n (live i e out) = Some (Inl err, live [] e out)"
  by (simp add: read_c_def live_def read_full_def)

lemma returns_conn [returns_intros]: "returns (read_c n) c" "returns (discard_c n) c" "returns (write_c b) c"
  by (simp_all add: returns_def read_c_def discard_c_def write_c_def)

lemma read_c_Inr:
  assumes "read_c n c = Some (Inr b, c')"
  shows "length b = n \<and> sdata (c_in c) = b @ sdata (c_in c') \<and> sfin (c_in c') = sfin (c_in c) \<and> c_out c' = c_out c \<and> c_wres c' = c_wres c"
  using assms by (auto simp: read_c_def read_full_Inr_iff split: sum.splits)

subsection \<open>Buffered readers\<close>

text \<open>
  \<open>b_buf\<close> is the buffered part of the \<open>bufio.Reader\<close> (4096 bytes at most, the default size),
  \<open>b_net\<close> the segments that the next reads of the connection return and \<open>b_end\<close> the error
  after them.
\<close>

record bconn =
  b_buf :: bytes
  b_net :: "bytes list"
  b_end :: goerr
  b_out :: bytes
  b_wres :: "goerr option list"

definition buf_size :: nat where
  "buf_size = 4096"

text \<open>One \<open>fill\<close> of the reader: one read of the connection into the free part of the buffer.\<close>

fun fill :: "bconn \<Rightarrow> bconn option" where
  "fill c =
     (case b_net c of
        [] \<Rightarrow> None
      | seg # segs \<Rightarrow>
          (let k = buf_size - length (b_buf c) in
           Some (c\<lparr>b_buf := b_buf c @ take k seg,
                   b_net := (if drop k seg = [] then segs else drop k seg # segs)\<rparr>)))"

declare fill.simps [simp del]

text \<open>What is still to be read, in order.\<close>

definition pending :: "bconn \<Rightarrow> bytes" where
  "pending c = b_buf c @ concat (b_net c)"

lemma fill_pending: "fill c = Some c' \<Longrightarrow> pending c' = pending c"
  by (auto simp: fill.simps pending_def Let_def split: list.splits)

lemma fill_frame:
  "fill c = Some c' \<Longrightarrow> b_end c' = b_end c \<and> b_out c' = b_out c \<and> b_wres c' = b_wres c"
  by (auto simp: fill.simps Let_def split: list.splits)

definition fill_measure :: "bconn \<Rightarrow> nat" where
  "fill_measure c = length (concat (b_net c)) + length (b_net c)"

lemma fill_decreases:
  assumes "fill c = Some c'" and "length (b_buf c) < buf_size"
  shows "fill_measure c' < fill_measure c"
  using assms by (auto simp: fill.simps fill_measure_def Let_def split: list.splits)

text \<open>\<open>Peek(n)\<close>; a peek larger than the buffer is \<open>ErrBufferFull\<close>.\<close>

function peek_b :: "nat \<Rightarrow> (bconn, bytes) io" where
  "peek_b n c =
     (if n \<le> length (b_buf c) then Some (Inr (take n (b_buf c)), c)
      else if length (b_buf c) \<ge> buf_size then Some (Inl (Msg ''bufio: buffer full''), c)
      else case fill c of
             None \<Rightarrow> Some (Inl (b_end c), c)
           | Some c' \<Rightarrow> peek_b n c')"
  by pat_completeness auto
termination
  by (relation "measure (\<lambda>(n, c). fill_measure c)") (auto intro: fill_decreases)

declare peek_b.simps [simp del]

text \<open>\<open>io.ReadFull\<close> through the reader; \<open>acc\<close> is what the calls of \<open>Read\<close> gave so far.\<close>

function read_b_from :: "bytes \<Rightarrow> nat \<Rightarrow> (bconn, bytes) io" where
  "read_b_from acc n c =
     (if n \<le> length (b_buf c)
      then Some (Inr (acc @ take n (b_buf c)), c\<lparr>b_buf := drop n (b_buf c)\<rparr>)
      else case fill (c\<lparr>b_buf := []\<rparr>) of
             None \<Rightarrow> Some (Inl (if acc @ b_buf c = [] then b_end c
                               else if b_end c = EOF then UnexpectedEOF else b_end c), c\<lparr>b_buf := []\<rparr>)
           | Some c' \<Rightarrow> read_b_from (acc @ b_buf c) (n - length (b_buf c)) c')"
  by pat_completeness auto
termination
proof (relation "measure (\<lambda>(acc, n, c). fill_measure c)", goal_cases)
  case (2 acc n c c')
  then show ?case
    using fill_decreases [of "c\<lparr>b_buf := []\<rparr>" c'] by (simp add: buf_size_def fill_measure_def)
qed simp

declare read_b_from.simps [simp del]

definition read_b :: "nat \<Rightarrow> (bconn, bytes) io" where
  "read_b n c = read_b_from [] n c"

definition write_b :: "bytes \<Rightarrow> (bconn, unit) io" where
  "write_b b c =
     Some (case b_wres c of
             Some e # r \<Rightarrow> (Inl e, c\<lparr>b_wres := r\<rparr>)
           | _ \<Rightarrow> (Inr (), c\<lparr>b_out := b_out c @ b, b_wres := tl (b_wres c)\<rparr>))"

definition buffered :: "bconn \<Rightarrow> nat" where
  "buffered c = length (b_buf c)"

text \<open>A buffered connection seen as a plain one.\<close>

definition unbuf :: "bconn \<Rightarrow> conn" where
  "unbuf c = \<lparr>c_in = \<lparr>sdata = pending c, sfin = b_end c\<rparr>, c_out = b_out c, c_wres = b_wres c\<rparr>"

lemma read_b_from_refines:
  "map_option (map_prod id unbuf) (read_b_from acc n c) =
     Some (if n \<le> length (pending c)
           then (Inr (acc @ take n (pending c)), (unbuf c)\<lparr>c_in := \<lparr>sdata = drop n (pending c), sfin = b_end c\<rparr>\<rparr>)
           else (Inl (if acc @ pending c = [] then b_end c else if b_end c = EOF then UnexpectedEOF else b_end c),
                 (unbuf c)\<lparr>c_in := \<lparr>sdata = [], sfin = b_end c\<rparr>\<rparr>))"
proof (induction acc n c rule: read_b_from.induct)
  case (1 acc n c)
  show ?case
  proof (cases "n \<le> length (b_buf c)")
    case True
    then show ?thesis
      by (simp add: read_b_from.simps [of acc n c] unbuf_def pending_def)
  next
    case False
    show ?thesis
    proof (cases "fill (c\<lparr>b_buf := []\<rparr>)")
      case None
      then have "b_net c = []" by (auto simp: fill.simps split: list.splits)
      with False None show ?thesis
        by (simp add: read_b_from.simps [of acc n c] unbuf_def pending_def)
    next
      case (Some c')
      from fill_pending [OF Some] have p: "pending c = b_buf c @ pending c'"
        by (simp add: pending_def)
      have f: "b_end c' = b_end c" "b_out c' = b_out c" "b_wres c' = b_wres c"
        using fill_frame [OF Some] by simp_all
      have step: "read_b_from acc n c = read_b_from (acc @ b_buf c) (n - length (b_buf c)) c'"
        using False Some by (simp add: read_b_from.simps [of acc n c])
      have le: "n - length (b_buf c) \<le> length (pending c') \<longleftrightarrow> n \<le> length (pending c)"
        using False p by auto
      have u: "unbuf c' = (unbuf c)\<lparr>c_in := \<lparr>sdata = pending c', sfin = b_end c\<rparr>\<rparr>"
        using f by (simp add: unbuf_def)
      show ?thesis
        unfolding step 1 [OF False Some] le using False by (simp add: p f u)
    qed
  qed
qed

text \<open>Reading through the buffer is reading the stream, however the input is cut into segments.\<close>

lemma read_b_refines: "map_option (map_prod id unbuf) (read_b n c) = read_c n (unbuf c)"
  by (auto simp: read_b_def read_b_from_refines read_c_def read_full_def unbuf_def)

lemma write_b_refines: "map_option (map_prod id unbuf) (write_b b c) = write_c b (unbuf c)"
  by (auto simp: write_b_def write_c_def unbuf_def pending_def split: list.splits option.splits)

lemma read_b_buffered:
  "n \<le> length (b_buf c) \<Longrightarrow> read_b n c = Some (Inr (take n (b_buf c)), c\<lparr>b_buf := drop n (b_buf c)\<rparr>)"
  by (simp add: read_b_def read_b_from.simps)

lemma peek_b_buffered: "n \<le> length (b_buf c) \<Longrightarrow> peek_b n c = Some (Inr (take n (b_buf c)), c)"
  by (simp add: peek_b.simps)

lemma peek_b_total: "\<exists>r. peek_b n c = Some r"
  by (induction n c rule: peek_b.induct) (subst peek_b.simps, auto split: option.splits)

lemma peek_b_frame:
  "peek_b n c = Some (r, c') \<Longrightarrow>
     pending c' = pending c \<and> b_end c' = b_end c \<and> b_out c' = b_out c \<and> b_wres c' = b_wres c"
proof (induction n c rule: peek_b.induct)
  case (1 n c)
  from 1(2) show ?case
    by (subst (asm) peek_b.simps)
      (auto split: if_splits option.splits dest!: 1(1) dest: fill_pending fill_frame)
qed

end
