(* ===== verification/Socks.thy ===== *)
theory Socks
  imports Conn
begin

section \<open>SOCKS5 and the tunnel request headers\<close>

text \<open>
  The three SOCKS5 servers in front of the tunnels (\<open>goremote/socks5_handler.go\<close>,
  \<open>worker/agent.go\<close>, \<open>vless/socks.go\<close>), the SOCKS5 client of the gateway
  (\<open>gateway/socks_client.go\<close>) and the headers that carry the target through the tunnels
  (\<open>goremote/helpers.go\<close>, \<open>worker/strategy.go\<close>, \<open>vless/encoder.go\<close>, \<open>vless/decoder.go\<close>).
  The locale \<open>socks_server\<close> is what a client may rely on; the three servers interpret it.
\<close>

subsection \<open>The servers\<close>

definition bad_version :: "byte \<Rightarrow> goerr" where
  "bad_version b = Msg (''unsupported socks version: '' @ show_nat (unat b))"

definition bad_atyp :: "byte \<Rightarrow> goerr" where
  "bad_atyp b = Msg (''unsupported address type: '' @ show_nat (unat b))"

text \<open>The greeting: \<open>goremote\<close> and \<open>worker\<close> read the methods, \<open>vless\<close> discards them.\<close>

definition greet :: "(nat \<Rightarrow> (conn, unit) io) \<Rightarrow> (conn, unit) io" where
  "greet skip =
     bind_io (read_c 2) (\<lambda>authBuf.
       if authBuf ! 0 \<noteq> 0x05 then fail_io (bad_version (authBuf ! 0))
       else bind_io (skip (unat (authBuf ! 1))) (\<lambda>_. write_c [0x05, 0x00]))"

definition read_methods :: "nat \<Rightarrow> (conn, unit) io" where
  "read_methods n = (if n > 0 then bind_io (read_c n) (\<lambda>_. ret_io ()) else ret_io ())"

text \<open>The destination host, by address type; only \<open>vless\<close> knows IPv6.\<close>

definition read_host :: "bool \<Rightarrow> byte \<Rightarrow> (conn, string) io" where
  "read_host v6 addrType =
     (if addrType = 0x01 then bind_io (read_c 4) (\<lambda>addrBuf. ret_io (ip_string addrBuf))
      else if addrType = 0x03 then
        bind_io (read_c 1) (\<lambda>lenBuf.
          bind_io (read_c (unat (lenBuf ! 0))) (\<lambda>addrBuf. ret_io (str_of addrBuf)))
      else if addrType = 0x04 \<and> v6 then bind_io (read_c 16) (\<lambda>addrBuf. ret_io (ip_string addrBuf))
      else fail_io (bad_atyp addrType))"

definition read_request :: "bool \<Rightarrow> (conn, byte \<times> string) io" where
  "read_request v6 =
     bind_io (read_c 4) (\<lambda>reqHeader.
       bind_io (read_host v6 (reqHeader ! 3)) (\<lambda>host.
         bind_io (read_c 2) (\<lambda>portBuf.
           ret_io (reqHeader ! 1, join_host_port host (itoa (int (unat (get16 (portBuf ! 0) (portBuf ! 1)))))))))"

definition HandshakeWithClient :: "(conn, byte \<times> string) io" where
  "HandshakeWithClient = bind_io (greet read_methods) (\<lambda>_. read_request False)"

definition worker_HandshakeWithClient :: "(conn, byte \<times> string) io" where
  "worker_HandshakeWithClient = bind_io (greet read_methods) (\<lambda>_. read_request False)"

definition socks_granted :: bytes where
  "socks_granted = [0x05, 0x00, 0x00, 0x01, 0, 0, 0, 0, 0, 0]"

definition HandshakeSocks5AndGetResponse :: "(conn, byte \<times> string) io" where
  "HandshakeSocks5AndGetResponse =
     bind_io (greet discard_c) (\<lambda>_.
       bind_io (read_request True) (\<lambda>(cmd, target).
         bind_io (write_c socks_granted) (\<lambda>_. ret_io (cmd, target))))"

subsection \<open>The client of the gateway\<close>

definition quoted :: "string \<Rightarrow> string" where
  "quoted s = [CHR 0x27] @ s @ [CHR 0x27]"

text \<open>Step 4 of \<open>dialSocksProxy\<close>: the CONNECT request for \<open>target\<close>.\<close>

definition address_part :: "byte \<Rightarrow> byte \<Rightarrow> byte \<Rightarrow> string \<Rightarrow> bytes" where
  "address_part t4 tdom t6 host =
     (case parse_ip host of
        Some ip \<Rightarrow> (case to4 ip of Some ipv4 \<Rightarrow> t4 # ipv4 | None \<Rightarrow> t6 # ip)
      | None \<Rightarrow> tdom # word_of_nat (length host) # bytes_of host)"

definition socks_connect_request :: "string \<Rightarrow> bytes res" where
  "socks_connect_request targetAddr =
     (case split_host_port targetAddr of
        Inl e \<Rightarrow> Inl (Wrap (''socks_client: invalid target address '' @ quoted targetAddr) e)
      | Inr (host, portStr) \<Rightarrow>
          (case atoi portStr of
             (_, Some e) \<Rightarrow> Inl (Wrap (''socks_client: invalid target port '' @ quoted portStr) e)
           | (port, None) \<Rightarrow>
               if parse_ip host = None \<and> length host > 255
               then Inl (Msg (''socks_client: hostname too long: '' @ host))
               else Inr ([0x05, 0x01, 0x00] @ address_part 0x01 0x03 0x04 host @ put16 (word_of_int port))))"

text \<open>Step 5: the bound address in the final response is read and ignored.\<close>

definition read_bound :: "byte \<Rightarrow> (conn, unit) io" where
  "read_bound addrType =
     bind_io
       (if addrType = 0x01 then ret_io 4
        else if addrType = 0x04 then ret_io 16
        else if addrType = 0x03 then
          bind_io (wrap_io ''socks_client: failed to read domain len in response'' (read_c 1)) (\<lambda>l. ret_io (unat (l ! 0)))
        else fail_io (Msg (''socks_client: unknown address type in response: '' @ show_nat (unat addrType))))
       (\<lambda>addrLen.
          bind_io (wrap_io ''socks_client: failed to read remaining response data'' (read_c (addrLen + 2))) (\<lambda>_. ret_io ()))"

definition socks_client :: "string \<Rightarrow> (conn, unit) io" where
  "socks_client targetAddr =
     bind_io (wrap_io ''socks_client: failed to send auth request'' (write_c [0x05, 0x01, 0x00])) (\<lambda>_.
     bind_io (wrap_io ''socks_client: failed to read auth response'' (read_c 2)) (\<lambda>authResponse.
     if authResponse ! 0 \<noteq> 0x05 \<or> authResponse ! 1 \<noteq> 0x00
     then fail_io (Msg (''socks_client: backend proxy requires authentication or returned invalid response: ['' @ show_nat (unat (authResponse ! 0))
            @ '' '' @ show_nat (unat (authResponse ! 1)) @ '']''))
     else
       bind_io (lift_io (socks_connect_request targetAddr)) (\<lambda>req.
       bind_io (wrap_io ''socks_client: failed to send connect request'' (write_c req)) (\<lambda>_.
       bind_io (wrap_io ''socks_client: failed to read final response header'' (read_c 4)) (\<lambda>resp.
       if resp ! 0 \<noteq> 0x05
       then fail_io (Msg (''socks_client: invalid response version: '' @ show_nat (unat (resp ! 0))))
       else if resp ! 1 \<noteq> 0x00
       then fail_io (Msg (''socks_client: connection failed with status: '' @ show_nat (unat (resp ! 1))))
       else read_bound (resp ! 3))))))"

text \<open>
  \<open>dialSocksProxy\<close>: \<open>dial\<close> is \<open>net.DialTimeout\<close>. The second component holds the servers
  passed to \<open>ReportFailure\<close>; on an error after the dial the connection is closed.
\<close>

definition dialSocksProxy :: "(string \<Rightarrow> conn res) \<Rightarrow> bool \<Rightarrow> string \<Rightarrow> string \<Rightarrow> string \<Rightarrow> (conn res \<times> string list) option" where
  "dialSocksProxy dial hasReporter backendAddr targetAddr serverID =
     (case dial backendAddr of
        Inl e \<Rightarrow> Some (Inl (Wrap (''socks_client: failed to connect to backend proxy '' @ quoted backendAddr) e),
                       if hasReporter then [serverID] else [])
      | Inr c \<Rightarrow>
          (case socks_client targetAddr c of
             None \<Rightarrow> None
           | Some (Inl e, c') \<Rightarrow> Some (Inl e, [])
           | Some (Inr _, c') \<Rightarrow> Some (Inr c', [])))"

subsection \<open>Tunnel request headers\<close>

definition buildMetadata :: "byte \<Rightarrow> string \<Rightarrow> bytes" where
  "buildMetadata cmd targetAddr =
     (let host = split_host targetAddr; port = fst (atoi (split_port targetAddr)) in
      cmd # address_part 0x01 0x03 0x04 host @ put16 (word_of_int port))"

definition buildMetadataForWorker :: "byte \<Rightarrow> string \<Rightarrow> bytes" where
  "buildMetadataForWorker cmd targetAddr =
     (let host = split_host targetAddr; port = fst (atoi (split_port targetAddr)) in
      cmd # address_part 0x01 0x03 0x04 host @ put16 (word_of_int port))"

text \<open>\<open>uuidParse\<close> is \<open>uuid.Parse\<close>.\<close>

definition vless_header :: "(string \<Rightarrow> bytes res) \<Rightarrow> byte \<Rightarrow> string \<Rightarrow> int \<Rightarrow> string \<Rightarrow> bytes res" where
  "vless_header uuidParse command host port userUUID =
     and_then (wrap_err ''invalid vless uuid'' (uuidParse userUUID)) (\<lambda>uid.
       if parse_ip host = None \<and> length host > 255 then Inl (Msg (''domain length > 255: '' @ host))
       else Inr ([0] @ uid @ [0x00, command] @ put16 (word_of_int port) @ address_part 1 2 3 host))"

definition EncodeRequestHeader ::
  "(string \<Rightarrow> bytes res) \<Rightarrow> byte \<Rightarrow> string \<Rightarrow> int \<Rightarrow> string \<Rightarrow> (conn, unit) io" where
  "EncodeRequestHeader uuidParse command host port userUUID =
     bind_io (lift_io (vless_header uuidParse command host port userUUID)) write_c"

definition DecodeResponseHeader :: "(conn, unit) io" where
  "DecodeResponseHeader =
     bind_io (wrap_io ''failed to read response version'' (read_c 1)) (\<lambda>version.
       if version ! 0 \<noteq> 0
       then fail_io (Msg (''unexpected response version. want 0, got '' @ show_nat (unat (version ! 0))))
       else bind_io (wrap_io ''failed to read response addons length'' (read_c 1)) (\<lambda>addonsLen.
         if unat (addonsLen ! 0) > 0
         then wrap_io ''failed to discard response addons'' (discard_c (unat (addonsLen ! 0)))
         else ret_io ()))"

subsection \<open>Destinations and the contract of a server\<close>

datatype dest = V4 bytes | Dom bytes | V6 bytes

fun dest_bytes :: "dest \<Rightarrow> bytes" where
  "dest_bytes (V4 b) = 0x01 # b"
| "dest_bytes (Dom h) = 0x03 # word_of_nat (length h) # h"
| "dest_bytes (V6 b) = 0x04 # b"

fun dest_ok :: "bool \<Rightarrow> dest \<Rightarrow> bool" where
  "dest_ok v6 (V4 b) = (length b = 4)"
| "dest_ok v6 (Dom h) = (length h \<le> 255)"
| "dest_ok v6 (V6 b) = (v6 \<and> length b = 16)"

fun dest_host :: "dest \<Rightarrow> string" where
  "dest_host (V4 b) = ip_string b"
| "dest_host (Dom h) = str_of h"
| "dest_host (V6 b) = ip_string b"

definition dest_target :: "dest \<Rightarrow> 16 word \<Rightarrow> string" where
  "dest_target d port = join_host_port (dest_host d) (show_nat (unat port))"

definition socks_hello :: "bytes \<Rightarrow> bytes" where
  "socks_hello ms = [0x05, word_of_nat (length ms)] @ ms"

definition socks_request :: "byte \<Rightarrow> byte \<Rightarrow> byte \<Rightarrow> dest \<Rightarrow> 16 word \<Rightarrow> bytes" where
  "socks_request ver cmd rsv d port = [ver, cmd, rsv] @ dest_bytes d @ put16 port"

locale socks_server =
  fixes hs :: "(conn, byte \<times> string) io"
    and v6 :: bool
    and reply :: bytes
  assumes accepts: "dest_ok v6 d \<Longrightarrow> length ms \<le> 255 \<Longrightarrow>
      hs (live (socks_hello ms @ socks_request ver cmd rsv d port @ rest) e out)
        = Some (Inr (cmd, dest_target d port), live rest e (out @ [0x05, 0x00] @ reply))"
    and sound: "hs c = Some (Inr (cmd, t), c') \<Longrightarrow>
      \<exists>ms ver rsv d port. length ms \<le> 255 \<and> dest_ok v6 d \<and> t = dest_target d port
        \<and> sdata (c_in c) = socks_hello ms @ socks_request ver cmd rsv d port @ sdata (c_in c')
        \<and> c_out c' = c_out c @ [0x05, 0x00] @ reply"
    and total: "returns hs c"
    and refuses: "ver \<noteq> 0x05 \<Longrightarrow> hs (live (ver # n # rest) e out) = Some (Inl (bad_version ver), live rest e out)"
begin

text \<open>A request for a destination is understood by the server exactly when the server knows its
  address type; then the server's answer does not depend on the methods, the reserved byte or
  what follows.\<close>

lemma answers_alike:
  assumes "dest_ok v6 d" and "length ms \<le> 255" and "length ms' \<le> 255"
  shows "fst (the (hs (live (socks_hello ms @ socks_request ver cmd rsv d port @ rest) e out)))
       = fst (the (hs (live (socks_hello ms' @ socks_request ver' cmd rsv' d port @ rest') e' out')))"
  using assms by (simp add: accepts)

lemma error_or_request:
  "(\<exists>err c'. hs c = Some (Inl err, c'))
   \<or> (\<exists>cmd t c' ms ver rsv d port. hs c = Some (Inr (cmd, t), c') \<and> dest_ok v6 d \<and> t = dest_target d port
        \<and> sdata (c_in c) = socks_hello ms @ socks_request ver cmd rsv d port @ sdata (c_in c'))"
proof -
  from total [of c] obtain r c' where r: "hs c = Some (r, c')" by (auto simp: returns_def)
  show ?thesis
  proof (cases r)
    case (Inl err)
    with r show ?thesis by blast
  next
    case (Inr ct)
    with r obtain cmd t where "hs c = Some (Inr (cmd, t), c')" by (cases ct) auto
    with sound [OF this] show ?thesis by blast
  qed
qed

end

subsection \<open>Reading what was sent\<close>

lemma unat_len8: "n \<le> 255 \<Longrightarrow> unat (word_of_nat n :: byte) = n"
  by (simp add: unat_of_nat)

lemma byte_le_255: "unat (b :: byte) \<le> 255"
  using unsigned_less [of b, where 'a = nat] by simp

lemma read_cons2: "read_c 2 (live (a # b # rest) e out) = Some (Inr [a, b], live rest e out)"
  using read_live [of 2 "[a, b]" rest e out] by simp

lemma read_cons4: "read_c 4 (live (a # b # x # y # rest) e out) = Some (Inr [a, b, x, y], live rest e out)"
  using read_live [of 4 "[a, b, x, y]" rest e out] by simp

lemma read_cons1: "read_c (Suc 0) (live (a # rest) e out) = Some (Inr [a], live rest e out)"
  using read_live [of 1 "[a]" rest e out] by simp

lemmas read_conses = read_cons1 read_cons2 read_cons4

lemma itoa_uint: "itoa (uint w) = show_nat (unat w)"
  by (metis itoa_nat of_nat_unat)

lemma read_host_live:
  assumes "dest_ok v6 d"
  shows "\<exists>a body. dest_bytes d = a # body \<and> read_host v6 a (live (body @ rest) e out) = Some (Inr (dest_host d), live rest e out)"
  using assms by (cases d) (auto simp: read_host_def io_simps read_conses unat_len8)

lemma read_request_live:
  assumes "dest_ok v6 d"
  shows "read_request v6 (live (socks_request ver cmd rsv d port @ rest) e out)
    = Some (Inr (cmd, dest_target d port), live rest e out)"
proof -
  from read_host_live [OF assms, of "put16 port @ rest" e out] obtain a body where
    d: "dest_bytes d = a # body"
    and h: "read_host v6 a (live (body @ put16 port @ rest) e out) = Some (Inr (dest_host d), live (put16 port @ rest) e out)"
    by blast
  have p: "read_c 2 (live (put16 port @ rest) e out) = Some (Inr (put16 port), live rest e out)"
    by (rule read_live) simp
  show ?thesis
    by (simp add: read_request_def socks_request_def d io_simps read_conses h p dest_target_def itoa_uint)
      (simp add: put16_def)
qed

lemma greet_live:
  assumes "skip (length ms) (live (ms @ rest) e out) = Some (Inr (), live rest e out)" and "length ms \<le> 255"
  shows "greet skip (live (socks_hello ms @ rest) e out) = Some (Inr (), live rest e (out @ [0x05, 0x00]))"
  using assms by (simp add: greet_def socks_hello_def io_simps read_conses unat_len8)

lemma read_methods_live: "read_methods (length ms) (live (ms @ rest) e out) = Some (Inr (), live rest e out)"
  by (cases ms) (simp_all add: read_methods_def io_simps read_live [of _ "a # b" for a b, simplified])

lemma read_c_live_eq:
  "read_c n c = Some (Inr b, c') \<Longrightarrow> length b = n \<and> sdata (c_in c) = b @ sdata (c_in c') \<and> c_out c' = c_out c"
  by (auto dest: read_c_Inr)

lemma read_host_sound:
  assumes "read_host v6 a c = Some (Inr h, c')"
  shows "\<exists>d. dest_ok v6 d \<and> h = dest_host d \<and> a # sdata (c_in c) = dest_bytes d @ sdata (c_in c') \<and> c_out c' = c_out c"
proof -
  consider "a = 1" | "a = 3" | "a = 4" "v6" | "read_host v6 a c = Some (Inl (bad_atyp a), c)"
    by (cases "a = 1"; cases "a = 3"; cases "a = 4"; cases v6) (simp_all add: read_host_def fail_io_def)
  then show ?thesis
  proof cases
    case 1
    with assms obtain b where "read_c 4 c = Some (Inr b, c')" "h = ip_string b"
      by (auto simp: read_host_def bind_io_Inr ret_io_def)
    with 1 show ?thesis by (intro exI [of _ "V4 b"]) (auto dest: read_c_live_eq)
  next
    case 2
    with assms obtain l c1 b where *: "read_c 1 c = Some (Inr l, c1)" "read_c (unat (l ! 0)) c1 = Some (Inr b, c')" "h = str_of b"
      by (auto simp: read_host_def bind_io_Inr ret_io_def)
    from read_c_live_eq [OF *(1)] obtain n where "l = [n]" "sdata (c_in c) = n # sdata (c_in c1)" "c_out c1 = c_out c"
      by (cases l) auto
    with 2 * byte_le_255 [of n] show ?thesis
      by (intro exI [of _ "Dom b"]) (auto dest!: read_c_live_eq simp: word_of_nat_eq_iff)
  next
    case 3
    with assms obtain b where "read_c 16 c = Some (Inr b, c')" "h = ip_string b"
      by (auto simp: read_host_def bind_io_Inr ret_io_def)
    with 3 show ?thesis by (intro exI [of _ "V6 b"]) (auto dest: read_c_live_eq)
  next
    case 4
    with assms show ?thesis by simp
  qed
qed

lemma read_request_sound:
  assumes "read_request v6 c = Some (Inr (cmd, t), c')"
  shows "\<exists>ver rsv d port. dest_ok v6 d \<and> t = dest_target d port
    \<and> sdata (c_in c) = socks_request ver cmd rsv d port @ sdata (c_in c') \<and> c_out c' = c_out c"
proof -
  from assms obtain r c1 h c2 p where *: "read_c 4 c = Some (Inr r, c1)" "read_host v6 (r ! 3) c1 = Some (Inr h, c2)"
    "read_c 2 c2 = Some (Inr p, c')" and cmd: "cmd = r ! 1"
    and t: "t = join_host_port h (show_nat (unat (get16 (p ! 0) (p ! 1))))"
    by (auto simp: read_request_def bind_io_Inr ret_io_def itoa_uint)
  from read_c_live_eq [OF *(1)] obtain ver rsv a where
    r: "r = [ver, cmd, rsv, a]" "sdata (c_in c) = r @ sdata (c_in c1)" "c_out c1 = c_out c"
    by (auto simp: cmd numeral_eq_Suc length_Suc_conv)
  from read_c_live_eq [OF *(3)] obtain p0 p1 where
    p: "p = [p0, p1]" "sdata (c_in c2) = p @ sdata (c_in c')" "c_out c' = c_out c2"
    by (auto simp: numeral_eq_Suc length_Suc_conv)
  from read_host_sound [OF *(2)] r obtain d where
    d: "dest_ok v6 d" "h = dest_host d" "a # sdata (c_in c1) = dest_bytes d @ sdata (c_in c2)" "c_out c2 = c_out c1"
    by auto
  show ?thesis
    using r p d t by (intro exI [of _ ver] exI [of _ rsv] exI [of _ d] exI [of _ "get16 p0 p1"])
      (simp add: socks_request_def dest_target_def)
qed

lemma greet_sound:
  assumes "greet skip c = Some (Inr (), c')"
    and "\<And>n c c'. skip n c = Some (Inr (), c') \<Longrightarrow>
      (\<exists>b. length b = n \<and> sdata (c_in c) = b @ sdata (c_in c')) \<and> c_out c' = c_out c"
  shows "\<exists>ms. length ms \<le> 255 \<and> sdata (c_in c) = socks_hello ms @ sdata (c_in c') \<and> c_out c' = c_out c @ [0x05, 0x00]"
proof -
  from assms(1) obtain a c1 c2 where a: "read_c 2 c = Some (Inr a, c1)" "a ! 0 = 5"
    and s: "skip (unat (a ! 1)) c1 = Some (Inr (), c2)" and w: "write_c [5, 0] c2 = Some (Inr (), c')"
    by (auto simp: greet_def bind_io_Inr fail_io_def split: if_splits)
  from read_c_live_eq [OF a(1)] a(2) obtain n where
    n: "a = [5, n]" "sdata (c_in c) = a @ sdata (c_in c1)" "c_out c1 = c_out c"
    by (auto simp: numeral_2_eq_2 length_Suc_conv)
  from assms(2) [OF s] obtain ms where "length ms = unat n" "sdata (c_in c1) = ms @ sdata (c_in c2)" "c_out c2 = c_out c1"
    using n by auto
  moreover from w have "c_in c' = c_in c2" "c_out c' = c_out c2 @ [5, 0]"
    by (auto simp: write_c_def split: list.splits option.splits)
  ultimately show ?thesis
    using n byte_le_255 [of n] by (intro exI [of _ ms]) (simp add: socks_hello_def)
qed

lemma read_methods_sound:
  "read_methods n c = Some (Inr (), c') \<Longrightarrow>
     (\<exists>b. length b = n \<and> sdata (c_in c) = b @ sdata (c_in c')) \<and> c_out c' = c_out c"
  by (auto simp: read_methods_def bind_io_Inr ret_io_def split: if_splits dest: read_c_live_eq)

lemma discard_c_sound:
  "discard_c n c = Some (Inr (), c') \<Longrightarrow>
     (\<exists>b. length b = n \<and> sdata (c_in c) = b @ sdata (c_in c')) \<and> c_out c' = c_out c"
  by (auto simp: discard_c_def discard_n_def split: if_splits sum.splits intro: exI [of _ "take n (sdata (c_in c))"])

lemma greet_returns [returns_intros]: "(\<And>n c. returns (skip n) c) \<Longrightarrow> returns (greet skip) c"
  unfolding greet_def by (intro returns_intros)

lemma server_returns [returns_intros]:
  "returns (read_host v6 a) c" "returns (read_request v6) c" "returns (read_methods n) c"
  unfolding read_host_def read_request_def read_methods_def by (intro returns_intros)+

lemma greet_refuses: "ver \<noteq> 5 \<Longrightarrow> greet skip (live (ver # n # rest) e out) = Some (Inl (bad_version ver), live rest e out)"
  by (simp add: greet_def io_simps read_conses)

lemma handshake_socks_server: "socks_server (bind_io (greet read_methods) (\<lambda>_. read_request False)) False []"
proof
  fix d ms ver cmd rsv port rest e out
  assume "dest_ok False d" and "length (ms :: bytes) \<le> 255"
  then show "bind_io (greet read_methods) (\<lambda>_. read_request False) (live (socks_hello ms @ socks_request ver cmd rsv d port @ rest) e out)
      = Some (Inr (cmd, dest_target d port), live rest e (out @ [5, 0] @ []))"
    by (simp add: bind_io_def greet_live [where skip = read_methods, OF read_methods_live] read_request_live)
next
  fix c cmd t c'
  assume "bind_io (greet read_methods) (\<lambda>_. read_request False) c = Some (Inr (cmd, t), c')"
  then obtain c1 where "greet read_methods c = Some (Inr (), c1)" "read_request False c1 = Some (Inr (cmd, t), c')"
    by (auto simp: bind_io_Inr)
  with greet_sound [OF this(1) read_methods_sound] read_request_sound [OF this(2)]
  show "\<exists>ms ver rsv d port. length ms \<le> 255 \<and> dest_ok False d \<and> t = dest_target d port
      \<and> sdata (c_in c) = socks_hello ms @ socks_request ver cmd rsv d port @ sdata (c_in c')
      \<and> c_out c' = c_out c @ [5, 0] @ []"
    by (metis append_Nil2)
next
  fix c show "returns (bind_io (greet read_methods) (\<lambda>_. read_request False)) c"
    by (intro returns_intros)
qed (simp add: bind_io_def greet_refuses)

interpretation goremote_socks: socks_server HandshakeWithClient False "[]"
  unfolding HandshakeWithClient_def by (rule handshake_socks_server)

interpretation worker_socks: socks_server worker_HandshakeWithClient False "[]"
  unfolding worker_HandshakeWithClient_def by (rule handshake_socks_server)

interpretation vless_socks: socks_server HandshakeSocks5AndGetResponse True socks_granted
proof
  fix d ms ver cmd rsv port rest e out
  assume "dest_ok True d" and "length (ms :: bytes) \<le> 255"
  then show "HandshakeSocks5AndGetResponse (live (socks_hello ms @ socks_request ver cmd rsv d port @ rest) e out)
      = Some (Inr (cmd, dest_target d port), live rest e (out @ [5, 0] @ socks_granted))"
    by (simp add: HandshakeSocks5AndGetResponse_def bind_io_def ret_io_def greet_live [where skip = discard_c] read_request_live)
next
  fix c cmd t c'
  assume "HandshakeSocks5AndGetResponse c = Some (Inr (cmd, t), c')"
  then obtain c1 c2 where c: "greet discard_c c = Some (Inr (), c1)" "read_request True c1 = Some (Inr (cmd, t), c2)"
    and w: "write_c socks_granted c2 = Some (Inr (), c')"
    by (auto simp: HandshakeSocks5AndGetResponse_def bind_io_Inr ret_io_def)
  from w have "c_in c' = c_in c2" "c_out c' = c_out c2 @ socks_granted"
    by (auto simp: write_c_def split: list.splits option.splits)
  with greet_sound [OF c(1) discard_c_sound] read_request_sound [OF c(2)]
  show "\<exists>ms ver rsv d port. length ms \<le> 255 \<and> dest_ok True d \<and> t = dest_target d port
      \<and> sdata (c_in c) = socks_hello ms @ socks_request ver cmd rsv d port @ sdata (c_in c')
      \<and> c_out c' = c_out c @ [5, 0] @ socks_granted"
    by (metis append_assoc)
next
  fix c show "returns HandshakeSocks5AndGetResponse c"
    unfolding HandshakeSocks5AndGetResponse_def by (intro returns_intros)
qed (simp add: HandshakeSocks5AndGetResponse_def bind_io_def greet_refuses)

subsection \<open>The client and the headers produce well-formed destinations\<close>

definition dest_of_host :: "string \<Rightarrow> dest" where
  "dest_of_host h =
     (case parse_ip h of
        None \<Rightarrow> Dom (bytes_of h)
      | Some ip \<Rightarrow> (case to4 ip of Some b \<Rightarrow> V4 b | None \<Rightarrow> V6 ip))"

definition short_host :: "string \<Rightarrow> bool" where
  "short_host h \<longleftrightarrow> parse_ip h \<noteq> None \<or> length h \<le> 255"

lemma address_part_dest: "address_part 1 3 4 h = dest_bytes (dest_of_host h)"
  by (simp add: address_part_def dest_of_host_def split: option.splits)

lemma dest_of_host_ok: "short_host h \<Longrightarrow> dest_ok True (dest_of_host h)"
  by (auto simp: dest_of_host_def short_host_def to4_def split: option.splits if_splits dest: parse_ip_length)

lemma word_of_int_nat16: "(word_of_int (int n) :: 16 word) = word_of_nat n"
  by simp

lemma connect_request_join:
  assumes "host_ok h" and "short_host h" and "n < 2 ^ 63"
  shows "socks_connect_request (join_host_port h (show_nat n))
    = Inr (socks_request 5 1 0 (dest_of_host h) (word_of_nat n))"
  using assms split_join_itoa [OF assms(1), of n] atoi_show_nat [OF assms(3)]
  by (auto simp: socks_connect_request_def itoa_nat short_host_def socks_request_def address_part_dest)

lemma client_run:
  assumes "socks_connect_request t = Inr req"
  shows "socks_client t (live ([5, 0] @ socks_granted @ rest) e []) = Some (Inr (), live rest e ([5, 1, 0] @ req))"
proof -
  have r: "read_c 6 (live (0 # 0 # 0 # 0 # 0 # 0 # rest) e out) = Some (Inr [0, 0, 0, 0, 0, 0], live rest e out)" for out
    using read_live [of 6 "[0, 0, 0, 0, 0, 0]" rest e out] by simp
  show ?thesis
    using assms by (simp add: socks_client_def socks_granted_def read_bound_def io_simps read_conses r)
qed

text \<open>
  C35. Gateway client and VLESS SOCKS5 server agree: for every host without brackets (an IP literal
  or a name of at most 255 bytes) and every port, the bytes dialSocksProxy sends make
  HandshakeSocks5AndGetResponse return CONNECT for that host and port, and the bytes the server
  answers make dialSocksProxy return a connection positioned at the first tunnelled byte.
\<close>

theorem socks_client_server_agree:
  assumes "host_ok h" and "short_host h" and "p < 65536"
  shows "\<exists>i. socks_client (join_host_port h (show_nat p)) (live ([5, 0] @ socks_granted @ rest) e [])
           = Some (Inr (), live rest e i)
       \<and> HandshakeSocks5AndGetResponse (live i e' [])
           = Some (Inr (1, dest_target (dest_of_host h) (word_of_nat p)), live [] e' ([5, 0] @ socks_granted))"
proof -
  from assms(3) have "p < 2 ^ 63" by simp
  note req = connect_request_join [OF assms(1,2) this]
  have "[5, 1, 0] = socks_hello [0]" by (simp add: socks_hello_def)
  with vless_socks.accepts [OF dest_of_host_ok [OF assms(2)], of "[0]" 5 1 0 "word_of_nat p" "[]" e' "[]"]
  show ?thesis
    using client_run [OF req, of rest e] by auto
qed

theorem socks_client_server_agree_witness:
  "\<exists>i. socks_client (join_host_port ''example.com'' (show_nat 443)) (live ([5, 0] @ socks_granted @ [7]) EOF [])
           = Some (Inr (), live [7] EOF i)
       \<and> HandshakeSocks5AndGetResponse (live i EOF [])
           = Some (Inr (1, dest_target (dest_of_host ''example.com'') (word_of_nat 443)), live [] EOF ([5, 0] @ socks_granted))"
  by (rule socks_client_server_agree) (simp_all add: host_ok_def short_host_def)

text \<open>
  The port of the CONNECT request is the decimal port modulo 65536: dialSocksProxy does not
  range-check the port it parses, so a target with an out-of-range port is silently
  redirected to the wrapped port instead of being refused.
\<close>

lemma connect_port_wraps:
  assumes "host_ok h" and "short_host h" and "n < 2 ^ 63"
  shows "socks_connect_request (join_host_port h (show_nat n)) = socks_connect_request (join_host_port h (show_nat (n mod 65536)))"
proof -
  have "n mod 65536 < 2 ^ 63"
    by (rule order.strict_trans2 [OF mod_less_divisor]) simp_all
  moreover have "(word_of_nat n :: 16 word) = word_of_nat (n mod 65536)"
    by (rule word_unat_eq_iff [THEN iffD2]) (simp add: unat_of_nat)
  ultimately show ?thesis
    using assms by (simp add: connect_request_join)
qed

lemma connect_port_wraps_witness:
  "socks_connect_request (join_host_port ''a.b'' (show_nat 65616)) = socks_connect_request (join_host_port ''a.b'' (show_nat 80))"
  using connect_port_wraps [of "''a.b''" 65616] by (simp add: host_ok_def short_host_def)

text \<open>
  C34. Every SOCKS5 server returns on every input and every write outcome, and when it returns a
  command and a target, the bytes it consumed are exactly one greeting and one request whose
  command, address and port are the ones returned.
\<close>

theorem socks_servers_sound:
  assumes "hs = HandshakeWithClient \<and> \<not> v6 \<or> hs = worker_HandshakeWithClient \<and> \<not> v6 \<or> hs = HandshakeSocks5AndGetResponse \<and> v6"
  shows "(\<exists>err c'. hs c = Some (Inl err, c'))
   \<or> (\<exists>cmd t c' ms ver rsv d port. hs c = Some (Inr (cmd, t), c') \<and> dest_ok v6 d \<and> t = dest_target d port
        \<and> sdata (c_in c) = socks_hello ms @ socks_request ver cmd rsv d port @ sdata (c_in c'))"
  using assms goremote_socks.error_or_request [of c] worker_socks.error_or_request [of c] vless_socks.error_or_request [of c]
  by (elim disjE conjE) simp_all

theorem socks_servers_sound_witness:
  "\<exists>cmd t c' ms ver rsv d port. HandshakeWithClient (live [5, 1, 0, 5, 1, 0, 1, 8, 8, 4, 4, 1, 187] EOF []) = Some (Inr (cmd, t), c')
     \<and> dest_ok False d \<and> t = dest_target d port
     \<and> [5, 1, 0, 5, 1, 0, 1, 8, 8, 4, 4, 1, 187] = socks_hello ms @ socks_request ver cmd rsv d port @ sdata (c_in c')"
proof -
  let ?c = "live [5, 1, 0, 5, 1, 0, 1, 8, 8, 4, 4, 1, 187] EOF []"
  have "[5, 1, 0, 5, 1, 0, 1, 8, 8, 4, 4, 1, 187] = socks_hello [0] @ socks_request 5 1 0 (V4 [8, 8, 4, 4]) 443 @ []"
    by (simp add: socks_hello_def socks_request_def put16_def)
  then have "\<nexists>err c'. HandshakeWithClient ?c = Some (Inl err, c')"
    using goremote_socks.accepts [of "V4 [8, 8, 4, 4]" "[0]" 5 1 0 443 "[]" EOF "[]"] by simp
  then show ?thesis
    using socks_servers_sound [of HandshakeWithClient False ?c] by (simp add: live_def)
qed

lemma target_parts:
  assumes "dest_ok False d" and "\<And>h. d = Dom h \<Longrightarrow> host_ok (str_of h) \<and> parse_ip (str_of h) = None"
  shows "split_host (dest_target d port) = dest_host d" "fst (atoi (split_port (dest_target d port))) = int (unat port)"
    "dest_of_host (dest_host d) = d"
proof -
  have host: "host_ok (dest_host d) \<and> dest_of_host (dest_host d) = d"
    using assms by (cases d) (auto simp: dest_of_host_def ip_string_v4 parse_ip_v4_string to4_mapped)
  have "unat port < 2 ^ 63"
    using unsigned_less [of port, where 'a = nat] by simp
  from split_join_itoa [of "dest_host d" "unat port"] host atoi_show_nat [OF this]
  show "split_host (dest_target d port) = dest_host d" "fst (atoi (split_port (dest_target d port))) = int (unat port)"
    by (simp_all add: dest_target_def itoa_nat itoa_uint split_host_def split_port_def)
  show "dest_of_host (dest_host d) = d" using host ..
qed

text \<open>
  The tunnel request carries the client's request: for an IPv4 destination, or a domain that is
  not itself an IP literal, the metadata goremote and worker build from the target string their
  handshake returned is the command, the address and the port of the client's request, byte for byte.
\<close>

lemma metadata_carries_request:
  assumes "dest_ok False d" and "length ms \<le> 255"
    and "\<And>h. d = Dom h \<Longrightarrow> host_ok (str_of h) \<and> parse_ip (str_of h) = None"
    and "HandshakeWithClient (live (socks_hello ms @ socks_request 5 cmd 0 d port @ rest) e []) = Some (Inr (c, t), k)"
  shows "buildMetadata c t = cmd # dest_bytes d @ put16 port \<and> buildMetadataForWorker c t = cmd # dest_bytes d @ put16 port
       \<and> worker_HandshakeWithClient (live (socks_hello ms @ socks_request 5 cmd 0 d port @ rest) e []) = Some (Inr (c, t), k)"
proof -
  have t: "c = cmd" "t = dest_target d port"
    using assms(4) goremote_socks.accepts [OF assms(1,2)] by simp_all
  show ?thesis
    using assms(4) target_parts [OF assms(1,3)] t
    unfolding buildMetadata_def buildMetadataForWorker_def Let_def HandshakeWithClient_def worker_HandshakeWithClient_def
    by (simp add: address_part_dest)
qed

lemma metadata_carries_request_witness:
  "buildMetadata 1 ''8.8.4.4:443'' = [1, 1, 8, 8, 4, 4, 1, 187]"
proof -
  have "dest_target (V4 [8, 8, 4, 4]) 443 = ''8.8.4.4:443''" by code_simp
  then have "HandshakeWithClient (live (socks_hello [0] @ socks_request 5 1 0 (V4 [8, 8, 4, 4]) 443 @ []) EOF [])
      = Some (Inr (1, ''8.8.4.4:443''), live [] EOF [5, 0])"
    using goremote_socks.accepts [of "V4 [8, 8, 4, 4]" "[0]" 5 1 0 443 "[]" EOF "[]"] by simp
  from metadata_carries_request [OF _ _ _ this] show ?thesis by (simp add: put16_def)
qed

end
