(* ===== verification/Sniff.thy ===== *)
theory Sniff
  imports Socks
begin

section \<open>Sniffing the target of a connection (core/gateway: gateway.go, socks5.go, http.go)\<close>

text \<open>
  How the gateway finds out where a client wants to go, before it chooses a backend: the
  protocol by the first byte, then the SOCKS5 request, the server name of a TLS ClientHello or
  the host of an HTTP request, all read without consuming the bytes that the backend needs.
  Byte accesses of the ClientHello parser are checked: an index or slice out of range is the
  run-time panic of Go. \<open>readRequest\<close> stands for \<open>http.ReadRequest\<close> and gives the method and
  the host of a request. A deadline of \<open>fillBuffer\<close> that expires is an input that ends with the
  timeout error.
\<close>

datatype proto = ProtoSOCKS5 | ProtoHTTP | ProtoTLS | ProtoUnknown

subsection \<open>fillBuffer\<close>

partial_function (option) fillBuffer :: "nat \<Rightarrow> bconn \<Rightarrow> (unit res \<times> bconn) option" where
  "fillBuffer n c =
     (if buffered c < n
      then (case peek_b 1 c of
              None \<Rightarrow> None
            | Some (r, c') \<Rightarrow> (case r of Inl e \<Rightarrow> Some (Inl e, c') | Inr _ \<Rightarrow> fillBuffer n c'))
      else Some (Inr (), c))"

subsection \<open>SOCKS5\<close>

definition handleSocks5ClientHandshake :: "(bconn, unit) io" where
  "handleSocks5ClientHandshake =
     bind_io (read_b 2) (\<lambda>header.
       bind_io (read_b (unat (header ! 1))) (\<lambda>methods. write_b [0x05, 0x00]))"

definition port_at :: "bytes \<Rightarrow> nat \<Rightarrow> string" where
  "port_at b i = itoa (int (unat (get16 (b ! i) (b ! Suc i))))"

definition sniff_fixed :: "nat \<Rightarrow> (bconn, string) io" where
  "sniff_fixed n =
     bind_io (fillBuffer (4 + n + 2)) (\<lambda>_.
       bind_io (peek_b (4 + n + 2)) (\<lambda>fullHeader.
         ret_io (join_host_port (ip_string (take n (drop 4 fullHeader))) (port_at fullHeader (4 + n)))))"

definition sniff_domain :: "(bconn, string) io" where
  "sniff_domain =
     bind_io (fillBuffer 5) (\<lambda>_.
       bind_io (peek_b 5) (\<lambda>lenHeader.
         let domainLen = unat (lenHeader ! 4); peekSize = 4 + 1 + domainLen + 2 in
         bind_io (fillBuffer peekSize) (\<lambda>_.
           bind_io (peek_b peekSize) (\<lambda>fullHeader.
             ret_io (join_host_port (str_of (take domainLen (drop 5 fullHeader))) (port_at fullHeader (5 + domainLen)))))))"

definition sniff_request :: "(bconn, string) io" where
  "sniff_request =
     bind_io (fillBuffer 4) (\<lambda>_.
       bind_io (peek_b 4) (\<lambda>reqHeader.
         if reqHeader ! 0 \<noteq> 0x05 \<or> reqHeader ! 1 \<noteq> 0x01 then fail_io (Msg ''not a SOCKS5 CONNECT request'')
         else if reqHeader ! 3 = 0x01 then sniff_fixed 4
         else if reqHeader ! 3 = 0x03 then sniff_domain
         else if reqHeader ! 3 = 0x04 then sniff_fixed 16
         else fail_io (Msg (''unsupported SOCKS5 address type: '' @ show_nat (unat (reqHeader ! 3))))))"

definition sniffTargetSocks5 :: "(bconn, string) io" where
  "sniffTargetSocks5 = bind_io handleSocks5ClientHandshake (\<lambda>_. sniff_request)"

subsection \<open>TLS\<close>

definition at :: "bytes \<Rightarrow> nat \<Rightarrow> byte res" where
  "at b i = (if i < length b then Inr (b ! i) else Inl (Panic ''index out of range''))"

definition slice :: "bytes \<Rightarrow> nat \<Rightarrow> nat \<Rightarrow> bytes res" where
  "slice b i j = (if i \<le> j \<and> j \<le> length b then Inr (take (j - i) (drop i b)) else Inl (Panic ''slice bounds out of range''))"

definition uint16_at :: "bytes \<Rightarrow> nat \<Rightarrow> nat res" where
  "uint16_at b i = and_then (slice b i (i + 2)) (\<lambda>s. Inr (unat (get16 (s ! 0) (s ! 1))))"

text \<open>The server_name extension.\<close>

definition sni_name :: "bytes \<Rightarrow> string res" where
  "sni_name sniData =
     (if length sniData < 5 then Inl (Msg ''invalid SNI data'')
      else and_then (slice sniData 2 (length sniData)) (\<lambda>sniData.
        and_then (at sniData 0) (\<lambda>nameType.
          if nameType \<noteq> 0 then Inl (Msg (''unsupported SNI name type: '' @ show_nat (unat nameType)))
          else and_then (uint16_at sniData 1) (\<lambda>nameLen.
            and_then (slice sniData 3 (length sniData)) (\<lambda>sniData.
              if length sniData < nameLen then Inl (Msg ''invalid SNI name length'')
              else and_then (slice sniData 0 nameLen) (\<lambda>name. Inr (str_of name)))))))"

text \<open>The loop over the extensions; it drops at least the four header bytes each time.\<close>

function sni_extensions :: "bytes \<Rightarrow> string res" where
  "sni_extensions extensionsData =
     (if length extensionsData \<ge> 4 then
        (case uint16_at extensionsData 0 of
           Inl e \<Rightarrow> Inl e
         | Inr extType \<Rightarrow>
             (case uint16_at extensionsData 2 of
                Inl e \<Rightarrow> Inl e
              | Inr extLen \<Rightarrow>
                  (let rest = drop 4 extensionsData in
                   if length rest < extLen then Inl (Msg ''invalid extension length'')
                   else if extType = 0 then and_then (slice rest 0 extLen) sni_name
                   else sni_extensions (drop extLen rest))))
      else Inl (Msg ''SNI not found''))"
  by pat_completeness auto
termination
  by (relation "measure length") auto

declare sni_extensions.simps [simp del]

text \<open>The body of the record, \<open>data\<close> of the code after the record header is cut off.\<close>

definition client_hello_sni :: "bytes \<Rightarrow> string res" where
  "client_hello_sni data =
     (if length data < 42 then Inl (Msg ''invalid ClientHello: too short'')
      else and_then (at data 0) (\<lambda>msgType.
        if msgType \<noteq> 0x01 then Inl (Msg ''not a ClientHello message'')
        else and_then (at data 38) (\<lambda>sessionIDLen.
          let offset = 38 + (1 + unat sessionIDLen) in
          if offset + 2 > length data then Inl (Msg ''invalid ClientHello: session ID parsing error'')
          else and_then (uint16_at data offset) (\<lambda>cipherSuitesLen.
            let offset = offset + (2 + cipherSuitesLen) in
            if offset + 1 > length data then Inl (Msg ''invalid ClientHello: cipher suites parsing error'')
            else and_then (at data offset) (\<lambda>compressionMethodsLen.
              let offset = offset + (1 + unat compressionMethodsLen) in
              if offset + 2 > length data then Inl (Msg ''no extensions found'')
              else and_then (uint16_at data offset) (\<lambda>extensionsLen.
                let offset = offset + 2 in
                if offset + extensionsLen > length data then Inl (Msg ''invalid ClientHello: extensions length mismatch'')
                else and_then (slice data offset (offset + extensionsLen)) sni_extensions))))))"

definition sniffTargetTLS :: "(bconn, string) io" where
  "sniffTargetTLS =
     bind_io (fillBuffer 5) (\<lambda>_.
       bind_io (peek_b 5) (\<lambda>header.
         if header ! 0 \<noteq> 0x16 then fail_io (Msg ''not a TLS handshake record'')
         else if header ! 1 \<noteq> 0x03 then fail_io (Msg (''unexpected TLS major version: '' @ show_nat (unat (header ! 1))))
         else
           let totalHelloLen = 5 + unat (get16 (header ! 3) (header ! 4)) in
           (\<lambda>c. case fillBuffer totalHelloLen c of
                  None \<Rightarrow> None
                | Some (Inl e, c') \<Rightarrow> Some (Inl (Msg ''buffer does not contain full TLS ClientHello''), c')
                | Some (Inr _, c') \<Rightarrow>
                    bind_io (peek_b totalHelloLen) (\<lambda>data. lift_io (client_hello_sni (drop 5 data))) c')))"

subsection \<open>HTTP\<close>

definition sniffTargetHTTP :: "(bytes \<Rightarrow> (string \<times> string) res) \<Rightarrow> (bconn, string \<times> (string \<times> string)) io" where
  "sniffTargetHTTP readRequest =
     bind_io
       (\<lambda>c. if buffered c = 0 then wrap_io ''failed to peek for http sniff'' (peek_b 1) c else ret_io [] c)
       (\<lambda>_ c. bind_io (peek_b (buffered c)) (\<lambda>data.
          bind_io (wrap_io ''could not parse HTTP request'' (lift_io (readRequest data))) (\<lambda>req.
            let method = fst req; host = snd req in
            if host = [] then fail_io (Msg ''HTTP request host is empty'')
            else if \<not> contains_str host '':'' then
              ret_io (join_host_port host (if method = ''CONNECT'' then ''443'' else ''80''), req)
            else ret_io (host, req))) c)"

subsection \<open>Protocol detection\<close>

text \<open>Two hexadecimal digits, for the message about the unknown first byte.\<close>

definition hex2 :: "byte \<Rightarrow> string" where
  "hex2 b = (if unat b < 16 then ''0'' @ show_hex (unat b) else show_hex (unat b))"

definition sniff_error :: "string \<Rightarrow> (bconn, 'a) io \<Rightarrow> ('a \<Rightarrow> bool) \<Rightarrow> goerr \<Rightarrow> (bconn, 'a) io" where
  "sniff_error msg m good nilerr = (\<lambda>c. case m c of
       None \<Rightarrow> None
     | Some (Inl e, c') \<Rightarrow> Some (Inl (Wrap msg e), c')
     | Some (Inr x, c') \<Rightarrow> if good x then Some (Inr x, c') else Some (Inl (Wrap msg nilerr), c'))"

definition sniffTargetForRouting :: "(bytes \<Rightarrow> (string \<times> string) res) \<Rightarrow> (bconn, string \<times> proto) io" where
  "sniffTargetForRouting readRequest =
     bind_io (wrap_io ''failed to read initial byte'' (fillBuffer 1)) (\<lambda>_.
       bind_io (peek_b 1) (\<lambda>firstByte.
         let b = firstByte ! 0 in
         if b = 0x05 then bind_io sniffTargetSocks5 (\<lambda>target. ret_io (target, ProtoSOCKS5))
         else if b = 0x16 then
           bind_io (sniff_error ''TLS SNI sniff failed'' sniffTargetTLS (\<lambda>h. h \<noteq> []) (Msg ''%!w(<nil>)''))
             (\<lambda>host. ret_io (host, ProtoTLS))
         else if 65 \<le> unat b \<and> unat b \<le> 90 then
           bind_io (sniff_error ''HTTP sniff failed'' (sniffTargetHTTP readRequest) (\<lambda>(h, _). h \<noteq> []) (Msg ''%!w(<nil>)''))
             (\<lambda>(host, _). ret_io (host, ProtoHTTP))
         else fail_io (Msg (''could not determine target protocol, initial byte: 0x'' @ hex2 b))))"

subsection \<open>When fillBuffer returns\<close>

lemma peek_b_enough: "peek_b n c = Some (Inr b, c') \<Longrightarrow> n \<le> buffered c'"
proof (induction n c rule: peek_b.induct)
  case (1 n c)
  from 1(2) show ?case
    by (subst (asm) peek_b.simps) (auto split: if_splits option.splits simp: buffered_def dest!: 1(1))
qed

lemma peek_one_buffered: "peek_b 1 c = Some (Inr b, c') \<Longrightarrow> 0 < buffered c'"
  using peek_b_enough [of 1] by fastforce

lemma fillBuffer_spins: "0 < buffered c \<Longrightarrow> buffered c < n \<Longrightarrow> fillBuffer n c = None"
proof (rule ccontr)
  assume *: "0 < buffered c" "buffered c < n" "fillBuffer n c \<noteq> None"
  then obtain r where "fillBuffer n c = Some r" by auto
  then have "\<not> (0 < buffered c \<and> buffered c < n)"
  proof (rule fillBuffer.raw_induct [rotated])
    fix f n c r
    assume IH: "\<And>n c r. f n c = Some r \<Longrightarrow> \<not> (0 < buffered c \<and> buffered c < n)"
      and body: "(if buffered c < n
         then (case peek_b 1 c of None \<Rightarrow> None
               | Some (r, c') \<Rightarrow> (case r of Inl e \<Rightarrow> Some (Inl e, c') | Inr _ \<Rightarrow> f n c'))
         else Some (Inr (), c)) = Some (r :: unit res \<times> bconn)"
    show "\<not> (0 < buffered c \<and> buffered c < n)"
    proof
      assume b: "0 < buffered c \<and> buffered c < n"
      then have "peek_b 1 c = Some (Inr (take 1 (b_buf c)), c)"
        by (intro peek_b_buffered) (simp add: buffered_def Suc_le_eq)
      with body b have "f n c = Some r" by simp
      from IH [OF this] b show False by simp
    qed
  qed
  with * show False by simp
qed

lemma fillBuffer_ok: "n \<le> buffered c \<Longrightarrow> fillBuffer n c = Some (Inr (), c)"
  by (subst fillBuffer.simps) simp

lemma fillBuffer_empty:
  assumes "buffered c = 0" and "0 < n" and "peek_b 1 c = Some (r, c')"
  shows "fillBuffer n c = (case r of Inl e \<Rightarrow> Some (Inl e, c') | Inr _ \<Rightarrow> if n \<le> buffered c' then Some (Inr (), c') else None)"
proof (cases r)
  case (Inr b)
  then have "0 < buffered c'" using peek_one_buffered assms(3) by simp
  then have "fillBuffer n c' = (if n \<le> buffered c' then Some (Inr (), c') else None)"
    using fillBuffer_ok [of n c'] fillBuffer_spins [of c' n] by auto
  with Inr assms show ?thesis by (subst fillBuffer.simps) simp
qed (use assms in \<open>subst fillBuffer.simps, simp\<close>)

text \<open>
  C39. fillBuffer comes back only if what it needs arrives at once: with too few bytes buffered it
  returns exactly when the buffer is empty and the first read of the connection fails or
  delivers all of the missing bytes. In every other case it calls Peek(1) for ever, since a
  buffered byte satisfies the peek without reading, and the read deadline never applies.
\<close>

theorem fillBuffer_returns_iff:
  assumes "peek_b 1 c = Some (r, c')" and "buffered c < n"
  shows "(\<exists>res. fillBuffer n c = Some res) \<longleftrightarrow> buffered c = 0 \<and> ((\<exists>e. r = Inl e) \<or> n \<le> buffered c')"
proof (cases "buffered c = 0")
  case True
  with assms fillBuffer_empty [OF True _ assms(1), of n] show ?thesis
    by (cases r) auto
next
  case False
  with assms fillBuffer_spins [of c n] show ?thesis by simp
qed

definition fresh_bconn :: "bytes list \<Rightarrow> goerr \<Rightarrow> bconn" where
  "fresh_bconn segs e = \<lparr>b_buf = [], b_net = segs, b_end = e, b_out = [], b_wres = []\<rparr>"

theorem fillBuffer_returns_iff_witness:
  "\<not> (\<exists>res. fillBuffer 2 (fresh_bconn [[5], [1, 0]] EOF) = Some res)
   \<and> (\<exists>res. fillBuffer 2 (fresh_bconn [[5, 1], [0]] EOF) = Some res)"
proof -
  have p: "peek_b 1 (fresh_bconn [[5], [1, 0]] EOF) = Some (Inr [5], (fresh_bconn [[1, 0]] EOF)\<lparr>b_buf := [5]\<rparr>)"
    "peek_b 1 (fresh_bconn [[5, 1], [0]] EOF) = Some (Inr [5], (fresh_bconn [[0]] EOF)\<lparr>b_buf := [5, 1]\<rparr>)"
    by (simp_all add: peek_b.simps fill.simps fresh_bconn_def buf_size_def)
  show ?thesis
    using fillBuffer_returns_iff [OF p(1), of 2] fillBuffer_returns_iff [OF p(2), of 2]
    by (simp add: buffered_def fresh_bconn_def)
qed

subsection \<open>The SOCKS5 sniffer\<close>

lemma fill_segment:
  "length (b_buf c) + length seg \<le> buf_size \<Longrightarrow> b_net c = seg # segs \<Longrightarrow>
     fill c = Some (c\<lparr>b_buf := b_buf c @ seg, b_net := segs\<rparr>)"
  by (simp add: fill.simps Let_def)

lemma peek_first_segment:
  assumes "b_buf c = []" and "b_net c = seg # segs" and "seg \<noteq> []" and "length seg \<le> buf_size"
  shows "peek_b 1 c = Some (Inr (take 1 seg), c\<lparr>b_buf := seg, b_net := segs\<rparr>)"
proof -
  have "0 < length seg" using assms(3) by simp
  moreover have "fill c = Some (c\<lparr>b_buf := seg, b_net := segs\<rparr>)"
    using assms fill_segment [of c seg segs] by simp
  ultimately show ?thesis
    using assms(1) peek_b_buffered [of 1 "c\<lparr>b_buf := seg, b_net := segs\<rparr>"]
    by (subst peek_b.simps) (simp add: buf_size_def Suc_le_eq)
qed

lemma fillBuffer_segment:
  assumes "b_buf c = []" and "b_net c = seg # segs" and "seg \<noteq> []" and "length seg \<le> buf_size" and "0 < n"
  shows "fillBuffer n c = (if n \<le> length seg then Some (Inr (), c\<lparr>b_buf := seg, b_net := segs\<rparr>) else None)"
  using fillBuffer_empty [OF _ assms(5) peek_first_segment [OF assms(1-4)]] assms(1) by (simp add: buffered_def)

lemma read_b_append:
  "n = length b \<Longrightarrow> b_buf c = b @ rest \<Longrightarrow> read_b n c = Some (Inr b, c\<lparr>b_buf := rest\<rparr>)"
  by (simp add: read_b_buffered)

text \<open>The greeting in the buffer is consumed and answered.\<close>

lemma client_handshake_buffered:
  assumes "b_buf c = socks_hello ms @ rest" and "length ms \<le> 255" and "b_wres c = []"
  shows "handleSocks5ClientHandshake c = Some (Inr (), c\<lparr>b_buf := rest, b_out := b_out c @ [5, 0]\<rparr>)"
proof -
  have r: "read_b 2 c = Some (Inr [5, word_of_nat (length ms)], c\<lparr>b_buf := ms @ rest\<rparr>)"
    by (rule read_b_append) (simp_all add: assms(1) socks_hello_def)
  have m: "read_b (length ms) (c\<lparr>b_buf := ms @ rest\<rparr>) = Some (Inr ms, c\<lparr>b_buf := rest\<rparr>)"
    using read_b_append [of "length ms" ms "c\<lparr>b_buf := ms @ rest\<rparr>" rest] by simp
  show ?thesis
    using assms(2,3) by (simp add: handleSocks5ClientHandshake_def bind_io_def r m unat_len8 write_b_def)
qed

lemma peek_append: "b_buf c = b @ rest \<Longrightarrow> n = length b \<Longrightarrow> peek_b n c = Some (Inr b, c)"
  by (simp add: peek_b_buffered)

lemma fillBuffer_append: "b_buf c = b @ rest \<Longrightarrow> n \<le> length b \<Longrightarrow> fillBuffer n c = Some (Inr (), c)"
  by (simp add: fillBuffer_ok buffered_def)

lemma port_at_put16: "port_at (b @ put16 p) (length b) = show_nat (unat p)"
  by (simp add: port_at_def put16_def nth_append itoa_uint)

lemma sniff_fixed_buffered:
  assumes "b_buf c = h @ a @ put16 p @ rest" and "length h = 4" and "length a = n"
  shows "sniff_fixed n c = Some (Inr (join_host_port (ip_string a) (show_nat (unat p))), c)"
proof -
  have b: "b_buf c = (h @ a @ put16 p) @ rest" and l: "4 + n + 2 = length (h @ a @ put16 p)"
    using assms by simp_all
  show ?thesis
    using fillBuffer_append [OF b, of "4 + n + 2"] peek_append [OF b l] l assms port_at_put16 [of "h @ a" p]
    by (simp add: sniff_fixed_def bind_io_def ret_io_def)
qed

lemma sniff_domain_buffered:
  assumes "b_buf c = h @ word_of_nat (length a) # a @ put16 p @ rest" and "length h = 4" and "length a \<le> 255"
  shows "sniff_domain c = Some (Inr (join_host_port (str_of a) (show_nat (unat p))), c)"
proof -
  let ?h = "h @ [word_of_nat (length a)]"
  have b1: "b_buf c = ?h @ a @ put16 p @ rest" and b2: "b_buf c = (?h @ a @ put16 p) @ rest"
    and l1: "5 = length ?h" and l2: "4 + 1 + length a + 2 = length (?h @ a @ put16 p)"
    using assms by simp_all
  have n: "unat (?h ! 4) = length a" using assms by (simp add: nth_append unat_len8)
  have f: "port_at (?h @ a @ put16 p) (5 + length a) = show_nat (unat p)" "take (length a) (drop 5 (?h @ a @ put16 p)) = a"
    using port_at_put16 [of "?h @ a" p] assms(2) by simp_all
  show ?thesis
    unfolding sniff_domain_def bind_io_def fillBuffer_append [OF b1 eq_refl [OF l1]] peek_append [OF b1 l1] option.case prod.case sum.case n Let_def
      fillBuffer_append [OF b2 eq_refl [OF l2]] peek_append [OF b2 l2] f ret_io_def ..
qed

lemma sniff_request_buffered:
  assumes "b_buf c = socks_request 5 1 rsv d port @ rest" and "dest_ok True d"
  shows "sniff_request c = Some (Inr (dest_target d port), c)"
proof -
  obtain a body where d: "dest_bytes d = a # body" by (cases d) auto
  have b: "b_buf c = [5, 1, rsv, a] @ body @ put16 port @ rest"
    using assms(1) by (simp add: socks_request_def d)
  have "sniff_request c = (if a = 1 then sniff_fixed 4 c else if a = 3 then sniff_domain c else if a = 4 then sniff_fixed 16 c
      else Some (Inl (Msg (''unsupported SOCKS5 address type: '' @ show_nat (unat a))), c))"
    using fillBuffer_append [OF b, of 4] peek_append [OF b, of 4]
    by (simp add: sniff_request_def bind_io_def fail_io_def)
  with assms(2) d show ?thesis
    using sniff_fixed_buffered [OF b] sniff_domain_buffered [of c "[5, 1, rsv, 3]" _ port rest] b
    by (cases d) (auto simp: dest_target_def)
qed

lemma sniff_request_segment:
  assumes "b_buf c = []" and "b_net c = (socks_request 5 1 rsv d port @ extra) # segs"
    and "length (socks_request 5 1 rsv d port @ extra) \<le> buf_size" and "dest_ok True d"
  shows "sniff_request c = Some (Inr (dest_target d port), c\<lparr>b_buf := socks_request 5 1 rsv d port @ extra, b_net := segs\<rparr>)"
proof -
  let ?seg = "socks_request 5 1 rsv d port @ extra"
  let ?c = "c\<lparr>b_buf := ?seg, b_net := segs\<rparr>"
  have l: "4 \<le> length ?seg" by (cases d) (simp_all add: socks_request_def)
  then have "?seg \<noteq> []" by auto
  from fillBuffer_segment [OF assms(1,2) this assms(3), of 4] l
  have "fillBuffer 4 c = Some (Inr (), ?c)" by simp
  moreover have "fillBuffer 4 ?c = Some (Inr (), ?c)"
    using l by (simp add: fillBuffer_ok buffered_def)
  ultimately have "sniff_request c = sniff_request ?c"
    by (simp add: sniff_request_def bind_io_def)
  with sniff_request_buffered [of ?c rsv d port extra] assms(4) show ?thesis by simp
qed

lemma sniff_dispatch_socks:
  assumes "b_buf c = []" and "b_net c = socks_hello ms # segs" and "length ms \<le> 255" and "b_wres c = []"
  shows "sniffTargetForRouting rr c =
    bind_io sniff_request (\<lambda>t. ret_io (t, ProtoSOCKS5)) (c\<lparr>b_net := segs, b_out := b_out c @ [5, 0]\<rparr>)"
proof -
  let ?c = "c\<lparr>b_buf := socks_hello ms, b_net := segs\<rparr>"
  have l: "socks_hello ms \<noteq> []" "length (socks_hello ms) \<le> buf_size"
    using assms(3) by (simp_all add: socks_hello_def buf_size_def)
  have f: "fillBuffer 1 c = Some (Inr (), ?c)"
    using fillBuffer_segment [OF assms(1,2) l, of 1] by (simp add: socks_hello_def)
  have p: "peek_b 1 ?c = Some (Inr [5], ?c)"
    by (rule peek_append [where rest = "word_of_nat (length ms) # ms"]) (simp_all add: socks_hello_def)
  have h: "handleSocks5ClientHandshake ?c = Some (Inr (), c\<lparr>b_net := segs, b_out := b_out c @ [5, 0]\<rparr>)"
    using client_handshake_buffered [of ?c ms "[]"] assms by simp
  show ?thesis
    using f p h by (simp add: sniffTargetForRouting_def sniffTargetSocks5_def bind_io_def wrap_io_def)
qed

text \<open>
  SOCKS5 sniffing: when the client's greeting and then its whole CONNECT request (with anything
  after it) arrive in one read each, the gateway answers the greeting, finds the requested host
  and port, and leaves the request and all that follows unread for the backend.
\<close>

lemma sniff_socks5_target:
  assumes "b_buf c = []" and "b_net c = socks_hello ms # (socks_request 5 1 rsv d port @ extra) # segs"
    and "length ms \<le> 255" and "dest_ok True d" and "length (socks_request 5 1 rsv d port @ extra) \<le> buf_size"
    and "b_wres c = []"
  shows "\<exists>c'. sniffTargetForRouting readRequest c = Some (Inr (dest_target d port, ProtoSOCKS5), c')
     \<and> pending c' = socks_request 5 1 rsv d port @ extra @ concat segs \<and> b_out c' = b_out c @ [5, 0]"
proof -
  let ?c = "c\<lparr>b_net := (socks_request 5 1 rsv d port @ extra) # segs, b_out := b_out c @ [5, 0]\<rparr>"
  have "sniff_request ?c = Some (Inr (dest_target d port), ?c\<lparr>b_buf := socks_request 5 1 rsv d port @ extra, b_net := segs\<rparr>)"
    by (rule sniff_request_segment) (use assms in simp_all)
  then show ?thesis
    using sniff_dispatch_socks [OF assms(1-3,6)] by (simp add: bind_io_def ret_io_def pending_def)
qed

lemma sniff_socks5_target_witness:
  "\<exists>c'. sniffTargetForRouting (\<lambda>_. Inl EOF) (fresh_bconn [[5, 1, 0], [5, 1, 0, 1, 8, 8, 4, 4, 0, 80, 22], [3]] EOF)
      = Some (Inr (dest_target (V4 [8, 8, 4, 4]) 80, ProtoSOCKS5), c')
     \<and> pending c' = [5, 1, 0, 1, 8, 8, 4, 4, 0, 80, 22, 3] \<and> b_out c' = [5, 0]"
  using sniff_socks5_target [of "fresh_bconn [[5, 1, 0], [5, 1, 0, 1, 8, 8, 4, 4, 0, 80, 22], [3]] EOF" "[0]" 0 "V4 [8, 8, 4, 4]" 80 "[22]" "[[3]]"]
  by (simp add: fresh_bconn_def socks_hello_def socks_request_def put16_def buf_size_def)

text \<open>
  A SOCKS5 request whose first segment is shorter than its four header bytes never gets a
  backend: the sniffer of that connection runs for ever, whatever arrives afterwards.
\<close>

lemma sniff_split_request_hangs:
  assumes "b_buf c = []" and "b_net c = socks_hello ms # seg # segs" and "length ms \<le> 255"
    and "0 < length seg" and "length seg < 4" and "b_wres c = []"
  shows "sniffTargetForRouting readRequest c = None"
proof -
  let ?c = "c\<lparr>b_net := seg # segs, b_out := b_out c @ [5, 0]\<rparr>"
  have "fillBuffer 4 ?c = None"
    using fillBuffer_segment [of ?c seg segs 4] assms by (simp add: buf_size_def)
  then show ?thesis
    using sniff_dispatch_socks [OF assms(1-3,6)] by (simp add: sniff_request_def bind_io_def)
qed

lemma sniff_split_request_hangs_witness:
  "sniffTargetForRouting (\<lambda>_. Inl EOF) (fresh_bconn [[5, 1, 0], [5, 1], [0, 1, 8, 8, 4, 4, 1, 187]] EOF) = None"
  using sniff_split_request_hangs [of "fresh_bconn [[5, 1, 0], [5, 1], [0, 1, 8, 8, 4, 4, 1, 187]] EOF" "[0]" "[5, 1]" "[[0, 1, 8, 8, 4, 4, 1, 187]]"]
  by (simp add: fresh_bconn_def socks_hello_def)

subsection \<open>The ClientHello parser\<close>

definition panics :: "'a res \<Rightarrow> bool" where
  "panics r \<longleftrightarrow> (\<exists>m. r = Inl (Panic m))"

lemma panics_simps [simp]: "\<not> panics (Inr x)" "\<not> panics (Inl (Msg m))"
  by (simp_all add: panics_def)

lemma at_ok: "i < length b \<Longrightarrow> at b i = Inr (b ! i)"
  by (simp add: at_def)

lemma slice_ok: "i \<le> j \<Longrightarrow> j \<le> length b \<Longrightarrow> slice b i j = Inr (take (j - i) (drop i b))"
  by (simp add: slice_def)

lemma uint16_at_ok: "i + 2 \<le> length b \<Longrightarrow> uint16_at b i = Inr (unat (get16 (b ! i) (b ! Suc i)))"
  by (simp add: uint16_at_def slice_ok)

lemmas in_bounds = at_ok slice_ok uint16_at_ok

lemma sni_name_no_panic: "\<not> panics (sni_name b)"
  by (auto simp: sni_name_def in_bounds)

lemma sni_extensions_no_panic: "\<not> panics (sni_extensions b)"
proof (induction b rule: sni_extensions.induct)
  case (1 b)
  show ?case
  proof (cases "4 \<le> length b")
    case True
    from True 1 show ?thesis
      by (subst sni_extensions.simps) (auto simp: in_bounds Let_def sni_name_no_panic)
  qed (subst sni_extensions.simps, simp)
qed

text \<open>
  The ClientHello parser never indexes or slices out of range: whatever bytes a client sends in
  the TLS record, sniffing ends with a name or an error message and no run-time panic.
\<close>

lemma client_hello_no_panic: "\<not> panics (client_hello_sni data)"
proof -
  { assume l: "\<not> length data < 42"
    then have "0 < length data" "38 < length data" by linarith+
    then have "at data 0 = Inr (data ! 0)" "at data 38 = Inr (data ! 38)" by (simp_all only: at_ok)
    then have ?thesis
      by (auto simp: client_hello_sni_def Let_def in_bounds sni_extensions_no_panic) }
  then show ?thesis by (cases "length data < 42") (simp_all add: client_hello_sni_def)
qed

text \<open>A ClientHello as RFC 8446 and RFC 6066 lay it out; \<open>hdr\<close> holds the message length, the
  version and the random of the handshake.\<close>

definition tls_ext :: "16 word \<Rightarrow> bytes \<Rightarrow> bytes" where
  "tls_ext t b = put16 t @ put16 (word_of_nat (length b)) @ b"

definition sni_body :: "bytes \<Rightarrow> bytes" where
  "sni_body name = put16 (word_of_nat (length name + 3)) @ [0] @ put16 (word_of_nat (length name)) @ name"

definition client_hello :: "bytes \<Rightarrow> bytes \<Rightarrow> bytes \<Rightarrow> bytes \<Rightarrow> bytes \<Rightarrow> bytes" where
  "client_hello hdr sid suites cmprs exts =
     [1] @ hdr @ [word_of_nat (length sid)] @ sid @ put16 (word_of_nat (length suites)) @ suites
     @ [word_of_nat (length cmprs)] @ cmprs @ put16 (word_of_nat (length exts)) @ exts"

lemma uint16_at_append:
  assumes "n < 65536" and "i = length a"
  shows "uint16_at (a @ put16 (word_of_nat n) @ rest) i = Inr n"
  using assms unat_put16_len [OF assms(1)] by (simp add: uint16_at_def slice_ok) (simp add: put16_def)

lemma at_append: "i = length a \<Longrightarrow> at (a @ x # rest) i = Inr x"
  by (simp add: at_def)

lemma slice_append: "i = length a \<Longrightarrow> j = length a + length b \<Longrightarrow> slice (a @ b @ rest) i j = Inr b"
  by (simp add: slice_def)

lemma sni_name_body: "length name < 65536 \<Longrightarrow> sni_name (sni_body name) = Inr (str_of name)"
proof -
  assume n: "length name < 65536"
  let ?t = "[0] @ put16 (word_of_nat (length name)) @ name"
  have long: "(length (sni_body name) < 5) = False"
    by (simp add: sni_body_def)
  have s1: "slice (sni_body name) 2 (length (sni_body name)) = Inr ?t"
    by (simp add: slice_def sni_body_def)
  have u: "uint16_at ?t 1 = Inr (length name)"
    by (rule uint16_at_append) (simp_all add: n)
  have s2: "slice ?t 3 (length ?t) = Inr name" "slice name 0 (length name) = Inr name"
    by (simp_all add: slice_def numeral_3_eq_3)
  have a: "at ?t 0 = Inr 0" by (simp add: at_def)
  show ?thesis
    unfolding sni_name_def long if_False s1 and_then.simps a u s2 by simp
qed

lemma sni_extensions_ext:
  assumes "length b < 65536"
  shows "sni_extensions (tls_ext t b @ rest) = (if t = 0 then sni_name b else sni_extensions rest)"
proof -
  have t: "uint16_at (tls_ext t b @ rest) 0 = Inr (unat t)"
    by (simp add: tls_ext_def uint16_at_def slice_ok) (simp add: put16_def)
  have l: "uint16_at (tls_ext t b @ rest) 2 = Inr (length b)"
    using uint16_at_append [OF assms, of 2 "put16 t" "b @ rest"] by (simp add: tls_ext_def)
  have d: "drop 4 (tls_ext t b @ rest) = b @ rest" and four: "(4 \<le> length (tls_ext t b @ rest)) = True"
    by (simp_all add: tls_ext_def)
  show ?thesis
    unfolding sni_extensions.simps [of "tls_ext t b @ rest"] t l sum.case four if_True d Let_def
    by (simp add: slice_def unat_eq_zero)
qed

lemma sni_extensions_skip:
  "list_all (\<lambda>(t, b). t \<noteq> 0 \<and> length b < 65536) pre \<Longrightarrow>
     sni_extensions (concat (map (\<lambda>(t, b). tls_ext t b) pre) @ rest) = sni_extensions rest"
  by (induction pre) (auto simp: sni_extensions_ext)

lemma client_hello_extensions:
  assumes "length hdr = 37" and "length sid \<le> 255" and "length suites < 65536" and "length cmprs \<le> 255" and "length exts < 65536"
  shows "client_hello_sni (client_hello hdr sid suites cmprs exts) = sni_extensions exts"
proof -
  let ?d = "client_hello hdr sid suites cmprs exts"
  have len: "length ?d = 44 + length sid + length suites + length cmprs + length exts"
    using assms(1) by (simp add: client_hello_def)
  have a0: "at ?d 0 = Inr 1" by (simp add: client_hello_def at_def)
  have a38: "at ?d 38 = Inr (word_of_nat (length sid))"
    using at_append [of 38 "1 # hdr"] assms(1) by (simp add: client_hello_def)
  have u1: "uint16_at ?d (39 + length sid) = Inr (length suites)"
    using uint16_at_append [OF assms(3), of "39 + length sid" "1 # hdr @ word_of_nat (length sid) # sid"] assms(1)
    by (simp add: client_hello_def)
  have a2: "at ?d (41 + length sid + length suites) = Inr (word_of_nat (length cmprs))"
    using at_append [of "41 + length sid + length suites" "1 # hdr @ word_of_nat (length sid) # sid @ put16 (word_of_nat (length suites)) @ suites"] assms(1)
    by (simp add: client_hello_def)
  let ?pre = "1 # hdr @ word_of_nat (length sid) # sid @ put16 (word_of_nat (length suites)) @ suites @ word_of_nat (length cmprs) # cmprs"
  have u3: "uint16_at ?d (42 + length sid + length suites + length cmprs) = Inr (length exts)"
    using uint16_at_append [OF assms(5), of "42 + length sid + length suites + length cmprs" ?pre exts] assms(1)
    by (simp add: client_hello_def)
  have sl: "slice ?d (44 + length sid + length suites + length cmprs) (44 + length sid + length suites + length cmprs + length exts) = Inr exts"
  proof -
    have "?d = (?pre @ put16 (word_of_nat (length exts))) @ exts" "length (?pre @ put16 (word_of_nat (length exts))) = 44 + length sid + length suites + length cmprs"
      using assms(1) by (simp_all add: client_hello_def)
    then show ?thesis using slice_append [of _ "?pre @ put16 (word_of_nat (length exts))" _ exts "[]"] by (simp add: add.assoc)
  qed
  have offsets: "38 + (1 + length sid) = 39 + length sid" "39 + length sid + (2 + length suites) = 41 + length sid + length suites"
    "41 + length sid + length suites + (1 + length cmprs) = 42 + length sid + length suites + length cmprs"
    "42 + length sid + length suites + length cmprs + 2 = 44 + length sid + length suites + length cmprs" by simp_all
  have lens: "unat (word_of_nat (length sid) :: byte) = length sid" "unat (word_of_nat (length cmprs) :: byte) = length cmprs"
    using assms(2,4) by (simp_all add: unat_len8)
  have bounds: "(length ?d < 42) = False" "(39 + length sid + 2 > length ?d) = False" "(41 + length sid + length suites + 1 > length ?d) = False"
    "(44 + length sid + length suites + length cmprs > length ?d) = False"
    "(44 + length sid + length suites + length cmprs + length exts > length ?d) = False"
    using len by simp_all
  have "(1 \<noteq> (1 :: byte)) = False" by simp
  then show ?thesis
    unfolding client_hello_sni_def Let_def bounds if_False a0 and_then.simps a38 lens offsets u1 a2 u3 sl
    by simp
qed

text \<open>
  C38. Server names are found: for every well-formed ClientHello that carries a server_name
  extension, behind any other extensions, the sniffer returns exactly that name.
\<close>

theorem client_hello_sni_found:
  assumes "length hdr = 37" and "length sid \<le> 255" and "length suites < 65536" and "length cmprs \<le> 255"
    and "list_all (\<lambda>(t, b). t \<noteq> 0 \<and> length b < 65536) pre" and "length name < 65500"
    and "exts = concat (map (\<lambda>(t, b). tls_ext t b) pre) @ tls_ext 0 (sni_body name) @ post" and "length exts < 65536"
  shows "client_hello_sni (client_hello hdr sid suites cmprs exts) = Inr (str_of name)"
proof -
  have "length (sni_body name) < 65536" using assms(6) by (simp add: sni_body_def)
  then show ?thesis
    using assms by (simp add: client_hello_extensions sni_extensions_skip sni_extensions_ext sni_name_body)
qed

theorem client_hello_sni_found_witness:
  "client_hello_sni (client_hello (replicate 37 0) [] [19, 1] [0] (tls_ext 43 [2, 3, 4] @ tls_ext 0 (sni_body [97, 46, 98]))) = Inr (str_of [97, 46, 98])"
  by (rule client_hello_sni_found [where pre = "[(43, [2, 3, 4])]" and post = "[]"]) (simp_all add: tls_ext_def sni_body_def)

end
