(* ===== verification/Gateway.thy ===== *)
theory Gateway
  imports Sniff
begin

section \<open>The gateway: forwarding a connection (core/gateway)\<close>

text \<open>
  What the gateway does with a connection once it knows its target: ask the dispatcher for a
  backend and tunnel the connection to it (\<open>forwardSocks5\<close>, \<open>forwardTCP\<close>, \<open>handleHttpProxy\<close>), or
  apply one of the virtual strategies. \<open>dial\<close> is \<open>net.Dial\<close>: it gives the connection to a
  backend, whose input is what the backend will send. The dispatcher is the interface the
  gateway uses it through, a function of the target (\<open>types.Dispatcher\<close>). The two copy loops of a
  tunnel run until their input ends, each on its own connection, so their effect is that all
  bytes of one side are written to the other.
\<close>

datatype report = Failed string | Succeeded string

record served =
  sv_client :: bconn
  sv_dialed :: "(string \<times> conn) option"
  sv_reports :: "report list"

definition report_if :: "bool \<Rightarrow> report \<Rightarrow> report list" where
  "report_if hasReporter r = (if hasReporter then [r] else [])"

subsection \<open>Copy loops\<close>

definition copy_to_backend :: "bytes \<Rightarrow> conn \<Rightarrow> conn" where
  "copy_to_backend b c = (if b = [] then c else snd (the (write_c b c)))"

definition copy_to_client :: "bytes \<Rightarrow> bconn \<Rightarrow> bconn" where
  "copy_to_client b c = (if b = [] then c else snd (the (write_b b c)))"

definition drain :: "conn \<Rightarrow> conn" where
  "drain c = c\<lparr>c_in := (c_in c)\<lparr>sdata := []\<rparr>\<rparr>"

text \<open>Both directions: what is pending on the client's side goes to the backend, what the backend
  sends goes to the client.\<close>

definition pipe :: "bconn \<Rightarrow> conn \<Rightarrow> bconn \<times> conn" where
  "pipe inb outb =
     (copy_to_client (sdata (c_in outb)) (inb\<lparr>b_buf := [], b_net := []\<rparr>),
      copy_to_backend (pending inb) (drain outb))"

subsection \<open>Forwarding\<close>

definition handleSocks5BackendHandshake :: "(conn, unit) io" where
  "handleSocks5BackendHandshake =
     bind_io (write_c [0x05, 0x01, 0x00]) (\<lambda>_.
       bind_io (read_c 2) (\<lambda>resp.
         if resp ! 0 \<noteq> 0x05 then fail_io (Msg ''not a SOCKS5 CONNECT request'') else ret_io ()))"

definition forwardSocks5 :: "(string \<Rightarrow> conn res) \<Rightarrow> bool \<Rightarrow> string \<Rightarrow> string \<Rightarrow> bconn \<Rightarrow> served option" where
  "forwardSocks5 dial hasReporter backendAddr serverID inb =
     (case dial backendAddr of
        Inl e \<Rightarrow> Some \<lparr>sv_client = inb, sv_dialed = None, sv_reports = report_if hasReporter (Failed serverID)\<rparr>
      | Inr outb \<Rightarrow>
          (let reports = report_if hasReporter (Succeeded serverID) in
           case handleSocks5BackendHandshake outb of
             None \<Rightarrow> None
           | Some (Inl e, outb') \<Rightarrow> Some \<lparr>sv_client = inb, sv_dialed = Some (backendAddr, outb'), sv_reports = reports\<rparr>
           | Some (Inr _, outb') \<Rightarrow>
               (let (inb'', outb'') = pipe inb outb' in
                Some \<lparr>sv_client = inb'', sv_dialed = Some (backendAddr, outb''), sv_reports = reports\<rparr>)))"

definition forwardTCP :: "(string \<Rightarrow> conn res) \<Rightarrow> bool \<Rightarrow> string \<Rightarrow> string \<Rightarrow> bconn \<Rightarrow> served option" where
  "forwardTCP dial hasReporter backendAddr serverID inb =
     (case dial backendAddr of
        Inl e \<Rightarrow> Some \<lparr>sv_client = inb, sv_dialed = None, sv_reports = report_if hasReporter (Failed serverID)\<rparr>
      | Inr outb \<Rightarrow>
          (let (inb', outb') = pipe inb outb in
           Some \<lparr>sv_client = inb', sv_dialed = Some (backendAddr, outb'),
                 sv_reports = report_if hasReporter (Succeeded serverID)\<rparr>))"

definition crlf2 :: string where
  "crlf2 = [CHR 0x0D, CHR 0x0A, CHR 0x0D, CHR 0x0A]"

definition bad_gateway :: bytes where
  "bad_gateway = bytes_of (''HTTP/1.1 502 Bad Gateway'' @ crlf2)"

definition connect_ok :: bytes where
  "connect_ok = bytes_of (''HTTP/1.1 200 Connection Established'' @ crlf2)"

text \<open>The request is parsed again from the bytes in the buffer; the copy loops read the
  connection itself, after the buffer was emptied.\<close>

definition handleHttpProxy ::
  "(bytes \<Rightarrow> (string \<times> string) res) \<Rightarrow> (string \<Rightarrow> conn res) \<Rightarrow> bool \<Rightarrow> string \<Rightarrow> string \<Rightarrow> string \<Rightarrow> bconn \<Rightarrow> served option" where
  "handleHttpProxy readRequest dial hasReporter targetDest backendAddr serverID inb =
     (case readRequest (b_buf inb) of
        Inl e \<Rightarrow> Some \<lparr>sv_client = inb, sv_dialed = None, sv_reports = []\<rparr>
      | Inr (method, host) \<Rightarrow>
          (case dialSocksProxy dial hasReporter backendAddr targetDest serverID of
             None \<Rightarrow> None
           | Some (Inl e, failed) \<Rightarrow>
               Some \<lparr>sv_client = copy_to_client bad_gateway inb, sv_dialed = None, sv_reports = map Failed failed\<rparr>
           | Some (Inr outb, failed) \<Rightarrow>
               (let rest = inb\<lparr>b_buf := []\<rparr> in
                if method = ''CONNECT'' then
                  (case write_b connect_ok rest of
                     Some (Inr _, rest') \<Rightarrow>
                       (let (inb', outb') = pipe rest' outb in
                        Some \<lparr>sv_client = inb', sv_dialed = Some (backendAddr, outb'), sv_reports = map Failed failed\<rparr>)
                   | Some (Inl e, rest') \<Rightarrow>
                       Some \<lparr>sv_client = rest', sv_dialed = Some (backendAddr, outb), sv_reports = map Failed failed\<rparr>
                   | None \<Rightarrow> None)
                else
                  (case write_c (b_buf inb) outb of
                     Some (Inr _, outb') \<Rightarrow>
                       (let (inb', outb'') = pipe rest outb' in
                        Some \<lparr>sv_client = inb', sv_dialed = Some (backendAddr, outb''), sv_reports = map Failed failed\<rparr>)
                   | Some (Inl e, outb') \<Rightarrow>
                       Some \<lparr>sv_client = rest, sv_dialed = Some (backendAddr, outb'), sv_reports = map Failed failed\<rparr>
                   | None \<Rightarrow> None))))"

subsection \<open>Virtual strategies\<close>

text \<open>\<open>net.ResolveTCPAddr\<close> may fail; the nil address prints as \<open>"<nil>"\<close> and is dialled anyway.\<close>

definition addr_string :: "string option \<Rightarrow> string" where
  "addr_string a = (case a of Some s \<Rightarrow> s | None \<Rightarrow> ''<nil>'')"

definition direct_Handle :: "(string \<Rightarrow> conn res) \<Rightarrow> string option \<Rightarrow> bconn \<Rightarrow> served" where
  "direct_Handle dial target inb =
     (case dial (addr_string target) of
        Inl e \<Rightarrow> \<lparr>sv_client = inb, sv_dialed = None, sv_reports = []\<rparr>
      | Inr outb \<Rightarrow>
          (let (inb', outb') = pipe inb outb in
           \<lparr>sv_client = inb', sv_dialed = Some (addr_string target, outb'), sv_reports = []\<rparr>))"

definition reject_Handle :: "string option \<Rightarrow> bconn \<Rightarrow> served" where
  "reject_Handle target inb = \<lparr>sv_client = inb, sv_dialed = None, sv_reports = []\<rparr>"

subsection \<open>handleConnection\<close>

definition handleConnection ::
  "(bytes \<Rightarrow> (string \<times> string) res) \<Rightarrow> (string \<Rightarrow> string option) \<Rightarrow> (string \<Rightarrow> conn res) \<Rightarrow> bool \<Rightarrow>
     (string \<Rightarrow> (string \<times> string) res) \<Rightarrow> bconn \<Rightarrow> served option" where
  "handleConnection readRequest resolve dial hasReporter dispatch inb =
     (case sniffTargetForRouting readRequest inb of
        None \<Rightarrow> None
      | Some (Inl e, c) \<Rightarrow> Some \<lparr>sv_client = c, sv_dialed = None, sv_reports = []\<rparr>
      | Some (Inr (targetDest, proto), c) \<Rightarrow>
          (case dispatch targetDest of
             Inl e \<Rightarrow> Some \<lparr>sv_client = c, sv_dialed = None, sv_reports = []\<rparr>
           | Inr (backendAddr, serverID) \<Rightarrow>
               if backendAddr = ''DIRECT'' then Some (direct_Handle dial (resolve targetDest) c)
               else if backendAddr = ''REJECT'' then Some (reject_Handle (resolve targetDest) c)
               else
                 (case proto of
                    ProtoSOCKS5 \<Rightarrow> forwardSocks5 dial hasReporter backendAddr serverID c
                  | ProtoHTTP \<Rightarrow> handleHttpProxy readRequest dial hasReporter targetDest backendAddr serverID c
                  | ProtoTLS \<Rightarrow> forwardTCP dial hasReporter backendAddr serverID c
                  | ProtoUnknown \<Rightarrow> Some \<lparr>sv_client = c, sv_dialed = None, sv_reports = []\<rparr>)))"

subsection \<open>Start, the accept loop and Close\<close>

record gateway =
  gw_port :: int
  gw_listening :: bool
  gw_closed :: bool
  gw_accepting :: bool
  gw_handlers :: nat

definition New :: "int \<Rightarrow> gateway" where
  "New listenPort = \<lparr>gw_port = listenPort, gw_listening = False, gw_closed = False, gw_accepting = False, gw_handlers = 0\<rparr>"

text \<open>\<open>listen\<close> is the outcome of \<open>net.Listen\<close>.\<close>

definition gateway_Start :: "goerr option \<Rightarrow> gateway \<Rightarrow> (unit res \<times> gateway)" where
  "gateway_Start listen g =
     (case listen of
        Some e \<Rightarrow> (Inl (Wrap (''gateway failed to listen on 0.0.0.0:'' @ itoa (gw_port g)) e), g)
      | None \<Rightarrow> (Inr (), g\<lparr>gw_listening := True, gw_accepting := True\<rparr>))"

text \<open>One round of the accept loop: a connection, the error of a closed listener, or another error.\<close>

datatype accepted = NewConn | ListenerClosed | AcceptError

definition acceptLoop :: "accepted \<Rightarrow> gateway \<Rightarrow> gateway" where
  "acceptLoop a g =
     (case a of
        NewConn \<Rightarrow> g\<lparr>gw_handlers := Suc (gw_handlers g)\<rparr>
      | ListenerClosed \<Rightarrow> g\<lparr>gw_accepting := False\<rparr>
      | AcceptError \<Rightarrow> g)"

definition handler_done :: "gateway \<Rightarrow> gateway" where
  "handler_done g = g\<lparr>gw_handlers := gw_handlers g - 1\<rparr>"

text \<open>\<open>Close\<close> up to the wait, and whether the wait is over.\<close>

definition gateway_Close :: "gateway \<Rightarrow> gateway" where
  "gateway_Close g = (if gw_closed g then g else g\<lparr>gw_closed := True, gw_listening := False\<rparr>)"

definition wait_over :: "gateway \<Rightarrow> bool" where
  "wait_over g \<longleftrightarrow> \<not> gw_accepting g \<and> gw_handlers g = 0"

subsection \<open>What a connection can reach\<close>

lemma forwardSocks5_dials:
  "forwardSocks5 dial hr a sid c = Some s \<Longrightarrow>
     (\<forall>b k. sv_dialed s = Some (b, k) \<longrightarrow> b = a) \<and> set (sv_reports s) \<subseteq> {Failed sid, Succeeded sid}"
  by (auto simp: forwardSocks5_def report_if_def Let_def split: sum.splits option.splits prod.splits if_splits)

lemma forwardTCP_dials:
  "forwardTCP dial hr a sid c = Some s \<Longrightarrow>
     (\<forall>b k. sv_dialed s = Some (b, k) \<longrightarrow> b = a) \<and> set (sv_reports s) \<subseteq> {Failed sid, Succeeded sid}"
  by (auto simp: forwardTCP_def report_if_def split: sum.splits prod.splits if_splits)

lemma dialSocksProxy_reports: "dialSocksProxy dial hr a t sid = Some (r, failed) \<Longrightarrow> set failed \<subseteq> {sid}"
  by (auto simp: dialSocksProxy_def split: sum.splits option.splits if_splits)

lemma handleHttpProxy_dials:
  "handleHttpProxy rr dial hr t a sid c = Some s \<Longrightarrow>
     (\<forall>b k. sv_dialed s = Some (b, k) \<longrightarrow> b = a) \<and> set (sv_reports s) \<subseteq> {Failed sid, Succeeded sid}"
  by (auto simp: handleHttpProxy_def Let_def split: sum.splits option.splits prod.splits if_splits dest!: dialSocksProxy_reports)

lemmas forwarders_dial = forwardSocks5_dials forwardTCP_dials handleHttpProxy_dials


subsection \<open>SOCKS5 through the gateway\<close>

lemma backend_handshake_live:
  "handleSocks5BackendHandshake (live (5 # m # reply) e out) = Some (Inr (), live reply e (out @ [5, 1, 0]))"
  by (simp add: handleSocks5BackendHandshake_def io_simps read_conses)

lemma copy_to_backend_live: "copy_to_backend b (live i e out) = live i e (out @ b)"
  by (simp add: copy_to_backend_def)

lemma copy_to_client_ok: "b_wres c = [] \<Longrightarrow> copy_to_client b c = c\<lparr>b_out := b_out c @ b\<rparr>"
  by (simp add: copy_to_client_def write_b_def)

lemma drain_live: "drain (live i e out) = live [] e out"
  by (simp add: drain_def live_def)

lemma sdata_live: "sdata (c_in (live i e out)) = i"
  by (simp add: live_def)

lemmas pipe_live = pipe_def copy_to_backend_live copy_to_client_ok drain_live sdata_live

lemma forwardSocks5_live:
  assumes "dial a = Inr (live (5 # m # reply) e [])" and "b_wres c = []"
  shows "\<exists>c'. forwardSocks5 dial hr a sid c = Some \<lparr>sv_client = c', sv_dialed = Some (a, live [] e ([5, 1, 0] @ pending c)),
       sv_reports = report_if hr (Succeeded sid)\<rparr> \<and> b_out c' = b_out c @ reply"
  using assms by (simp add: forwardSocks5_def backend_handshake_live pipe_live)

lemma sniff_socks5_full:
  assumes "b_buf c = []" and "b_net c = socks_hello ms # (socks_request 5 1 rsv d port @ extra) # segs"
    and "length ms \<le> 255" and "dest_ok True d" and "length (socks_request 5 1 rsv d port @ extra) \<le> buf_size"
    and "b_wres c = []"
  shows "sniffTargetForRouting rr c = Some (Inr (dest_target d port, ProtoSOCKS5),
     c\<lparr>b_buf := socks_request 5 1 rsv d port @ extra, b_net := segs, b_out := b_out c @ [5, 0]\<rparr>)"
proof -
  let ?c = "c\<lparr>b_net := (socks_request 5 1 rsv d port @ extra) # segs, b_out := b_out c @ [5, 0]\<rparr>"
  have "sniff_request ?c = Some (Inr (dest_target d port), ?c\<lparr>b_buf := socks_request 5 1 rsv d port @ extra, b_net := segs\<rparr>)"
    by (rule sniff_request_segment) (use assms in simp_all)
  then show ?thesis
    using sniff_dispatch_socks [OF assms(1-3,6), of rr] by (simp add: bind_io_def ret_io_def)
qed

definition socks_client_conn :: "bytes \<Rightarrow> byte \<Rightarrow> dest \<Rightarrow> 16 word \<Rightarrow> bytes \<Rightarrow> bytes list \<Rightarrow> goerr \<Rightarrow> bconn" where
  "socks_client_conn ms rsv d port extra segs e =
     fresh_bconn (socks_hello ms # (socks_request 5 1 rsv d port @ extra) # segs) e"

text \<open>
  C4. What was routed is what is reached: for a SOCKS5 client whose request arrives whole, the bytes
  the gateway writes to the chosen backend make the backend's SOCKS5 server (goremote, worker
  or VLESS, whichever listens there and knows the address type) return CONNECT for exactly the
  target the dispatcher was asked about, with the client's following bytes next in its input.
\<close>

theorem routed_target_is_backend_target:
  assumes "length ms \<le> 255" and "length (socks_request 5 1 rsv d port @ extra) \<le> buf_size"
    and "dispatch (dest_target d port) = Inr (addr, sid)" and "addr \<noteq> ''DIRECT''" and "addr \<noteq> ''REJECT''"
    and "dial addr = Inr (live (5 # m # reply) e [])"
    and "hs = HandshakeWithClient \<and> dest_ok False d \<or> hs = worker_HandshakeWithClient \<and> dest_ok False d
         \<or> hs = HandshakeSocks5AndGetResponse \<and> dest_ok True d"
  shows "\<exists>s backend. handleConnection readRequest resolve dial hasReporter dispatch (socks_client_conn ms rsv d port extra segs e') = Some s
     \<and> sv_dialed s = Some (addr, backend) \<and> b_out (sv_client s) = [5, 0] @ reply
     \<and> (\<exists>out'. hs (live (c_out backend) e'' out) = Some (Inr (1, dest_target d port), live (extra @ concat segs) e'' out'))"
proof -
  let ?c = "socks_client_conn ms rsv d port extra segs e'"
  let ?c1 = "?c\<lparr>b_buf := socks_request 5 1 rsv d port @ extra, b_net := segs, b_out := [5, 0]\<rparr>"
  have d: "dest_ok True d" using assms(7) by (cases d) auto
  have sn: "sniffTargetForRouting readRequest ?c = Some (Inr (dest_target d port, ProtoSOCKS5), ?c1)"
    using sniff_socks5_full [of ?c ms rsv d port extra segs readRequest] assms(1,2) d
    by (simp add: socks_client_conn_def fresh_bconn_def)
  from forwardSocks5_live [of dial addr m reply e ?c1 hasReporter sid] assms(6) obtain c' where
    f: "forwardSocks5 dial hasReporter addr sid ?c1 = Some \<lparr>sv_client = c', sv_dialed = Some (addr, live [] e ([5, 1, 0] @ pending ?c1)),
       sv_reports = report_if hasReporter (Succeeded sid)\<rparr>" and out: "b_out c' = [5, 0] @ reply"
    by (auto simp: socks_client_conn_def fresh_bconn_def)
  have p: "[5, 1, 0] @ pending ?c1 = socks_hello [0] @ socks_request 5 1 rsv d port @ (extra @ concat segs)"
    by (simp add: pending_def socks_hello_def)
  have srv: "\<exists>out'. hs (live ([5, 1, 0] @ pending ?c1) e'' out) = Some (Inr (1, dest_target d port), live (extra @ concat segs) e'' out')"
    unfolding p using assms(7) goremote_socks.accepts [of d "[0]"] worker_socks.accepts [of d "[0]"] vless_socks.accepts [of d "[0]"]
    by fastforce
  show ?thesis
    using sn assms(3-5) f out srv by (simp add: handleConnection_def)
qed

definition demo_dial :: "string \<Rightarrow> conn res" where
  "demo_dial a = (if a = ''127.0.0.1:1001'' then Inr (live ([5, 0] @ socks_granted) EOF []) else Inl (OSErr ''connection refused''))"

definition demo_client :: bconn where
  "demo_client = socks_client_conn [0] 0 (V4 [8, 8, 4, 4]) 80 [22, 3] [[1]] EOF"

theorem routed_target_is_backend_target_witness:
  "\<exists>s backend. handleConnection (\<lambda>_. Inl EOF) (\<lambda>_. None) demo_dial True (\<lambda>_. Inr (''127.0.0.1:1001'', ''s1'')) demo_client = Some s
     \<and> sv_dialed s = Some (''127.0.0.1:1001'', backend) \<and> b_out (sv_client s) = [5, 0] @ socks_granted
     \<and> (\<exists>out'. HandshakeSocks5AndGetResponse (live (c_out backend) EOF []) = Some (Inr (1, dest_target (V4 [8, 8, 4, 4]) 80), live [22, 3, 1] EOF out'))"
  using routed_target_is_backend_target [of "[0]" 0 "V4 [8, 8, 4, 4]" 80 "[22, 3]" "\<lambda>_. Inr (''127.0.0.1:1001'', ''s1'')" "''127.0.0.1:1001''" "''s1''"
      demo_dial 0 socks_granted EOF HandshakeSocks5AndGetResponse "\<lambda>_. Inl EOF" "\<lambda>_. None" True "[[1]]" EOF EOF "[]"]
  by (simp add: demo_client_def demo_dial_def socks_request_def buf_size_def)


subsection \<open>The virtual strategies and HTTP CONNECT\<close>

text \<open>
  DIRECT does not speak SOCKS5 for the client: under a DIRECT rule the target is sent the
  client's SOCKS5 CONNECT request itself, ahead of the client's data, and the client never
  gets a reply to its request, only what the target answers to those bytes.
\<close>

lemma direct_forwards_socks_request:
  assumes "length ms \<le> 255" and "dest_ok True d" and "length (socks_request 5 1 rsv d port @ extra) \<le> buf_size"
    and "dispatch (dest_target d port) = Inr (''DIRECT'', sid)"
    and "resolve (dest_target d port) = Some addr" and "dial addr = Inr (live answer e [])"
  shows "\<exists>s backend. handleConnection readRequest resolve dial hasReporter dispatch (socks_client_conn ms rsv d port extra segs e') = Some s
     \<and> sv_dialed s = Some (addr, backend) \<and> c_out backend = socks_request 5 1 rsv d port @ extra @ concat segs
     \<and> b_out (sv_client s) = [5, 0] @ answer"
proof -
  let ?c = "socks_client_conn ms rsv d port extra segs e'"
  have sn: "sniffTargetForRouting readRequest ?c = Some (Inr (dest_target d port, ProtoSOCKS5),
     ?c\<lparr>b_buf := socks_request 5 1 rsv d port @ extra, b_net := segs, b_out := [5, 0]\<rparr>)"
    using sniff_socks5_full [of ?c ms rsv d port extra segs readRequest] assms(1-3)
    by (simp add: socks_client_conn_def fresh_bconn_def)
  then show ?thesis
    using assms(4-6)
    by (simp add: handleConnection_def direct_Handle_def addr_string_def pipe_live pending_def socks_client_conn_def fresh_bconn_def)
qed

lemma direct_forwards_socks_request_witness:
  "\<exists>s backend. handleConnection (\<lambda>_. Inl EOF) Some (\<lambda>_. Inr (live [9] EOF [])) True (\<lambda>_. Inr (''DIRECT'', ''DIRECT'')) demo_client = Some s
     \<and> sv_dialed s = Some (dest_target (V4 [8, 8, 4, 4]) 80, backend)
     \<and> c_out backend = [5, 1, 0, 1, 8, 8, 4, 4, 0, 80, 22, 3, 1] \<and> b_out (sv_client s) = [5, 0, 9]"
  using direct_forwards_socks_request [of "[0]" "V4 [8, 8, 4, 4]" 0 80 "[22, 3]" "\<lambda>_. Inr (''DIRECT'', ''DIRECT'')" "''DIRECT''" Some
      "dest_target (V4 [8, 8, 4, 4]) 80" "\<lambda>_. Inr (live [9] EOF [])" "[9]" EOF "\<lambda>_. Inl EOF" True "[[1]]" EOF]
  by (simp add: demo_client_def socks_request_def buf_size_def put16_def)

text \<open>
  HTTP proxying hands the tunnel over: after a CONNECT the backend gets exactly the bytes the
  client sends after the buffered read that held the request, and after any other method the
  buffered request first and then those bytes; the client gets the 200 line (for CONNECT
  only) and then what the backend sends. Bytes that share the read of a CONNECT request are
  dropped.
\<close>

lemma http_proxy_tunnel:
  assumes "readRequest (b_buf c) = Inr (method, host)"
    and "dialSocksProxy dial hasReporter addr target sid = Some (Inr (live answer e req), [])" and "b_wres c = []"
  shows "\<exists>s backend. handleHttpProxy readRequest dial hasReporter target addr sid c = Some s \<and> sv_dialed s = Some (addr, backend)
     \<and> c_out backend = req @ (if method = ''CONNECT'' then [] else b_buf c) @ concat (b_net c)
     \<and> b_out (sv_client s) = b_out c @ (if method = ''CONNECT'' then connect_ok else []) @ answer \<and> sv_reports s = []"
  using assms by (simp add: handleHttpProxy_def Let_def pipe_live pending_def write_b_def)


lemma http_proxy_tunnel_witness:
  "\<exists>s backend. handleHttpProxy (\<lambda>_. Inr (''CONNECT'', ''a.b:443'')) (\<lambda>_. Inr (live ([5, 0] @ socks_granted @ [8]) EOF [])) True
       (join_host_port ''a.b'' (show_nat 443)) ''127.0.0.1:1'' ''s1'' ((fresh_bconn [[22, 3]] EOF)\<lparr>b_buf := [67, 79]\<rparr>) = Some s
     \<and> sv_dialed s = Some (''127.0.0.1:1'', backend)
     \<and> c_out backend = [5, 1, 0] @ socks_request 5 1 0 (dest_of_host ''a.b'') (word_of_nat 443) @ [22, 3]"
proof -
  let ?t = "join_host_port ''a.b'' (show_nat 443)" and ?req = "socks_request 5 1 0 (dest_of_host ''a.b'') (word_of_nat 443)"
  have "socks_connect_request ?t = Inr ?req"
    by (rule connect_request_join) (simp_all add: host_ok_def short_host_def)
  from client_run [OF this, of "[8]" EOF]
  have "dialSocksProxy (\<lambda>_. Inr (live ([5, 0] @ socks_granted @ [8]) EOF [])) True ''127.0.0.1:1'' ?t ''s1''
      = Some (Inr (live [8] EOF ([5, 1, 0] @ ?req)), [])"
    by (simp add: dialSocksProxy_def)
  from http_proxy_tunnel [OF _ this, of "\<lambda>_. Inr (''CONNECT'', ''a.b:443'')" "(fresh_bconn [[22, 3]] EOF)\<lparr>b_buf := [67, 79]\<rparr>"]
  show ?thesis by (auto simp: fresh_bconn_def)
qed

end
