(* ===== verification/AppServer.thy ===== *)
theory AppServer
  imports Types
begin

section \<open>The application server (internal/app, internal/core/health, internal/tunnel/factory.go)\<close>

text \<open>
  The application server owns the servers in two zones: the A zone (\<open>configState\<close>) that the
  web interface and the health checks change under \<open>configLock\<close>, and the B zone (\<open>workState\<close>)
  that live traffic reads. \<open>ReloadStrategy\<close> publishes a copy of the A zone, but the copies keep
  the \<open>Profile\<close> and \<open>Instance\<close> pointers, so the objects behind them are shared: they live here
  in two heaps, \<open>ap_profiles\<close> and \<open>ap_insts\<close>, and a pointer is an index. The goroutines the
  operations start are kept in \<open>ap_jobs\<close> until they run. An operation is one atomic step, as its
  lock makes it, except that \<open>UpdateServerActiveState\<close> releases the lock between its lookup and
  its change. The order in which Go ranges over a map is the order of the association list,
  about which nothing is assumed.

  What a strategy does when it is created, initialised or checked is the environment \<open>env\<close>.
\<close>

subsection \<open>The strategy factory\<close>

datatype strategy_kind = VlessKind | WorkerKind | GoRemoteKind

record env =
  ev_new :: "strategy_kind \<Rightarrow> server_profile \<Rightarrow> goerr option"
  ev_init :: "nat \<Rightarrow> server_profile \<Rightarrow> listener_info res"
  ev_health :: "nat \<Rightarrow> goerr option"
  ev_active :: "nat \<Rightarrow> int"
  ev_latency :: "nat \<Rightarrow> int"
  ev_save :: "goerr option"

definition construct :: "env \<Rightarrow> strategy_kind \<Rightarrow> server_profile \<Rightarrow> strategy_kind option res" where
  "construct env k p = (case ev_new env k p of Some e \<Rightarrow> Inl e | None \<Rightarrow> Inr (Some k))"

definition NewStrategy :: "env \<Rightarrow> server_profile list \<Rightarrow> strategy_kind option res" where
  "NewStrategy env profiles =
     (case find pf_active profiles of
        None \<Rightarrow> Inr None
      | Some p \<Rightarrow>
          if pf_type p = ''vless'' then construct env VlessKind p
          else if pf_type p = ''worker'' then construct env WorkerKind p
          else if pf_type p = ''goremote'' \<or> pf_type p = ''remote'' \<or> pf_type p = [] then construct env GoRemoteKind p
          else Inl (Msg (''unknown or unsupported strategy type: '' @ [CHR 0x27] @ pf_type p @ [CHR 0x27])))"

subsection \<open>State\<close>

record inst =
  in_profile :: nat
  in_running :: bool
  in_listener :: "listener_info option"

record zstate =
  zs_profile :: nat
  zs_instance :: "nat option"
  zs_health :: health_status
  zs_metrics :: "metrics option"

datatype job = JPublishSave | JSave | JRouting | JCheck string

record app =
  ap_profiles :: "server_profile list"
  ap_insts :: "inst list"
  ap_config :: "zstate gomap"
  ap_work :: "zstate gomap"
  ap_failures :: "nat gomap"
  ap_jobs :: "job list"
  ap_file :: "server_profile list"

abbreviation prof :: "app \<Rightarrow> zstate \<Rightarrow> server_profile" where
  "prof a z \<equiv> ap_profiles a ! zs_profile z"

definition new_app :: "server_profile list \<Rightarrow> app" where
  "new_app file = \<lparr>ap_profiles = [], ap_insts = [], ap_config = [], ap_work = [], ap_failures = [], ap_jobs = [], ap_file = file\<rparr>"

definition put_state :: "string \<Rightarrow> zstate \<Rightarrow> app \<Rightarrow> app" where
  "put_state sid z a = a\<lparr>ap_config := gm_put sid z (ap_config a)\<rparr>"

definition set_active :: "nat \<Rightarrow> bool \<Rightarrow> app \<Rightarrow> app" where
  "set_active p b a = a\<lparr>ap_profiles := (ap_profiles a)[p := (ap_profiles a ! p)\<lparr>pf_active := b\<rparr>]\<rparr>"

definition CloseTunnel :: "nat \<Rightarrow> app \<Rightarrow> app" where
  "CloseTunnel p a = a\<lparr>ap_insts := (ap_insts a)[p := (ap_insts a ! p)\<lparr>in_running := False\<rparr>]\<rparr>"

definition start_job :: "job \<Rightarrow> app \<Rightarrow> app" where
  "start_job j a = a\<lparr>ap_jobs := ap_jobs a @ [j]\<rparr>"

subsection \<open>Instances\<close>

definition stop_one :: "string \<Rightarrow> app \<Rightarrow> app" where
  "stop_one sid a =
     (case gm_get (ap_config a) sid of
        None \<Rightarrow> a
      | Some z \<Rightarrow>
          (case zs_instance z of
             Some p \<Rightarrow> if \<not> pf_active (prof a z) then put_state sid (z\<lparr>zs_instance := None\<rparr>) (CloseTunnel p a) else a
           | None \<Rightarrow> a))"

definition start_one :: "env \<Rightarrow> string \<Rightarrow> app \<Rightarrow> app" where
  "start_one env sid a =
     (case gm_get (ap_config a) sid of
        None \<Rightarrow> a
      | Some z \<Rightarrow>
          if pf_active (prof a z) \<and> zs_instance z = None then
            (case NewStrategy env [prof a z] of
               Inl e \<Rightarrow> set_active (zs_profile z) False a
             | Inr _ \<Rightarrow>
                 (let p = length (ap_insts a) in
                  case ev_init env p (prof a z) of
                    Inl e \<Rightarrow>
                      set_active (zs_profile z) False
                        (a\<lparr>ap_insts := ap_insts a @ [\<lparr>in_profile = zs_profile z, in_running = False, in_listener = None\<rparr>]\<rparr>)
                  | Inr li \<Rightarrow>
                      put_state sid (z\<lparr>zs_instance := Some p, zs_health := StatusUp\<rparr>)
                        (a\<lparr>ap_insts := ap_insts a @ [\<lparr>in_profile = zs_profile z, in_running = True, in_listener = Some li\<rparr>]\<rparr>)))
          else a)"

definition manageInstances :: "env \<Rightarrow> app \<Rightarrow> app" where
  "manageInstances env a =
     (let ids = map fst (ap_config a) in fold (start_one env) ids (fold stop_one ids a))"

subsection \<open>Publication and persistence\<close>

definition deepCopyAppState :: "zstate gomap \<Rightarrow> zstate gomap" where
  "deepCopyAppState original =
     map (\<lambda>(sid, z). (sid, \<lparr>zs_profile = zs_profile z, zs_instance = zs_instance z, zs_health = zs_health z,
       zs_metrics = (case zs_metrics z of None \<Rightarrow> None | Some m \<Rightarrow> Some \<lparr>mt_active = mt_active m, mt_latency = mt_latency m\<rparr>)\<rparr>)) original"

definition ReloadStrategy :: "app \<Rightarrow> app" where
  "ReloadStrategy a = start_job JRouting (a\<lparr>ap_work := deepCopyAppState (ap_config a)\<rparr>)"

definition SaveServers :: "env \<Rightarrow> server_profile list \<Rightarrow> app \<Rightarrow> (unit res \<times> app)" where
  "SaveServers env profiles a =
     (case ev_save env of Some e \<Rightarrow> (Inl e, a) | None \<Rightarrow> (Inr (), a\<lparr>ap_file := profiles\<rparr>))"

definition SaveConfigToFile :: "env \<Rightarrow> app \<Rightarrow> (unit res \<times> app)" where
  "SaveConfigToFile env a = SaveServers env (map (\<lambda>(sid, z). prof a z) (ap_config a)) a"

definition GetAllServerProfilesSorted :: "(server_profile list \<Rightarrow> server_profile list) \<Rightarrow> app \<Rightarrow> server_profile list" where
  "GetAllServerProfilesSorted srt a = srt (map (\<lambda>(sid, z). prof a z) (ap_config a))"

text \<open>What a reader of a zone sees when it follows the pointers.\<close>

definition state_view :: "app \<Rightarrow> zstate \<Rightarrow> server_state" where
  "state_view a z = \<lparr>ss_profile = prof a z, ss_instance = map_option (\<lambda>p. in_listener (ap_insts a ! p)) (zs_instance z),
     ss_health = zs_health z, ss_metrics = zs_metrics z\<rparr>"

definition GetServerStates :: "app \<Rightarrow> server_states" where
  "GetServerStates a = map (\<lambda>(sid, z). (sid, state_view a z)) (deepCopyAppState (ap_work a))"

subsection \<open>Loading\<close>

definition initial_metrics :: metrics where
  "initial_metrics = \<lparr>mt_active = -1, mt_latency = -1\<rparr>"

definition new_state :: "nat \<Rightarrow> zstate" where
  "new_state p = \<lparr>zs_profile = p, zs_instance = None, zs_health = StatusUnknown, zs_metrics = Some initial_metrics\<rparr>"

text \<open>\<open>fresh\<close> gives the n-th UUID; a profile without an ID gets one.\<close>

fun assign_ids :: "(nat \<Rightarrow> string) \<Rightarrow> nat \<Rightarrow> server_profile list \<Rightarrow> server_profile list" where
  "assign_ids fresh n [] = []"
| "assign_ids fresh n (p # ps) =
     (if pf_id p = [] then p\<lparr>pf_id := fresh n\<rparr> else p) # assign_ids fresh (Suc n) ps"

definition add_loaded :: "server_profile \<Rightarrow> app \<Rightarrow> app" where
  "add_loaded p a =
     (let ptr = length (ap_profiles a) in
      put_state (pf_id p) (new_state ptr) (a\<lparr>ap_profiles := ap_profiles a @ [p]\<rparr>))"

text \<open>\<open>loaded\<close> is the result of \<open>config.LoadServers\<close>.\<close>

definition loadConfigFromFile ::
  "env \<Rightarrow> (nat \<Rightarrow> string) \<Rightarrow> string \<Rightarrow> server_profile list res \<Rightarrow> app \<Rightarrow> (unit res \<times> app)" where
  "loadConfigFromFile env fresh path loaded a =
     (case loaded of
        Inl e \<Rightarrow> (Inl (Wrap (''failed to load server profiles from '' @ path) e), a)
      | Inr ps \<Rightarrow>
          (let profiles = assign_ids fresh 0 ps;
               a' = fold add_loaded profiles (a\<lparr>ap_config := []\<rparr>)
           in (Inr (), snd (SaveServers env profiles a'))))"

subsection \<open>Operations of the web interface\<close>

definition UpdateServerActiveState :: "env \<Rightarrow> string \<Rightarrow> bool \<Rightarrow> app \<Rightarrow> (unit res \<times> app)" where
  "UpdateServerActiveState env sid active a =
     (case gm_get (ap_config a) sid of
        None \<Rightarrow> (Inl (Msg (''server with id '' @ sid @ '' not found in config state'')), a)
      | Some z \<Rightarrow>
          if pf_active (prof a z) = active then (Inr (), a)
          else (Inr (), start_job JSave (ReloadStrategy (manageInstances env (set_active (zs_profile z) active a)))))"

definition AddServerProfile :: "server_profile \<Rightarrow> app \<Rightarrow> (unit res \<times> app)" where
  "AddServerProfile profile a =
     (if pf_id profile = [] then (Inl (Msg ''profile must have an ID''), a)
      else if gm_get (ap_config a) (pf_id profile) \<noteq> None
      then (Inl (Msg (''server with id '' @ pf_id profile @ '' already exists'')), a)
      else (Inr (), start_job JPublishSave (add_loaded profile a)))"

definition UpdateServerProfile :: "env \<Rightarrow> string \<Rightarrow> server_profile \<Rightarrow> app \<Rightarrow> (unit res \<times> app)" where
  "UpdateServerProfile env sid updatedProfile a =
     (case gm_get (ap_config a) sid of
        None \<Rightarrow> (Inl (Msg (''server with id '' @ sid @ '' not found'')), a)
      | Some z \<Rightarrow>
          (let p' = updatedProfile\<lparr>pf_active := pf_active (prof a z)\<rparr>;
               ptr = length (ap_profiles a);
               a1 = a\<lparr>ap_profiles := ap_profiles a @ [p']\<rparr>;
               z1 = z\<lparr>zs_profile := ptr\<rparr>;
               a2 = (case zs_instance z of
                       Some i \<Rightarrow> if pf_active p' then manageInstances env (put_state sid (z1\<lparr>zs_instance := None\<rparr>) (CloseTunnel i a1))
                                else put_state sid z1 a1
                     | None \<Rightarrow> put_state sid z1 a1)
           in (Inr (), start_job JPublishSave a2)))"

definition DeleteServerProfile :: "string \<Rightarrow> app \<Rightarrow> (unit res \<times> app)" where
  "DeleteServerProfile sid a =
     (case gm_get (ap_config a) sid of
        None \<Rightarrow> (Inl (Msg (''server with id '' @ sid @ '' not found'')), a)
      | Some z \<Rightarrow>
          (let a1 = (case zs_instance z of Some i \<Rightarrow> CloseTunnel i a | None \<Rightarrow> a)
           in (Inr (), start_job JPublishSave (a1\<lparr>ap_config := gm_del sid (ap_config a1)\<rparr>))))"

subsection \<open>Health\<close>

text \<open>\<open>Checker.Check\<close>: one goroutine per instance, each writing its own key.\<close>

definition check_instance :: "env \<Rightarrow> app \<Rightarrow> nat \<Rightarrow> health_status \<times> metrics" where
  "check_instance env a p =
     (let m = \<lparr>mt_active = ev_active env p, mt_latency = -1\<rparr> in
      case in_listener (ap_insts a ! p) of
        None \<Rightarrow> (StatusDown, m)
      | Some li \<Rightarrow>
          if li_port li = 0 then (StatusDown, m)
          else case ev_health env p of
                 None \<Rightarrow> (StatusUp, m\<lparr>mt_latency := ev_latency env p\<rparr>)
               | Some e \<Rightarrow> (StatusDown, m))"

definition Check :: "env \<Rightarrow> app \<Rightarrow> nat gomap \<Rightarrow> health_status gomap \<times> metrics gomap" where
  "Check env a instancesToCheck =
     (map (\<lambda>(sid, p). (sid, fst (check_instance env a p))) instancesToCheck,
      map (\<lambda>(sid, p). (sid, snd (check_instance env a p))) instancesToCheck)"

definition instances_to_check :: "app \<Rightarrow> nat gomap" where
  "instances_to_check a =
     List.map_filter (\<lambda>(sid, z). if pf_active (prof a z) then map_option (\<lambda>p. (sid, p)) (zs_instance z) else None) (ap_config a)"

definition apply_health :: "metrics gomap \<Rightarrow> string \<times> health_status \<Rightarrow> app \<times> bool \<Rightarrow> app \<times> bool" where
  "apply_health mm idh ac =
     (case gm_get (ap_config (fst ac)) (fst idh) of
        None \<Rightarrow> ac
      | Some z \<Rightarrow>
          (put_state (fst idh) (z\<lparr>zs_health := snd idh, zs_metrics := gm_get mm (fst idh)\<rparr>) (fst ac),
           snd ac \<or> zs_health z \<noteq> snd idh))"

definition runHealthChecks :: "env \<Rightarrow> app \<Rightarrow> app" where
  "runHealthChecks env a =
     (let todo = instances_to_check a in
      if todo = [] then a
      else let (hm, mm) = Check env a todo; (a', changed) = fold (apply_health mm) hm (a, False)
           in if changed then ReloadStrategy a' else a')"

definition triggerSingleHealthCheck :: "env \<Rightarrow> string \<Rightarrow> app \<Rightarrow> app" where
  "triggerSingleHealthCheck env sid a =
     (case gm_get (ap_config a) sid of
        None \<Rightarrow> a
      | Some z \<Rightarrow>
          (case zs_instance z of
             None \<Rightarrow> a
           | Some p \<Rightarrow>
               (let newHealth = (if ev_health env p = None then StatusUp else StatusDown);
                    a' = put_state sid (z\<lparr>zs_health := newHealth\<rparr>) a
                in if newHealth \<noteq> zs_health z then ReloadStrategy a' else a')))"

definition ReportFailure :: "string \<Rightarrow> app \<Rightarrow> app" where
  "ReportFailure sid a =
     (let count = (case gm_get (ap_failures a) sid of None \<Rightarrow> 0 | Some n \<Rightarrow> n) + 1 in
      if count \<ge> 5 then start_job (JCheck sid) (a\<lparr>ap_failures := gm_put sid 0 (ap_failures a)\<rparr>)
      else a\<lparr>ap_failures := gm_put sid count (ap_failures a)\<rparr>)"

definition ReportSuccess :: "string \<Rightarrow> app \<Rightarrow> app" where
  "ReportSuccess sid a =
     (if gm_get (ap_failures a) sid \<noteq> None then a\<lparr>ap_failures := gm_put sid 0 (ap_failures a)\<rparr> else a)"

subsection \<open>Bootstrap and goroutines\<close>

definition loadConfigAndBootstrap ::
  "env \<Rightarrow> (nat \<Rightarrow> string) \<Rightarrow> string \<Rightarrow> server_profile list res \<Rightarrow> app \<Rightarrow> (unit res \<times> app)" where
  "loadConfigAndBootstrap env fresh path loaded a =
     (case loadConfigFromFile env fresh path loaded a of
        (Inl e, a') \<Rightarrow> (Inl e, a')
      | (Inr _, a') \<Rightarrow> (Inr (), ReloadStrategy (runHealthChecks env (manageInstances env a'))))"

definition run_job :: "env \<Rightarrow> job \<Rightarrow> app \<Rightarrow> app" where
  "run_job env j a =
     (case j of
        JPublishSave \<Rightarrow> snd (SaveConfigToFile env (ReloadStrategy a))
      | JSave \<Rightarrow> snd (SaveConfigToFile env a)
      | JRouting \<Rightarrow> a
      | JCheck sid \<Rightarrow> triggerSingleHealthCheck env sid a)"

end
