(* ===== verification/AppInvariant.thy ===== *)
theory AppInvariant
  imports AppServer
begin

section \<open>Invariants of the application server\<close>

text \<open>
  No instance is leaked or dangling: every running instance belongs to exactly one server of
  the A zone, every instance the A zone names is running and belongs to an active profile, and
  a server that traffic may use (active and up) always has an instance with a listener, in both
  zones. The invariant holds after every operation and every goroutine, in any order.
\<close>

subsection \<open>Primitive updates\<close>

declare map_of_eq_Some_iff [simp del]

lemma app_frame [simp]:
  "ap_profiles (put_state k z a) = ap_profiles a" "ap_insts (put_state k z a) = ap_insts a" "ap_work (put_state k z a) = ap_work a"
  "ap_jobs (put_state k z a) = ap_jobs a" "ap_file (put_state k z a) = ap_file a" "ap_failures (put_state k z a) = ap_failures a"
  "ap_insts (set_active p b a) = ap_insts a" "ap_config (set_active p b a) = ap_config a" "ap_work (set_active p b a) = ap_work a"
  "ap_jobs (set_active p b a) = ap_jobs a" "ap_file (set_active p b a) = ap_file a" "ap_failures (set_active p b a) = ap_failures a"
  "ap_profiles (CloseTunnel q a) = ap_profiles a" "ap_config (CloseTunnel q a) = ap_config a" "ap_work (CloseTunnel q a) = ap_work a"
  "ap_jobs (CloseTunnel q a) = ap_jobs a" "ap_file (CloseTunnel q a) = ap_file a" "ap_failures (CloseTunnel q a) = ap_failures a"
  "ap_profiles (start_job j a) = ap_profiles a" "ap_insts (start_job j a) = ap_insts a" "ap_config (start_job j a) = ap_config a"
  "ap_work (start_job j a) = ap_work a" "ap_jobs (start_job j a) = ap_jobs a @ [j]" "ap_file (start_job j a) = ap_file a" "ap_failures (start_job j a) = ap_failures a"
  by (simp_all add: put_state_def set_active_def CloseTunnel_def start_job_def)

lemma get_put_state [simp]: "gm_get (ap_config (put_state k z a)) k' = (if k' = k then Some z else gm_get (ap_config a) k')"
  by (simp add: put_state_def gm_get_put)

lemma put_state_keys [simp]: "gm_ok (ap_config a) \<Longrightarrow> gm_ok (ap_config (put_state k z a))"
  by (simp add: put_state_def distinct_update)

lemma set_active_profiles: "ap_profiles (set_active p b a) = (ap_profiles a)[p := (ap_profiles a ! p)\<lparr>pf_active := b\<rparr>]"
  by (simp add: set_active_def)

lemma set_active_nth:
  "j < length (ap_profiles a) \<Longrightarrow>
     ap_profiles (set_active p b a) ! j = (if j = p then (ap_profiles a ! j)\<lparr>pf_active := b\<rparr> else ap_profiles a ! j)"
  by (cases "p = j") (simp_all add: set_active_def)

lemma set_active_length [simp]: "length (ap_profiles (set_active p b a)) = length (ap_profiles a)"
  by (simp add: set_active_def)

lemma CloseTunnel_nth:
  "q < length (ap_insts a) \<Longrightarrow>
     ap_insts (CloseTunnel p a) ! q = (if q = p then (ap_insts a ! q)\<lparr>in_running := False\<rparr> else ap_insts a ! q)"
  by (cases "p = q") (simp_all add: CloseTunnel_def)

lemma CloseTunnel_length [simp]: "length (ap_insts (CloseTunnel p a)) = length (ap_insts a)"
  by (simp add: CloseTunnel_def)

lemma CloseTunnel_insts: "ap_insts (CloseTunnel q a) = (ap_insts a)[q := (ap_insts a ! q)\<lparr>in_running := False\<rparr>]"
  by (simp add: CloseTunnel_def)

subsection \<open>The A zone\<close>

definition zone_ok :: "app \<Rightarrow> bool" where
  "zone_ok a \<longleftrightarrow>
     gm_ok (ap_config a)
   \<and> (\<forall>k z. gm_get (ap_config a) k = Some z \<longrightarrow> zs_profile z < length (ap_profiles a) \<and> pf_id (prof a z) = k)
   \<and> (\<forall>k z p. gm_get (ap_config a) k = Some z \<longrightarrow> zs_instance z = Some p \<longrightarrow>
        p < length (ap_insts a) \<and> in_running (ap_insts a ! p) \<and> in_listener (ap_insts a ! p) \<noteq> None
        \<and> in_profile (ap_insts a ! p) = zs_profile z)
   \<and> (\<forall>p < length (ap_insts a). in_running (ap_insts a ! p) \<longrightarrow>
        (\<exists>k z. gm_get (ap_config a) k = Some z \<and> zs_instance z = Some p))"

lemma zone_okI:
  assumes "gm_ok (ap_config a)"
    and "\<And>k z. gm_get (ap_config a) k = Some z \<Longrightarrow> zs_profile z < length (ap_profiles a) \<and> pf_id (prof a z) = k"
    and "\<And>k z p. gm_get (ap_config a) k = Some z \<Longrightarrow> zs_instance z = Some p \<Longrightarrow>
        p < length (ap_insts a) \<and> in_running (ap_insts a ! p) \<and> in_listener (ap_insts a ! p) \<noteq> None
        \<and> in_profile (ap_insts a ! p) = zs_profile z"
    and "\<And>p. p < length (ap_insts a) \<Longrightarrow> in_running (ap_insts a ! p) \<Longrightarrow>
        \<exists>k z. gm_get (ap_config a) k = Some z \<and> zs_instance z = Some p"
  shows "zone_ok a"
  using assms unfolding zone_ok_def by blast

lemma zone_keys: "zone_ok a \<Longrightarrow> gm_ok (ap_config a)"
  by (simp add: zone_ok_def)

definition inst_active :: "app \<Rightarrow> bool" where
  "inst_active a \<longleftrightarrow> (\<forall>k z. gm_get (ap_config a) k = Some z \<longrightarrow> zs_instance z \<noteq> None \<longrightarrow> pf_active (prof a z))"

definition usable_inst :: "app \<Rightarrow> bool" where
  "usable_inst a \<longleftrightarrow> (\<forall>k z. gm_get (ap_config a) k = Some z \<longrightarrow> pf_active (prof a z) \<longrightarrow> zs_health z = StatusUp \<longrightarrow> zs_instance z \<noteq> None)"

definition app_ok :: "app \<Rightarrow> bool" where
  "app_ok a \<longleftrightarrow> zone_ok a \<and> inst_active a \<and> usable_inst a"

lemma zone_profile: "zone_ok a \<Longrightarrow> gm_get (ap_config a) k = Some z \<Longrightarrow> zs_profile z < length (ap_profiles a) \<and> pf_id (prof a z) = k"
  by (simp add: zone_ok_def)

lemma zone_inst:
  "zone_ok a \<Longrightarrow> gm_get (ap_config a) k = Some z \<Longrightarrow> zs_instance z = Some p \<Longrightarrow>
     p < length (ap_insts a) \<and> in_running (ap_insts a ! p) \<and> in_listener (ap_insts a ! p) \<noteq> None
     \<and> in_profile (ap_insts a ! p) = zs_profile z"
  by (simp add: zone_ok_def)

lemma zone_owner:
  "zone_ok a \<Longrightarrow> p < length (ap_insts a) \<Longrightarrow> in_running (ap_insts a ! p) \<Longrightarrow>
     \<exists>k z. gm_get (ap_config a) k = Some z \<and> zs_instance z = Some p"
  unfolding zone_ok_def by blast

text \<open>Servers do not share a profile, nor an instance.\<close>

lemma zone_distinct:
  assumes "zone_ok a" and "gm_get (ap_config a) k = Some z" and "gm_get (ap_config a) k' = Some z'"
  shows "zs_profile z = zs_profile z' \<longleftrightarrow> k = k'" and "zs_instance z = Some p \<Longrightarrow> zs_instance z' = Some p \<Longrightarrow> k = k'"
proof -
  show eq: "zs_profile z = zs_profile z' \<longleftrightarrow> k = k'"
    using assms(2,3) zone_profile [OF assms(1,2)] zone_profile [OF assms(1,3)] by (metis option.inject)
  show "zs_instance z = Some p \<Longrightarrow> zs_instance z' = Some p \<Longrightarrow> k = k'"
    using zone_inst [OF assms(1,2)] zone_inst [OF assms(1,3)] eq by metis
qed

lemma stop_cases:
  obtains (same) "stop_one k a = a"
    "\<And>z. gm_get (ap_config a) k = Some z \<Longrightarrow> zs_instance z \<noteq> None \<Longrightarrow> pf_active (prof a z)"
  | (stop) z p where "gm_get (ap_config a) k = Some z" "zs_instance z = Some p" "\<not> pf_active (prof a z)"
      "stop_one k a = put_state k (z\<lparr>zs_instance := None\<rparr>) (CloseTunnel p a)"
  by (cases "gm_get (ap_config a) k") (auto simp: stop_one_def split: option.splits if_splits)

lemma close_zone_ok:
  assumes "zone_ok a" and "gm_get (ap_config a) k = Some z" and "zs_instance z = Some p"
  shows "zone_ok (put_state k (z\<lparr>zs_instance := None\<rparr>) (CloseTunnel p a))"
proof (rule zone_okI)
  let ?a = "put_state k (z\<lparr>zs_instance := None\<rparr>) (CloseTunnel p a)"
  show "gm_ok (ap_config ?a)"
    using zone_keys [OF assms(1)] by simp
  fix k' z' assume z': "gm_get (ap_config ?a) k' = Some z'"
  then obtain z0 where z0: "gm_get (ap_config a) k' = Some z0" "zs_profile z0 = zs_profile z'" "k' \<noteq> k \<longrightarrow> z0 = z'"
    using assms(2) by (auto split: if_splits)
  from zone_profile [OF assms(1) z0(1)] z0(2) show "zs_profile z' < length (ap_profiles ?a) \<and> pf_id (prof ?a z') = k'"
    by simp
  fix q assume q: "zs_instance z' = Some q"
  with z' z0 have *: "k' \<noteq> k" "gm_get (ap_config a) k' = Some z'" by (auto split: if_splits)
  then have "q \<noteq> p"
    using zone_distinct(2) [OF assms(1,2) *(2) assms(3)] q by auto
  with zone_inst [OF assms(1) *(2) q]
  show "q < length (ap_insts ?a) \<and> in_running (ap_insts ?a ! q) \<and> in_listener (ap_insts ?a ! q) \<noteq> None
      \<and> in_profile (ap_insts ?a ! q) = zs_profile z'"
    by (simp add: CloseTunnel_nth)
next
  let ?a = "put_state k (z\<lparr>zs_instance := None\<rparr>) (CloseTunnel p a)"
  fix q assume "q < length (ap_insts ?a)" "in_running (ap_insts ?a ! q)"
  then have "q \<noteq> p" "in_running (ap_insts a ! q)" "q < length (ap_insts a)"
    by (simp_all add: CloseTunnel_nth split: if_splits)
  with zone_owner [OF assms(1)] obtain k' z' where "gm_get (ap_config a) k' = Some z'" "zs_instance z' = Some q" by blast
  with \<open>q \<noteq> p\<close> assms(2,3) show "\<exists>k z. gm_get (ap_config ?a) k = Some z \<and> zs_instance z = Some q"
    by (intro exI [of _ k'] exI [of _ z']) auto
qed

lemma stop_one_zone_ok: "zone_ok a \<Longrightarrow> zone_ok (stop_one k a)"
  by (cases k a rule: stop_cases) (simp_all add: close_zone_ok)

lemma start_cases:
  obtains (same) "start_one env k a = a"
    "\<And>z. gm_get (ap_config a) k = Some z \<Longrightarrow> pf_active (prof a z) \<Longrightarrow> zs_instance z \<noteq> None"
  | (failed) z ins where "gm_get (ap_config a) k = Some z" "pf_active (prof a z)" "zs_instance z = None"
      "start_one env k a = set_active (zs_profile z) False (a\<lparr>ap_insts := ap_insts a @ ins\<rparr>)" "\<forall>i \<in> set ins. \<not> in_running i"
  | (started) z li where "gm_get (ap_config a) k = Some z" "pf_active (prof a z)" "zs_instance z = None"
      "start_one env k a = put_state k (z\<lparr>zs_instance := Some (length (ap_insts a)), zs_health := StatusUp\<rparr>)
         (a\<lparr>ap_insts := ap_insts a @ [\<lparr>in_profile = zs_profile z, in_running = True, in_listener = Some li\<rparr>]\<rparr>)"
proof -
  show thesis
  proof (cases "\<exists>z. gm_get (ap_config a) k = Some z \<and> pf_active (prof a z) \<and> zs_instance z = None")
    case False
    then have "start_one env k a = a" by (auto simp: start_one_def split: option.splits)
    with False show ?thesis by (intro same) auto
  next
    case True
    then obtain z where z: "gm_get (ap_config a) k = Some z" "pf_active (prof a z)" "zs_instance z = None" by blast
    show ?thesis
    proof (cases "NewStrategy env [prof a z]")
      case (Inl e)
      then show ?thesis using failed [OF z, of "[]"] z by (simp add: start_one_def)
    next
      case (Inr kind)
      then show ?thesis
        using failed [OF z, of "[\<lparr>in_profile = zs_profile z, in_running = False, in_listener = None\<rparr>]"] started [OF z] z
        by (cases "ev_init env (length (ap_insts a)) (prof a z)") (simp_all add: start_one_def Let_def)
    qed
  qed
qed

lemma start_one_zone_ok:
  assumes "zone_ok a"
  shows "zone_ok (start_one env k a)"
proof (cases env k a rule: start_cases)
  case same
  with assms show ?thesis by simp
next
  case (failed z ins)
  let ?a = "set_active (zs_profile z) False (a\<lparr>ap_insts := ap_insts a @ ins\<rparr>)"
  have ins: "ap_insts ?a = ap_insts a @ ins" "ap_config ?a = ap_config a" by simp_all
  have old: "q < length (ap_insts a)" if "q < length (ap_insts a @ ins)" "in_running ((ap_insts a @ ins) ! q)" for q
    using that failed(5) by (cases "q < length (ap_insts a)") (auto simp: nth_append)
  show ?thesis
    unfolding failed(4)
  proof (rule zone_okI, unfold ins)
    fix q assume q: "q < length (ap_insts a @ ins)" "in_running ((ap_insts a @ ins) ! q)"
    from old [OF q] q zone_owner [OF assms, of q]
    show "\<exists>k z. gm_get (ap_config a) k = Some z \<and> zs_instance z = Some q" by (simp add: nth_append)
  next
    fix k z p assume "gm_get (ap_config a) k = Some z" "zs_instance z = Some p"
    from zone_inst [OF assms this]
    show "p < length (ap_insts a @ ins) \<and> in_running ((ap_insts a @ ins) ! p) \<and> in_listener ((ap_insts a @ ins) ! p) \<noteq> None
        \<and> in_profile ((ap_insts a @ ins) ! p) = zs_profile z"
      by (simp add: nth_append)
  next
    fix k z' assume "gm_get (ap_config a) k = Some z'"
    from zone_profile [OF assms this]
    show "zs_profile z' < length (ap_profiles ?a) \<and> pf_id (prof ?a z') = k"
      by (auto simp: set_active_nth)
  qed (rule zone_keys [OF assms])
next
  case (started z li)
  let ?i = "length (ap_insts a)"
  have none: "q \<noteq> ?i" if "gm_get (ap_config a) k' = Some z'" "zs_instance z' = Some q" for k' z' q
    using zone_inst [OF assms that] by auto
  have own: "\<exists>k' z'. gm_get (ap_config (start_one env k a)) k' = Some z' \<and> zs_instance z' = Some q"
    if "q < length (ap_insts a)" "in_running (ap_insts a ! q)" for q
  proof -
    from zone_owner [OF assms that] obtain k' z' where "gm_get (ap_config a) k' = Some z'" "zs_instance z' = Some q" by blast
    with started(1,3) show ?thesis unfolding started(4) by (intro exI [of _ k'] exI [of _ z']) auto
  qed
  have "\<exists>k' z'. gm_get (ap_config (start_one env k a)) k' = Some z' \<and> zs_instance z' = Some ?i"
    unfolding started(4) by auto
  with own have owners: "\<exists>k' z'. gm_get (ap_config (start_one env k a)) k' = Some z' \<and> zs_instance z' = Some q"
    if "q < Suc ?i" "in_running (ap_insts (start_one env k a) ! q)" for q
    using that unfolding started(4) by (cases "q = ?i") (auto simp: nth_append)
  show ?thesis
    using zone_keys [OF assms] zone_profile [OF assms] zone_inst [OF assms] started(1) owners none
    unfolding started(4) by (intro zone_okI) (auto simp: nth_append split: if_splits)
qed

subsection \<open>manageInstances settles every server\<close>

lemma stop_one_get: "k' \<noteq> k \<Longrightarrow> gm_get (ap_config (stop_one k a)) k' = gm_get (ap_config a) k'"
  by (cases k a rule: stop_cases) simp_all

lemma stop_one_profiles: "ap_profiles (stop_one k a) = ap_profiles a"
  by (cases k a rule: stop_cases) simp_all

lemma stop_one_keys: "map fst (ap_config (stop_one k a)) = map fst (ap_config a)"
proof (cases k a rule: stop_cases)
  case (stop z p)
  then have "k \<in> fst ` set (ap_config a)" by (auto dest!: map_of_SomeD intro: rev_image_eqI)
  with stop show ?thesis by (simp add: put_state_def update_keys)
qed simp

lemma start_one_keys: "map fst (ap_config (start_one env k a)) = map fst (ap_config a)"
proof (cases env k a rule: start_cases)
  case (started z li)
  then have "k \<in> fst ` set (ap_config a)" by (auto dest!: map_of_SomeD intro: rev_image_eqI)
  with started show ?thesis by (simp add: put_state_def update_keys)
qed simp_all

lemma start_one_get: "k' \<noteq> k \<Longrightarrow> gm_get (ap_config (start_one env k a)) k' = gm_get (ap_config a) k'"
  by (cases env k a rule: start_cases) simp_all

definition stopped :: "string \<Rightarrow> app \<Rightarrow> bool" where
  "stopped k a \<longleftrightarrow> (\<forall>z. gm_get (ap_config a) k = Some z \<longrightarrow> zs_instance z \<noteq> None \<longrightarrow> pf_active (prof a z))"

definition settled :: "string \<Rightarrow> app \<Rightarrow> bool" where
  "settled k a \<longleftrightarrow> (\<forall>z. gm_get (ap_config a) k = Some z \<longrightarrow> (zs_instance z \<noteq> None \<longleftrightarrow> pf_active (prof a z)))"

lemma stop_one_stopped: "stopped k (stop_one k a)"
  by (cases k a rule: stop_cases) (auto simp: stopped_def)

lemma stop_one_keeps: "stopped k a \<Longrightarrow> stopped k (stop_one k' a)"
  by (cases k' a rule: stop_cases) (auto simp: stopped_def)

lemma start_one_profile:
  assumes "zone_ok a" and "gm_get (ap_config a) k = Some z" and "k \<noteq> k'"
  shows "prof (start_one env k' a) z = prof a z"
proof (cases env k' a rule: start_cases)
  case (failed z' ins)
  from zone_distinct(1) [OF assms(1,2) failed(1)] assms(3) have "zs_profile z \<noteq> zs_profile z'" by simp
  then show ?thesis unfolding failed(4) by (simp add: set_active_def)
qed simp_all

lemma start_one_settled:
  assumes "zone_ok a" and "stopped k a"
  shows "settled k (start_one env k a)"
proof (cases env k a rule: start_cases)
  case same
  with assms(2) show ?thesis by (auto simp: settled_def stopped_def)
next
  case (failed z ins)
  then show ?thesis using zone_profile [OF assms(1) failed(1)] by (auto simp: settled_def set_active_nth)
next
  case (started z li)
  then show ?thesis by (auto simp: settled_def)
qed

lemma start_one_stopped_other: "zone_ok a \<Longrightarrow> stopped k a \<Longrightarrow> stopped k (start_one env k' a)"
proof (cases "k = k'")
  case True
  moreover assume "zone_ok a" "stopped k a"
  ultimately show ?thesis using start_one_settled [of a k env] by (auto simp: settled_def stopped_def)
next
  case False
  moreover assume "zone_ok a" "stopped k a"
  ultimately show ?thesis by (auto simp: stopped_def start_one_get start_one_profile)
qed

lemma start_one_settled_other: "zone_ok a \<Longrightarrow> settled k a \<Longrightarrow> settled k (start_one env k' a)"
proof (cases "k = k'")
  case True
  moreover assume "zone_ok a" "settled k a"
  ultimately show ?thesis using start_one_settled [of a k env] by (auto simp: settled_def stopped_def)
next
  case False
  moreover assume "zone_ok a" "settled k a"
  ultimately show ?thesis by (auto simp: settled_def start_one_get start_one_profile)
qed

lemma manageInstances_settles:
  assumes "zone_ok a"
  shows "zone_ok (manageInstances env a) \<and> (\<forall>k. settled k (manageInstances env a))
       \<and> map fst (ap_config (manageInstances env a)) = map fst (ap_config a)"
proof -
  let ?ids = "map fst (ap_config a)"
  let ?a1 = "fold stop_one ?ids a"
  let ?I = "\<lambda>b. zone_ok b \<and> map fst (ap_config b) = ?ids"
  have 1: "?I ?a1 \<and> (\<forall>k \<in> set ?ids. stopped k ?a1)"
    by (rule fold_establishes [where I = ?I and Q = stopped])
      (simp_all add: assms stop_one_zone_ok stop_one_keys stop_one_stopped stop_one_keeps)
  have none: "gm_get (ap_config b) k = None" if "?I b" "k \<notin> set ?ids" for b k
    using that by (metis list.set_map map_of_eq_None_iff)
  have st: "stopped k ?a1" for k
    using 1 none [of ?a1 k] by (cases "k \<in> set ?ids") (auto simp: stopped_def)
  let ?J = "\<lambda>b. ?I b \<and> (\<forall>k. stopped k b)"
  have 2: "?J (fold (start_one env) ?ids ?a1) \<and> (\<forall>k \<in> set ?ids. settled k (fold (start_one env) ?ids ?a1))"
    by (rule fold_establishes [where I = ?J and Q = settled])
      (use 1 st in \<open>simp_all add: start_one_zone_ok start_one_keys start_one_settled start_one_settled_other start_one_stopped_other\<close>)
  have m: "manageInstances env a = fold (start_one env) ?ids ?a1"
    by (simp add: manageInstances_def Let_def)
  have "settled k (manageInstances env a)" for k
    using 2 none [of "manageInstances env a" k] unfolding m by (cases "k \<in> set ?ids") (auto simp: settled_def)
  then show ?thesis using 2 unfolding m by blast
qed

lemma settled_app_ok: "zone_ok a \<Longrightarrow> (\<And>k. settled k a) \<Longrightarrow> app_ok a"
  by (auto simp: app_ok_def inst_active_def usable_inst_def settled_def)

subsection \<open>The heaps only grow\<close>

definition grows :: "app \<Rightarrow> app \<Rightarrow> bool" where
  "grows a b \<longleftrightarrow>
     length (ap_profiles a) \<le> length (ap_profiles b) \<and> length (ap_insts a) \<le> length (ap_insts b)
   \<and> (\<forall>i < length (ap_profiles a). pf_id (ap_profiles b ! i) = pf_id (ap_profiles a ! i)
        \<and> (pf_active (ap_profiles b ! i) \<longrightarrow> pf_active (ap_profiles a ! i)))
   \<and> (\<forall>p < length (ap_insts a). in_listener (ap_insts b ! p) = in_listener (ap_insts a ! p))"

lemma grows_refl [simp]: "grows a a"
  by (simp add: grows_def)

lemma grows_trans: "grows a b \<Longrightarrow> grows b c \<Longrightarrow> grows a c"
  unfolding grows_def by (auto simp: less_le_trans)

lemma grows_heaps:
  "ap_profiles b = ap_profiles a @ ps \<Longrightarrow> ap_insts b = ap_insts a @ is \<Longrightarrow> grows a b"
  by (simp add: grows_def nth_append)

lemma grows_same: "ap_profiles b = ap_profiles a \<Longrightarrow> ap_insts b = ap_insts a \<Longrightarrow> grows a b"
  by (simp add: grows_def)

lemma grows_CloseTunnel: "grows a (CloseTunnel p a)"
  by (simp add: grows_def CloseTunnel_nth)

lemma grows_deactivate: "grows a (set_active p False a)"
  by (simp add: grows_def set_active_nth)

lemma grows_stop_one: "grows a (stop_one k a) \<and> ap_work (stop_one k a) = ap_work a"
  by (cases k a rule: stop_cases) (auto intro: grows_trans [OF grows_CloseTunnel grows_same])

lemma grows_start_one: "grows a (start_one env k a) \<and> ap_work (start_one env k a) = ap_work a"
  by (cases env k a rule: start_cases) (auto intro: grows_heaps grows_trans [OF grows_heaps grows_deactivate])

lemma grows_fold:
  assumes "\<And>k a. grows a (f k a) \<and> ap_work (f k a) = ap_work a"
  shows "grows a (fold f ks a) \<and> ap_work (fold f ks a) = ap_work a"
proof (rule fold_invariant [where I = "\<lambda>b. grows a b \<and> ap_work b = ap_work a"])
  show "grows a (f k b) \<and> ap_work (f k b) = ap_work a" if "grows a b \<and> ap_work b = ap_work a" for k b
    using that assms [of b k] grows_trans by metis
qed simp

lemma grows_manage: "grows a (manageInstances env a) \<and> ap_work (manageInstances env a) = ap_work a"
  using grows_fold [of stop_one, OF grows_stop_one] grows_fold [of "start_one env", OF grows_start_one] grows_trans
  unfolding manageInstances_def Let_def by metis

subsection \<open>The B zone\<close>

definition work_ok :: "app \<Rightarrow> bool" where
  "work_ok a \<longleftrightarrow> gm_ok (ap_work a) \<and>
     (\<forall>k z. gm_get (ap_work a) k = Some z \<longrightarrow>
        zs_profile z < length (ap_profiles a) \<and> pf_id (prof a z) = k
      \<and> (\<forall>p. zs_instance z = Some p \<longrightarrow> p < length (ap_insts a) \<and> in_listener (ap_insts a ! p) \<noteq> None)
      \<and> (pf_active (prof a z) \<longrightarrow> zs_health z = StatusUp \<longrightarrow> zs_instance z \<noteq> None))"

lemma work_ok_grows:
  assumes "work_ok a" and "grows a b" and "ap_work b = ap_work a"
  shows "work_ok b"
proof -
  have w: "zs_profile z < length (ap_profiles a)" "pf_id (prof a z) = k"
    "\<And>p. zs_instance z = Some p \<Longrightarrow> p < length (ap_insts a) \<and> in_listener (ap_insts a ! p) \<noteq> None"
    "pf_active (prof a z) \<Longrightarrow> zs_health z = StatusUp \<Longrightarrow> zs_instance z \<noteq> None"
    if "gm_get (ap_work a) k = Some z" for k z
    using assms(1) that by (simp_all add: work_ok_def)
  have g: "length (ap_profiles a) \<le> length (ap_profiles b)" "length (ap_insts a) \<le> length (ap_insts b)"
    "\<And>i. i < length (ap_profiles a) \<Longrightarrow> pf_id (ap_profiles b ! i) = pf_id (ap_profiles a ! i)
        \<and> (pf_active (ap_profiles b ! i) \<longrightarrow> pf_active (ap_profiles a ! i))"
    "\<And>p. p < length (ap_insts a) \<Longrightarrow> in_listener (ap_insts b ! p) = in_listener (ap_insts a ! p)"
    using assms(2) by (simp_all add: grows_def)
  show ?thesis
    unfolding work_ok_def assms(3)
  proof (intro conjI allI impI)
    show "gm_ok (ap_work a)" using assms(1) by (simp add: work_ok_def)
    fix k z assume z: "gm_get (ap_work a) k = Some z"
    show "zs_profile z < length (ap_profiles b)" "pf_id (prof b z) = k"
      using w(1,2) [OF z] g(1,3) by (auto intro: less_le_trans)
    show "p < length (ap_insts b)" "in_listener (ap_insts b ! p) \<noteq> None" if "zs_instance z = Some p" for p
      using w(3) [OF z that] g(2,4) by (auto intro: less_le_trans)
    show "zs_instance z \<noteq> None" if "pf_active (prof b z)" "zs_health z = StatusUp"
      using w(1,4) [OF z] g(3) that by blast
  qed
qed

lemma deepCopyAppState_id: "deepCopyAppState m = m"
  unfolding deepCopyAppState_def
  by (rule map_idI) (auto split: option.splits)

lemma Reload_frame [simp]:
  "ap_profiles (ReloadStrategy a) = ap_profiles a" "ap_insts (ReloadStrategy a) = ap_insts a"
  "ap_config (ReloadStrategy a) = ap_config a" "ap_work (ReloadStrategy a) = ap_config a"
  "ap_jobs (ReloadStrategy a) = ap_jobs a @ [JRouting]" "ap_file (ReloadStrategy a) = ap_file a"
  "ap_failures (ReloadStrategy a) = ap_failures a"
  by (simp_all add: ReloadStrategy_def deepCopyAppState_id)

lemma app_ok_work: "app_ok a \<Longrightarrow> ap_work a = ap_config a \<Longrightarrow> work_ok a"
  unfolding work_ok_def app_ok_def usable_inst_def using zone_keys zone_profile zone_inst by metis

definition good :: "app \<Rightarrow> bool" where
  "good a \<longleftrightarrow> app_ok a \<and> work_ok a"

text \<open>Facts that depend only on the heaps and on the A zone.\<close>

lemma app_ok_cong:
  assumes "app_ok a" and "ap_profiles b = ap_profiles a" and "ap_insts b = ap_insts a" and "ap_config b = ap_config a"
  shows "app_ok b"
  using assms unfolding app_ok_def zone_ok_def inst_active_def usable_inst_def by simp

lemma good_cong:
  assumes "good a" and "ap_profiles b = ap_profiles a" and "ap_insts b = ap_insts a" and "ap_config b = ap_config a"
    and "ap_work b = ap_work a \<or> ap_work b = ap_config a"
  shows "good b"
proof -
  have "app_ok b" using app_ok_cong assms good_def by blast
  moreover have "work_ok b"
    using assms(5) work_ok_grows [of a b, OF _ grows_same [OF assms(2,3)]] app_ok_work [OF \<open>app_ok b\<close>] assms(1,4)
    by (auto simp: good_def)
  ultimately show ?thesis by (simp add: good_def)
qed

lemma good_Reload: "app_ok a \<Longrightarrow> good (ReloadStrategy a)"
  unfolding good_def using app_ok_cong [of a "ReloadStrategy a"] app_ok_work [of "ReloadStrategy a"] by simp

lemma good_grows: "app_ok b \<Longrightarrow> good a \<Longrightarrow> grows a b \<Longrightarrow> ap_work b = ap_work a \<Longrightarrow> good b"
  using work_ok_grows by (auto simp: good_def)

subsection \<open>Every operation keeps the invariant\<close>

lemma add_loaded_app_ok:
  assumes "app_ok a" and "gm_get (ap_config a) (pf_id p) = None"
  shows "app_ok (add_loaded p a)"
proof -
  let ?b = "add_loaded p a"
  have b: "ap_profiles ?b = ap_profiles a @ [p]" "ap_insts ?b = ap_insts a"
    "gm_get (ap_config ?b) k = (if k = pf_id p then Some (new_state (length (ap_profiles a))) else gm_get (ap_config a) k)" for k
    by (simp_all add: add_loaded_def Let_def put_state_def gm_get_put)
  have z: "zone_ok a" using assms(1) by (simp add: app_ok_def)
  have "gm_ok (ap_config ?b)"
    using zone_keys [OF z] by (simp add: add_loaded_def Let_def)
  moreover have "\<exists>k z. gm_get (ap_config ?b) k = Some z \<and> zs_instance z = Some q"
    if q: "q < length (ap_insts a)" "in_running (ap_insts a ! q)" for q
  proof -
    from zone_owner [OF z q] obtain k z where kz: "gm_get (ap_config a) k = Some z" "zs_instance z = Some q" by blast
    with assms(2) show ?thesis by (intro exI [of _ k] exI [of _ z]) (auto simp: b)
  qed
  ultimately have "zone_ok ?b"
    using zone_profile [OF z] zone_inst [OF z]
    by (intro zone_okI) (auto simp: b new_state_def nth_append split: if_splits)
  moreover have "inst_active ?b" "usable_inst ?b"
    using assms(1) zone_profile [OF z] unfolding app_ok_def inst_active_def usable_inst_def
    by (auto simp: b new_state_def nth_append split: if_splits)
  ultimately show ?thesis by (simp add: app_ok_def)
qed

lemma set_active_zone_ok: "zone_ok a \<Longrightarrow> zone_ok (set_active p b a)"
  by (rule zone_okI) (auto dest: zone_keys zone_profile zone_inst zone_owner simp: set_active_nth)

lemma manage_app_ok: "zone_ok a \<Longrightarrow> app_ok (manageInstances env a)"
  using manageInstances_settles [of a env] settled_app_ok by blast

lemma good_job [simp]: "good (start_job j a) \<longleftrightarrow> good a"
  using good_cong [of a "start_job j a"] good_cong [of "start_job j a" a] by auto

lemma good_zone: "good a \<Longrightarrow> zone_ok a"
  by (simp add: good_def app_ok_def)

lemma good_UpdateServerActiveState: "good a \<Longrightarrow> good (snd (UpdateServerActiveState env k b a))"
  unfolding UpdateServerActiveState_def
  by (auto simp: good_zone intro!: good_Reload manage_app_ok set_active_zone_ok split: option.splits)

lemma add_loaded_frame:
  "ap_profiles (add_loaded p a) = ap_profiles a @ [p]" "ap_insts (add_loaded p a) = ap_insts a" "ap_work (add_loaded p a) = ap_work a"
  "ap_jobs (add_loaded p a) = ap_jobs a" "ap_file (add_loaded p a) = ap_file a"
  by (simp_all add: add_loaded_def Let_def)

lemma good_AddServerProfile:
  assumes "good a"
  shows "good (snd (AddServerProfile p a))"
proof -
  have "grows a (add_loaded p a)"
    by (rule grows_heaps [of _ _ "[p]" "[]"]) (simp_all add: add_loaded_frame)
  moreover have "app_ok a" using assms by (simp add: good_def)
  ultimately have "good (add_loaded p a)" if "gm_get (ap_config a) (pf_id p) = None"
    using good_grows [OF add_loaded_app_ok assms] that by (simp add: add_loaded_frame)
  with assms show ?thesis by (auto simp: AddServerProfile_def)
qed

text \<open>A profile is replaced by a new one under the same ID and with the same active flag.\<close>

lemma replace_zone_ok:
  assumes "zone_ok a" and "gm_get (ap_config a) k = Some z" and "zs_instance z = None" and "pf_id p' = k"
  shows "zone_ok (put_state k (z\<lparr>zs_profile := length (ap_profiles a)\<rparr>) (a\<lparr>ap_profiles := ap_profiles a @ [p']\<rparr>))" (is "zone_ok ?b")
proof (rule zone_okI)
  show "gm_ok (ap_config ?b)" using zone_keys [OF assms(1)] by simp
next
  fix k' z' assume "gm_get (ap_config ?b) k' = Some z'"
  then show "zs_profile z' < length (ap_profiles ?b) \<and> pf_id (prof ?b z') = k'"
    using zone_profile [OF assms(1), of k' z'] assms(4) by (auto simp: nth_append split: if_splits)
next
  fix k' z' p assume "gm_get (ap_config ?b) k' = Some z'" "zs_instance z' = Some p"
  then show "p < length (ap_insts ?b) \<and> in_running (ap_insts ?b ! p) \<and> in_listener (ap_insts ?b ! p) \<noteq> None
      \<and> in_profile (ap_insts ?b ! p) = zs_profile z'"
    using zone_inst [OF assms(1), of k' z' p] assms(3) by (auto split: if_splits)
next
  fix q assume "q < length (ap_insts ?b)" "in_running (ap_insts ?b ! q)"
  then obtain k' z' where "gm_get (ap_config a) k' = Some z'" "zs_instance z' = Some q"
    using zone_owner [OF assms(1), of q] by auto
  with assms(2,3) show "\<exists>k z. gm_get (ap_config ?b) k = Some z \<and> zs_instance z = Some q"
    by (intro exI [of _ k'] exI [of _ z']) auto
qed

lemma good_UpdateServerProfile:
  assumes "good a" and "pf_id p = k"
  shows "good (snd (UpdateServerProfile env k p a))"
proof (cases "gm_get (ap_config a) k")
  case None
  with assms show ?thesis by (simp add: UpdateServerProfile_def)
next
  case (Some z)
  note zo = good_zone [OF assms(1)]
  have act: "zs_instance z \<noteq> None \<Longrightarrow> pf_active (prof a z)"
    using assms(1) Some by (simp add: good_def app_ok_def inst_active_def)
  let ?p = "p\<lparr>pf_active := pf_active (prof a z)\<rparr>"
  let ?n = "length (ap_profiles a)"
  let ?a1 = "a\<lparr>ap_profiles := ap_profiles a @ [?p]\<rparr>"
  show ?thesis
  proof (cases "zs_instance z")
    case None
    let ?b = "put_state k (z\<lparr>zs_profile := ?n\<rparr>) ?a1"
    have g: "grows a ?b" by (rule grows_heaps [of _ _ "[?p]" "[]"]) simp_all
    have zb: "zone_ok ?b" by (rule replace_zone_ok) (use zo Some None assms(2) in simp_all)
    have "\<not> (pf_active (prof a z) \<and> zs_health z = StatusUp)"
      using assms(1) Some None by (fastforce simp: good_def app_ok_def usable_inst_def)
    then have "app_ok ?b"
      using assms(1) zb Some None zone_profile [OF zo]
      unfolding good_def app_ok_def inst_active_def usable_inst_def by (auto simp: nth_append split: if_splits)
    from good_grows [OF this assms(1) g] show ?thesis
      using Some None by (simp add: UpdateServerProfile_def Let_def)
  next
    case (Some i)
    let ?c = "put_state k (z\<lparr>zs_instance := None\<rparr>) (CloseTunnel i a)"
    let ?b = "put_state k (z\<lparr>zs_profile := ?n, zs_instance := None\<rparr>) (CloseTunnel i ?a1)"
    have get: "gm_get (ap_config ?c) k = Some (z\<lparr>zs_instance := None\<rparr>)" by simp
    have eq: "?b = put_state k ((z\<lparr>zs_instance := None\<rparr>)\<lparr>zs_profile := length (ap_profiles ?c)\<rparr>)
        (?c\<lparr>ap_profiles := ap_profiles ?c @ [?p]\<rparr>)"
      by (cases a, cases z) (simp add: put_state_def CloseTunnel_def AList.update_last)
    have zb: "zone_ok ?b"
      unfolding eq by (rule replace_zone_ok [OF close_zone_ok [OF zo \<open>gm_get (ap_config a) k = Some z\<close> Some] get])
        (simp_all add: assms(2))
    have g: "grows a ?b"
      by (rule grows_trans [OF grows_CloseTunnel [of a i] grows_heaps [of _ _ "[?p]" "[]"]]) (simp_all add: CloseTunnel_def)
    have w: "ap_work ?b = ap_work a" by (simp add: CloseTunnel_def)
    have "good (manageInstances env ?b)"
      using good_grows [OF manage_app_ok [OF zb] assms(1)] grows_manage [of ?b env] grows_trans [OF g] w by metis
    then show ?thesis
      using \<open>gm_get (ap_config a) k = Some z\<close> Some act by (simp add: UpdateServerProfile_def Let_def)
  qed
qed

lemma delete_zone_ok:
  assumes "zone_ok a" and "gm_get (ap_config a) k = Some z" and "zs_instance z = None"
  shows "zone_ok (a\<lparr>ap_config := gm_del k (ap_config a)\<rparr>)" (is "zone_ok ?b")
proof (rule zone_okI)
  show "gm_ok (ap_config ?b)" using zone_keys [OF assms(1)] by (simp add: distinct_delete)
next
  fix q assume "q < length (ap_insts ?b)" "in_running (ap_insts ?b ! q)"
  then obtain k' z' where "gm_get (ap_config a) k' = Some z'" "zs_instance z' = Some q"
    using zone_owner [OF assms(1), of q] by auto
  with assms(2,3) show "\<exists>k z. gm_get (ap_config ?b) k = Some z \<and> zs_instance z = Some q"
    by (intro exI [of _ k'] exI [of _ z']) (auto simp: gm_get_del)
qed (use zone_profile [OF assms(1)] zone_inst [OF assms(1)] in \<open>auto simp: gm_get_del split: if_splits\<close>)

lemma good_DeleteServerProfile:
  assumes "good a"
  shows "good (snd (DeleteServerProfile k a))"
proof (cases "gm_get (ap_config a) k")
  case None
  with assms show ?thesis by (simp add: DeleteServerProfile_def)
next
  case (Some z)
  note zo = good_zone [OF assms]
  define a1 where "a1 = (case zs_instance z of Some i \<Rightarrow> CloseTunnel i a | None \<Rightarrow> a)"
  let ?b = "a1\<lparr>ap_config := gm_del k (ap_config a1)\<rparr>"
  have frame: "ap_profiles a1 = ap_profiles a" "ap_config a1 = ap_config a" "ap_work a1 = ap_work a"
    by (simp_all add: a1_def split: option.splits)
  have zb: "zone_ok ?b"
  proof (cases "zs_instance z")
    case None
    then show ?thesis using delete_zone_ok [OF zo Some] by (simp add: a1_def)
  next
    case (Some i)
    have "?b = (put_state k (z\<lparr>zs_instance := None\<rparr>) (CloseTunnel i a))\<lparr>ap_config := gm_del k (ap_config (put_state k (z\<lparr>zs_instance := None\<rparr>) (CloseTunnel i a)))\<rparr>"
      using Some by (simp add: a1_def put_state_def CloseTunnel_def delete_update_same)
    then show ?thesis
      using delete_zone_ok [OF close_zone_ok [OF zo \<open>gm_get (ap_config a) k = Some z\<close> Some], of k] by simp
  qed
  have "app_ok ?b"
    using zb assms frame unfolding good_def app_ok_def inst_active_def usable_inst_def
    by (auto simp: gm_get_del split: if_splits)
  moreover have "grows a ?b"
    using grows_CloseTunnel by (cases "zs_instance z") (auto simp: a1_def grows_def)
  ultimately have "good ?b"
    using good_grows [OF _ assms] frame by simp
  then show ?thesis using Some by (simp add: DeleteServerProfile_def Let_def a1_def)
qed

text \<open>Health updates touch only the health and the metrics of servers that have an instance.\<close>

lemma health_app_ok:
  assumes "app_ok a" and "gm_get (ap_config a) k = Some z" and "zs_instance z \<noteq> None"
  shows "app_ok (put_state k (z\<lparr>zs_health := h, zs_metrics := m\<rparr>) a)" (is "app_ok ?b")
proof -
  have zo: "zone_ok a" using assms(1) by (simp add: app_ok_def)
  have "zone_ok ?b"
  proof (rule zone_okI)
    fix q assume "q < length (ap_insts ?b)" "in_running (ap_insts ?b ! q)"
    then obtain k' z' where "gm_get (ap_config a) k' = Some z'" "zs_instance z' = Some q"
      using zone_owner [OF zo, of q] by auto
    with assms(2) show "\<exists>k z. gm_get (ap_config ?b) k = Some z \<and> zs_instance z = Some q"
      by (cases "k' = k") (auto intro: exI [of _ k'])
  qed (use zone_keys [OF zo] zone_profile [OF zo] zone_inst [OF zo] assms(2) in \<open>auto split: if_splits\<close>)
  with assms show ?thesis
    unfolding app_ok_def inst_active_def usable_inst_def by (auto split: if_splits)
qed

lemma good_put_health:
  assumes "good a" and "gm_get (ap_config a) k = Some z" and "zs_instance z \<noteq> None"
  shows "good (put_state k (z\<lparr>zs_health := h, zs_metrics := m\<rparr>) a)"
  using assms good_grows [OF health_app_ok [OF _ assms(2,3)] assms(1) grows_same] by (simp add: good_def)

lemma good_triggerSingleHealthCheck:
  assumes "good a"
  shows "good (triggerSingleHealthCheck env k a)"
proof (cases "gm_get (ap_config a) k")
  case (Some z)
  show ?thesis
  proof (cases "zs_instance z")
    case None
    with assms Some show ?thesis by (simp add: triggerSingleHealthCheck_def)
  next
    case (Some p)
    define h where "h = (if ev_health env p = None then StatusUp else StatusDown)"
    have g: "good (put_state k (z\<lparr>zs_health := h\<rparr>) a)"
      using good_put_health [OF assms \<open>gm_get (ap_config a) k = Some z\<close>, where m = "zs_metrics z" and h = h] Some by simp
    then have r: "good (ReloadStrategy (put_state k (z\<lparr>zs_health := h\<rparr>) a))"
      by (intro good_Reload) (simp add: good_def)
    have "triggerSingleHealthCheck env k a =
        (if h \<noteq> zs_health z then ReloadStrategy (put_state k (z\<lparr>zs_health := h\<rparr>) a) else put_state k (z\<lparr>zs_health := h\<rparr>) a)"
      unfolding triggerSingleHealthCheck_def h_def Let_def \<open>gm_get (ap_config a) k = Some z\<close> Some option.case ..
    with g r show ?thesis by metis
  qed
qed (use assms in \<open>simp add: triggerSingleHealthCheck_def\<close>)

lemma instances_to_check_inst:
  "(k, p) \<in> set (instances_to_check a) \<Longrightarrow> gm_ok (ap_config a) \<Longrightarrow>
     \<exists>z. gm_get (ap_config a) k = Some z \<and> zs_instance z = Some p \<and> pf_active (prof a z)"
  by (auto simp: instances_to_check_def List.map_filter_def map_of_eq_Some_iff split: if_splits option.splits)

definition has_instance :: "string \<Rightarrow> app \<Rightarrow> bool" where
  "has_instance k a \<longleftrightarrow> (\<exists>z. gm_get (ap_config a) k = Some z \<and> zs_instance z \<noteq> None)"

lemma good_apply_health:
  assumes "good (fst ac)" and "has_instance (fst kh) (fst ac)"
  shows "good (fst (apply_health mm kh ac)) \<and> (\<forall>k. has_instance k (fst ac) \<longrightarrow> has_instance k (fst (apply_health mm kh ac)))"
  using assms good_put_health [OF assms(1)] by (auto simp: apply_health_def has_instance_def)

lemma good_apply_all:
  "good (fst ac) \<Longrightarrow> (\<And>kh. kh \<in> set hm \<Longrightarrow> has_instance (fst kh) (fst ac)) \<Longrightarrow> good (fst (fold (apply_health mm) hm ac))"
proof (induction hm arbitrary: ac)
  case (Cons kh hm)
  then show ?case using good_apply_health [of ac kh mm] by (auto intro!: Cons.IH)
qed simp

lemma good_runHealthChecks:
  assumes "good a"
  shows "good (runHealthChecks env a)"
proof -
  have inst: "has_instance (fst kh) a" if "kh \<in> set (fst (Check env a (instances_to_check a)))" for kh
    using that instances_to_check_inst [of "fst kh" _ a] zone_keys [OF good_zone [OF assms]]
    by (fastforce simp: Check_def has_instance_def)
  obtain hm mm where c: "Check env a (instances_to_check a) = (hm, mm)" by (cases "Check env a (instances_to_check a)")
  obtain a' changed where f: "fold (apply_health mm) hm (a, False) = (a', changed)" by (cases "fold (apply_health mm) hm (a, False)")
  have "good a'"
    using good_apply_all [of "(a, False)" hm mm] inst assms c f by simp
  then show ?thesis
    using assms c f good_Reload [of a'] by (simp add: runHealthChecks_def Let_def good_def)
qed

lemma good_failures: "good (a\<lparr>ap_failures := x\<rparr>) \<longleftrightarrow> good a"
  by (rule iffI; erule good_cong; simp)

lemma good_reports: "good a \<Longrightarrow> good (ReportFailure k a)" "good a \<Longrightarrow> good (ReportSuccess k a)"
  by (simp_all add: ReportFailure_def ReportSuccess_def Let_def good_failures)

lemma good_file: "good (a\<lparr>ap_file := x\<rparr>) \<longleftrightarrow> good a" "good (a\<lparr>ap_jobs := js\<rparr>) \<longleftrightarrow> good a"
  by (rule iffI; erule good_cong; simp)+

lemma good_Save: "good a \<Longrightarrow> good (snd (SaveConfigToFile env a))"
  by (simp add: SaveConfigToFile_def SaveServers_def good_file split: option.splits)

lemma good_run_job: "good a \<Longrightarrow> good (run_job env j a)"
  by (cases j) (simp_all add: run_job_def good_Save good_Reload good_def [of a] good_triggerSingleHealthCheck)

subsection \<open>The server as a transition system\<close>

text \<open>
  One step is one call of an operation by the web interface, the gateway or the ticker, or one
  pending goroutine. \<open>drop_job\<close> takes any of the pending goroutines, so every scheduling order is
  covered. The web interface passes \<open>UpdateServerProfile\<close> a profile whose ID is the one it names.
\<close>

definition drop_job :: "nat \<Rightarrow> app \<Rightarrow> app" where
  "drop_job i a = a\<lparr>ap_jobs := take i (ap_jobs a) @ drop (Suc i) (ap_jobs a)\<rparr>"

inductive app_step :: "env \<Rightarrow> app \<Rightarrow> app \<Rightarrow> bool" for env where
  add: "app_step env a (snd (AddServerProfile p a))"
| update: "pf_id p = k \<Longrightarrow> app_step env a (snd (UpdateServerProfile env k p a))"
| delete: "app_step env a (snd (DeleteServerProfile k a))"
| activate: "app_step env a (snd (UpdateServerActiveState env k b a))"
| failure: "app_step env a (ReportFailure k a)"
| success: "app_step env a (ReportSuccess k a)"
| tick: "app_step env a (runHealthChecks env a)"
| job: "i < length (ap_jobs a) \<Longrightarrow> app_step env a (run_job env (ap_jobs a ! i) (drop_job i a))"

inductive app_steps :: "env \<Rightarrow> app \<Rightarrow> app \<Rightarrow> bool" for env where
  refl: "app_steps env a a"
| step: "app_steps env a b \<Longrightarrow> app_step env b c \<Longrightarrow> app_steps env a c"

lemma app_step_good: "app_step env a b \<Longrightarrow> good a \<Longrightarrow> good b"
  by (induction rule: app_step.induct)
    (simp_all add: good_AddServerProfile good_UpdateServerProfile good_DeleteServerProfile good_UpdateServerActiveState
      good_reports good_runHealthChecks good_run_job drop_job_def good_file)

subsection \<open>Start-up\<close>

lemma add_loaded_empty:
  assumes "app_ok a \<and> ap_insts a = []"
  shows "app_ok (add_loaded p a) \<and> ap_insts (add_loaded p a) = []"
proof -
  have zo: "zone_ok a" and ins: "ap_insts a = []" using assms by (simp_all add: app_ok_def)
  have no: "zs_instance z = None" if "gm_get (ap_config a) k = Some z" for k z
    using zone_inst [OF zo that] ins by (cases "zs_instance z") auto
  have get: "gm_get (ap_config (add_loaded p a)) k = (if k = pf_id p then Some (new_state (length (ap_profiles a))) else gm_get (ap_config a) k)" for k
    by (simp add: add_loaded_def Let_def put_state_def gm_get_put)
  have "zone_ok (add_loaded p a)"
    by (rule zone_okI)
      (use zone_keys [OF zo] zone_profile [OF zo] no ins in \<open>auto simp: get add_loaded_frame new_state_def nth_append split: if_splits, simp add: add_loaded_def Let_def\<close>)
  moreover have "inst_active (add_loaded p a)" "usable_inst (add_loaded p a)"
    using assms zone_profile [OF zo] unfolding app_ok_def inst_active_def usable_inst_def
    by (auto simp: get add_loaded_frame new_state_def nth_append split: if_splits)
  ultimately show ?thesis using ins by (simp add: app_ok_def add_loaded_frame)
qed

lemma new_app_ok: "app_ok (new_app file) \<and> ap_insts (new_app file) = []"
  by (simp add: new_app_def app_ok_def zone_ok_def inst_active_def usable_inst_def)

lemma bootstrap_good:
  assumes "loadConfigAndBootstrap env fresh path loaded (new_app file) = (Inr (), a)"
  shows "good a \<and> ap_work a = ap_config a"
proof -
  from assms obtain ps where ps: "loaded = Inr ps"
    by (auto simp: loadConfigAndBootstrap_def loadConfigFromFile_def split: sum.splits)
  let ?a1 = "fold add_loaded (assign_ids fresh 0 ps) ((new_app file)\<lparr>ap_config := []\<rparr>)"
  let ?a2 = "snd (SaveServers env (assign_ids fresh 0 ps) ?a1)"
  have "(new_app file)\<lparr>ap_config := []\<rparr> = new_app file" by (simp add: new_app_def)
  then have "app_ok ?a1 \<and> ap_insts ?a1 = []"
    using fold_invariant [of "\<lambda>a. app_ok a \<and> ap_insts a = []" add_loaded, OF add_loaded_empty new_app_ok] by simp
  then have "zone_ok ?a2"
    using app_ok_cong [of ?a1 ?a2] by (simp add: SaveServers_def app_ok_def split: option.splits)
  from manage_app_ok [OF this] have m: "app_ok (manageInstances env ?a2)" .
  have "ap_work ?a1 = []"
    by (rule fold_invariant [where I = "\<lambda>b. ap_work b = []"]) (simp_all add: add_loaded_frame new_app_def)
  then have "ap_work (manageInstances env ?a2) = []"
    using grows_manage [of ?a2 env] by (simp add: SaveServers_def split: option.splits)
  with m have "good (manageInstances env ?a2)" by (simp add: good_def work_ok_def)
  from good_runHealthChecks [OF this, of env]
  have "good (ReloadStrategy (runHealthChecks env (manageInstances env ?a2)))"
    by (intro good_Reload) (simp add: good_def)
  moreover have "a = ReloadStrategy (runHealthChecks env (manageInstances env ?a2))"
    using assms ps by (simp add: loadConfigAndBootstrap_def loadConfigFromFile_def Let_def split: prod.splits)
  ultimately show ?thesis by simp
qed

lemma reachable_good:
  assumes "loadConfigAndBootstrap env fresh path loaded (new_app file) = (Inr (), a0)" and "app_steps env a0 a"
  shows "good a"
  using assms(2,1) by (induction rule: app_steps.induct) (simp_all add: bootstrap_good app_step_good)

text \<open>
  C5. No instance leaks and none dangles: in every state the server can reach after start-up, by any
  sequence of web requests, failure reports, health checks and goroutines, every running
  tunnel instance is the instance of exactly one configured server, whose profile is active,
  and every instance of a configured server is running and has a listener.
\<close>

theorem no_instance_leak:
  assumes "loadConfigAndBootstrap env fresh path loaded (new_app file) = (Inr (), a0)" and "app_steps env a0 a"
  shows "(\<forall>p < length (ap_insts a). in_running (ap_insts a ! p) \<longleftrightarrow>
            (\<exists>!k. \<exists>z. gm_get (ap_config a) k = Some z \<and> zs_instance z = Some p \<and> pf_active (prof a z)))
       \<and> (\<forall>k z p. gm_get (ap_config a) k = Some z \<longrightarrow> zs_instance z = Some p \<longrightarrow>
            p < length (ap_insts a) \<and> in_running (ap_insts a ! p) \<and> in_listener (ap_insts a ! p) \<noteq> None)"
proof -
  have ok: "app_ok a" and zo: "zone_ok a"
    using reachable_good [OF assms] by (simp_all add: good_def app_ok_def)
  have act: "pf_active (prof a z)" if "gm_get (ap_config a) k = Some z" "zs_instance z = Some p" for k z p
    using ok that by (auto simp: app_ok_def inst_active_def)
  have "in_running (ap_insts a ! p) \<longleftrightarrow>
      (\<exists>!k. \<exists>z. gm_get (ap_config a) k = Some z \<and> zs_instance z = Some p \<and> pf_active (prof a z))"
    if "p < length (ap_insts a)" for p
    using zone_owner [OF zo that] act zone_distinct(2) [OF zo] zone_inst [OF zo] by metis
  then show ?thesis using zone_inst [OF zo] by blast
qed


definition demo_env :: env where
  "demo_env = \<lparr>ev_new = (\<lambda>_ _. None), ev_init = (\<lambda>p _. Inr \<lparr>li_address = ''127.0.0.1'', li_port = 1001 + int p\<rparr>),
     ev_health = (\<lambda>_. None), ev_active = (\<lambda>_. 2), ev_latency = (\<lambda>_. 7), ev_save = None\<rparr>"

definition blank_profile :: server_profile where
  "blank_profile = \<lparr>pf_id = ''s1'', pf_remarks = ''one'', pf_type = ''vless'', pf_active = True, pf_local_port = 0, pf_address = '''',
     pf_port = 0, pf_network = '''', pf_scheme = '''', pf_path = '''', pf_host = '''', pf_grpc_service = '''', pf_grpc_mode = '''',
     pf_grpc_authority = '''', pf_edge_ip = '''', pf_uuid = '''', pf_flow = '''', pf_security = '''', pf_sni = '''', pf_fingerprint = '''',
     pf_public_key = '''', pf_short_id = ''''\<rparr>"

definition demo_boot :: "unit res \<times> app" where
  "demo_boot = loadConfigAndBootstrap demo_env (\<lambda>_. ''u'') ''servers.json'' (Inr [blank_profile]) (new_app [])"

definition demo_app :: app where
  "demo_app = snd demo_boot"

lemma demo_boot: "loadConfigAndBootstrap demo_env (\<lambda>_. ''u'') ''servers.json'' (Inr [blank_profile]) (new_app []) = (Inr (), demo_app)"
  by (simp add: demo_app_def demo_boot_def loadConfigAndBootstrap_def loadConfigFromFile_def Let_def split: prod.splits)

lemma demo_app_eval:
  "demo_app = \<lparr>ap_profiles = [blank_profile], ap_insts = [\<lparr>in_profile = 0, in_running = True, in_listener = Some \<lparr>li_address = ''127.0.0.1'', li_port = 1001\<rparr>\<rparr>],
     ap_config = [(''s1'', \<lparr>zs_profile = 0, zs_instance = Some 0, zs_health = StatusUp, zs_metrics = Some \<lparr>mt_active = 2, mt_latency = 7\<rparr>\<rparr>)],
     ap_work = [(''s1'', \<lparr>zs_profile = 0, zs_instance = Some 0, zs_health = StatusUp, zs_metrics = Some \<lparr>mt_active = 2, mt_latency = 7\<rparr>\<rparr>)],
     ap_failures = [], ap_jobs = [JRouting], ap_file = [blank_profile]\<rparr>"
  by code_simp

theorem no_instance_leak_witness:
  "in_running (ap_insts demo_app ! 0)
   \<and> (\<exists>!k. \<exists>z. gm_get (ap_config demo_app) k = Some z \<and> zs_instance z = Some 0 \<and> pf_active (prof demo_app z))"
proof -
  have "0 < length (ap_insts demo_app)" "in_running (ap_insts demo_app ! 0)" by (simp_all add: demo_app_eval)
  with no_instance_leak [OF demo_boot app_steps.refl] show ?thesis by blast
qed


end
