(* ===== verification/AppPublish.thy ===== *)
theory AppPublish
  imports AppInvariant
begin

section \<open>Publication, persistence and failure reports of the application server\<close>

text \<open>
  What the B zone shows of the A zone, what reaches \<open>servers.json\<close> and when a failing server is
  checked.
\<close>

subsection \<open>Publication\<close>

definition nom :: "zstate \<Rightarrow> zstate" where
  "nom z = z\<lparr>zs_metrics := None\<rparr>"

definition published :: "app \<Rightarrow> bool" where
  "published a \<longleftrightarrow> (\<forall>k. map_option nom (gm_get (ap_work a) k) = map_option nom (gm_get (ap_config a) k))"

definition pub_inv :: "app \<Rightarrow> bool" where
  "pub_inv a \<longleftrightarrow> JPublishSave \<in> set (ap_jobs a) \<or> published a"

lemma published_same: "ap_work a = ap_config a \<Longrightarrow> published a"
  by (simp add: published_def)

lemma put_published:
  "published a \<Longrightarrow> gm_get (ap_config a) k = Some z \<Longrightarrow> nom z' = nom z \<Longrightarrow> published (put_state k z' a)"
  by (simp add: published_def)

lemma fold_apply_health_frame:
  "let r = fold (apply_health mm) hm ac in
     ap_work (fst r) = ap_work (fst ac) \<and> ap_jobs (fst r) = ap_jobs (fst ac) \<and> ap_profiles (fst r) = ap_profiles (fst ac)
   \<and> ap_insts (fst r) = ap_insts (fst ac) \<and> (snd ac \<longrightarrow> snd r) \<and> (published (fst ac) \<longrightarrow> \<not> snd r \<longrightarrow> published (fst r))"
proof (induction hm arbitrary: ac)
  case (Cons kh hm)
  let ?ac = "apply_health mm kh ac"
  have 1: "ap_work (fst ?ac) = ap_work (fst ac)" "ap_jobs (fst ?ac) = ap_jobs (fst ac)" "ap_profiles (fst ?ac) = ap_profiles (fst ac)"
    "ap_insts (fst ?ac) = ap_insts (fst ac)" "snd ac \<longrightarrow> snd ?ac"
    by (auto simp: apply_health_def split: option.splits)
  have "published (fst ac) \<longrightarrow> \<not> snd ?ac \<longrightarrow> published (fst ?ac)"
    by (auto simp: apply_health_def nom_def intro: put_published split: option.splits)
  with 1 Cons [of ?ac] show ?case by (auto simp: Let_def)
qed simp

lemma runHealthChecks_frame:
  "(published (runHealthChecks env a) \<or> \<not> published a) \<and> set (ap_jobs a) \<subseteq> set (ap_jobs (runHealthChecks env a))"
proof -
  obtain hm mm where c: "Check env a (instances_to_check a) = (hm, mm)" by (cases "Check env a (instances_to_check a)")
  obtain a' ch where f: "fold (apply_health mm) hm (a, False) = (a', ch)" by (cases "fold (apply_health mm) hm (a, False)")
  have "runHealthChecks env a = (if instances_to_check a = [] then a else if ch then ReloadStrategy a' else a')"
    using c f by (simp add: runHealthChecks_def)
  moreover have "ap_jobs a' = ap_jobs a" "published a \<longrightarrow> \<not> ch \<longrightarrow> published a'"
    using fold_apply_health_frame [of mm hm "(a, False)"] f by (simp_all add: Let_def)
  ultimately show ?thesis by (auto intro: published_same)
qed

lemma trigger_frame:
  "(published (triggerSingleHealthCheck env k a) \<or> \<not> published a) \<and> set (ap_jobs a) \<subseteq> set (ap_jobs (triggerSingleHealthCheck env k a))"
  by (auto simp: triggerSingleHealthCheck_def Let_def nom_def intro: published_same put_published split: option.splits)

lemma run_job_pub: "pub_inv (drop_job i a) \<or> ap_jobs a ! i = JPublishSave \<Longrightarrow> pub_inv (run_job env (ap_jobs a ! i) (drop_job i a))"
  using trigger_frame [of env _ "drop_job i a"]
  by (cases "ap_jobs a ! i")
    (auto simp: run_job_def pub_inv_def SaveConfigToFile_def SaveServers_def published_def split: option.splits)

lemma pub_inv_drop: "pub_inv a \<Longrightarrow> i < length (ap_jobs a) \<Longrightarrow> pub_inv (drop_job i a) \<or> ap_jobs a ! i = JPublishSave"
proof -
  assume "pub_inv a" "i < length (ap_jobs a)"
  then have "ap_jobs a = take i (ap_jobs a) @ ap_jobs a ! i # drop (Suc i) (ap_jobs a)"
    by (simp add: id_take_nth_drop)
  then have "set (ap_jobs a) = insert (ap_jobs a ! i) (set (ap_jobs (drop_job i a)))"
    by (metis app.select_convs(6) app.update_convs(6) drop_job_def list.simps(15) set_append Un_insert_right app.surjective)
  with \<open>pub_inv a\<close> show ?thesis by (auto simp: pub_inv_def published_def drop_job_def)
qed

lemma app_step_pub: "app_step env a b \<Longrightarrow> pub_inv a \<Longrightarrow> pub_inv b"
proof (induction rule: app_step.induct)
  case (tick a)
  then show ?case using runHealthChecks_frame [of env a] by (auto simp: pub_inv_def)
next
  case (job i a)
  then show ?case using run_job_pub pub_inv_drop by blast
qed (auto simp: pub_inv_def AddServerProfile_def UpdateServerProfile_def DeleteServerProfile_def UpdateServerActiveState_def
    ReportFailure_def ReportSuccess_def Let_def published_def split: option.splits)

definition ss_nom :: "server_state \<Rightarrow> server_state" where
  "ss_nom s = s\<lparr>ss_metrics := None\<rparr>"

text \<open>The A zone as a reader would see it.\<close>

definition config_view :: "app \<Rightarrow> server_states" where
  "config_view a = map (\<lambda>(k, z). (k, state_view a z)) (ap_config a)"

lemma view_nom: "ss_nom (state_view a z) = state_view a (nom z)"
  by (simp add: ss_nom_def state_view_def nom_def)

lemma reachable_pub:
  assumes "loadConfigAndBootstrap env fresh path loaded (new_app file) = (Inr (), a0)" and "app_steps env a0 a"
  shows "pub_inv a"
proof -
  have "pub_inv a0" using bootstrap_good [OF assms(1)] published_same by (simp add: pub_inv_def)
  with assms(2) show ?thesis by (induction rule: app_steps.induct) (simp_all add: app_step_pub)
qed



text \<open>
  Load metrics reach the dispatcher only when some health changes: a periodic health check that
  leaves every health as it is changes no server state the dispatcher reads, although it has
  just measured the numbers of active connections that the least-connections balancer compares.
\<close>

lemma unchanged_health_keeps_metrics:
  assumes "\<And>k p z. (k, p) \<in> set (instances_to_check a) \<Longrightarrow> gm_get (ap_config a) k = Some z \<Longrightarrow>
      zs_health z = fst (check_instance env a p)" and "gm_ok (ap_config a)"
  shows "GetServerStates (runHealthChecks env a) = GetServerStates a"
proof -
  let ?todo = "instances_to_check a"
  let ?mm = "snd (Check env a ?todo)"
  have keep: "\<not> snd (fold (apply_health ?mm) hm ac) \<and> (\<forall>k. map_option zs_health (gm_get (ap_config (fst (fold (apply_health ?mm) hm ac))) k) = map_option zs_health (gm_get (ap_config a) k))"
    if "set hm \<subseteq> set (fst (Check env a ?todo))" "\<not> snd ac"
      "\<forall>k. map_option zs_health (gm_get (ap_config (fst ac)) k) = map_option zs_health (gm_get (ap_config a) k)" for hm ac
    using that
  proof (induction hm arbitrary: ac)
    case (Cons kh hm)
    from Cons.prems(1) obtain p where kp: "(fst kh, p) \<in> set ?todo" "snd kh = fst (check_instance env a p)"
      by (auto simp: Check_def)
    from instances_to_check_inst [OF kp(1) assms(2)] obtain z where z: "gm_get (ap_config a) (fst kh) = Some z" by blast
    with assms(1) [OF kp(1) z] kp(2) have "zs_health z = snd kh" by simp
    with Cons.prems z have "\<not> snd (apply_health ?mm kh ac)
        \<and> (\<forall>k. map_option zs_health (gm_get (ap_config (fst (apply_health ?mm kh ac))) k) = map_option zs_health (gm_get (ap_config a) k))"
      by (auto simp: apply_health_def split: option.splits dest: spec [of _ "fst kh"])
    with Cons show ?case by simp
  qed simp
  obtain a' ch where f: "fold (apply_health ?mm) (fst (Check env a ?todo)) (a, False) = (a', ch)"
    by (cases "fold (apply_health ?mm) (fst (Check env a ?todo)) (a, False)")
  have "\<not> ch" using keep [of "fst (Check env a ?todo)" "(a, False)"] f by simp
  moreover have "ap_work a' = ap_work a" "ap_profiles a' = ap_profiles a" "ap_insts a' = ap_insts a"
    using fold_apply_health_frame [of ?mm "fst (Check env a ?todo)" "(a, False)"] f by (simp_all add: Let_def)
  moreover have "runHealthChecks env a = (if ?todo = [] then a else if ch then ReloadStrategy a' else a')"
    using f by (simp add: runHealthChecks_def Let_def case_prod_beta)
  ultimately show ?thesis by (simp add: GetServerStates_def state_view_def)
qed

definition busy_env :: env where
  "busy_env = demo_env\<lparr>ev_active := (\<lambda>_. 99)\<rparr>"

lemma unchanged_health_keeps_metrics_witness:
  "GetServerStates (runHealthChecks busy_env demo_app) = GetServerStates demo_app
   \<and> map_option zs_metrics (gm_get (ap_config (runHealthChecks busy_env demo_app)) ''s1'') = Some (Some \<lparr>mt_active = 99, mt_latency = 7\<rparr>)"
proof
  have todo: "instances_to_check demo_app = [(''s1'', 0)]" and up: "fst (check_instance busy_env demo_app 0) = StatusUp"
    by (simp_all add: instances_to_check_def List.map_filter_def check_instance_def demo_app_eval blank_profile_def busy_env_def demo_env_def)
  have cfg: "map_option zs_health (gm_get (ap_config demo_app) ''s1'') = Some StatusUp"
    by (simp add: demo_app_eval)
  show "GetServerStates (runHealthChecks busy_env demo_app) = GetServerStates demo_app"
  proof (rule unchanged_health_keeps_metrics)
    fix k p z assume "(k, p) \<in> set (instances_to_check demo_app)" and "gm_get (ap_config demo_app) k = Some z"
    then show "zs_health z = fst (check_instance busy_env demo_app p)"
      using up cfg by (auto simp: todo)
  qed (simp add: demo_app_eval)
  show "map_option zs_metrics (gm_get (ap_config (runHealthChecks busy_env demo_app)) ''s1'') = Some (Some \<lparr>mt_active = 99, mt_latency = 7\<rparr>)"
    unfolding demo_app_eval by code_simp
qed

subsection \<open>Activation, and failure reports\<close>

lemma manage_invariant:
  assumes "\<And>x b. I b \<Longrightarrow> I (stop_one x b)" and "\<And>x b. I b \<Longrightarrow> I (start_one env x b)" and "I a"
  shows "I (manageInstances env a)"
  unfolding manageInstances_def Let_def
  by (rule fold_invariant, rule assms(2), assumption, rule fold_invariant, rule assms(1), assumption, rule assms(3))

lemma manage_in_profile:
  assumes "p < length (ap_insts a)"
  shows "length (ap_insts a) \<le> length (ap_insts (manageInstances env a)) \<and> in_profile (ap_insts (manageInstances env a) ! p) = in_profile (ap_insts a ! p)"
proof -
  let ?I = "\<lambda>b. length (ap_insts a) \<le> length (ap_insts b) \<and> in_profile (ap_insts b ! p) = in_profile (ap_insts a ! p)"
  have stop: "?I (stop_one x b)" if "?I b" for x b
    using that assms by (cases x b rule: stop_cases) (auto simp: CloseTunnel_nth)
  have start: "?I (start_one env x b)" if "?I b" for x b
    using that assms by (cases env x b rule: start_cases) (auto simp: nth_append)
  show ?thesis
    by (rule manage_invariant [where I = ?I]) (fact stop, fact start, simp)
qed

lemma manage_deactivated:
  assumes "zone_ok a" and "gm_get (ap_config a) k = Some z" and "\<not> pf_active (prof a z)"
  shows "\<exists>z'. gm_get (ap_config (manageInstances env a)) k = Some z' \<and> zs_profile z' = zs_profile z
    \<and> zs_instance z' = None \<and> \<not> pf_active (prof (manageInstances env a) z')"
proof -
  let ?I = "\<lambda>b. zone_ok b \<and> \<not> pf_active (prof b z) \<and> (\<exists>z'. gm_get (ap_config b) k = Some z' \<and> zs_profile z' = zs_profile z)"
  have stop: "?I (stop_one x b)" if "?I b" for x b
    using that stop_one_zone_ok [of b x] by (cases x b rule: stop_cases) (auto simp: stop_one_profiles)
  have start: "?I (start_one env x b)" if b: "?I b" for x b
  proof (cases env x b rule: start_cases)
    case (failed z2 ins)
    with b zone_profile [of b k] have "zs_profile z < length (ap_profiles b)" by auto
    with failed b start_one_zone_ok [of b env x] show ?thesis by (auto simp: set_active_nth)
  qed (use b start_one_zone_ok [of b env x] in auto)
  have "?I a" using assms by auto
  have "?I (manageInstances env a)"
    by (rule manage_invariant [where I = ?I]) (fact stop, fact start, fact)
  then obtain z' where z': "gm_get (ap_config (manageInstances env a)) k = Some z'" "zs_profile z' = zs_profile z"
    "\<not> pf_active (prof (manageInstances env a) z')" by auto
  have "settled k (manageInstances env a)" using manageInstances_settles [OF assms(1)] by blast
  with z' show ?thesis by (auto simp: settled_def)
qed

text \<open>
  Switching a server off is complete when the call returns: after UpdateServerActiveState(id,
  false) on a reachable state its instance is closed, no server state the dispatcher reads has
  an instance for it or marks it usable, and saving the change is pending.
\<close>

lemma deactivation_complete:
  assumes "loadConfigAndBootstrap env fresh path loaded (new_app file) = (Inr (), a0)" and "app_steps env a0 a"
    and "gm_get (ap_config a) k = Some z" and "pf_active (prof a z)"
    and "UpdateServerActiveState env k False a = (r, b)"
  shows "r = Inr () \<and> (\<exists>s. gm_get (GetServerStates b) k = Some s \<and> ss_instance s = None \<and> \<not> usable s)
       \<and> (\<forall>p. zs_instance z = Some p \<longrightarrow> \<not> in_running (ap_insts b ! p)) \<and> JSave \<in> set (ap_jobs b)"
proof -
  have zo: "zone_ok a" using good_zone [OF reachable_good [OF assms(1,2)]] .
  let ?a = "set_active (zs_profile z) False a"
  have za: "zone_ok ?a" using zo by (rule set_active_zone_ok)
  have na: "\<not> pf_active (prof ?a z)" using zone_profile [OF zo assms(3)] by (simp add: set_active_nth)
  from manage_deactivated [OF za _ na, of k env] assms(3) obtain z' where
    z': "gm_get (ap_config (manageInstances env ?a)) k = Some z'" "zs_instance z' = None" "\<not> pf_active (prof (manageInstances env ?a) z')"
    "zs_profile z' = zs_profile z" by auto
  have b: "b = start_job JSave (ReloadStrategy (manageInstances env ?a))" "r = Inr ()"
    using assms(3-5) by (simp_all add: UpdateServerActiveState_def)
  have "gm_get (GetServerStates b) k = Some (state_view b z')"
    using z' by (simp add: b GetServerStates_def deepCopyAppState_id map_of_map)
  moreover have "ss_instance (state_view b z') = None \<and> \<not> usable (state_view b z')"
    using z' by (simp add: b state_view_def usable_def)
  moreover have "\<not> in_running (ap_insts b ! p)" if p: "zs_instance z = Some p" for p
  proof
    assume run: "in_running (ap_insts b ! p)"
    have lt: "p < length (ap_insts a)" and own: "in_profile (ap_insts a ! p) = zs_profile z"
      using zone_inst [OF zo assms(3) p] by simp_all
    have keep: "length (ap_insts a) \<le> length (ap_insts b) \<and> in_profile (ap_insts b ! p) = zs_profile z"
      using manage_in_profile [of p ?a env] lt own by (simp add: b)
    have "zone_ok (manageInstances env ?a)" using manageInstances_settles [OF za] by blast
    with run keep lt obtain k2 z2 where o: "gm_get (ap_config (manageInstances env ?a)) k2 = Some z2" "zs_instance z2 = Some p"
      using zone_owner [of "manageInstances env ?a" p] by (auto simp: b)
    then have "zs_profile z2 = zs_profile z'"
      using zone_inst [OF \<open>zone_ok (manageInstances env ?a)\<close> o] keep z'(4) by (simp add: b)
    with zone_distinct(1) [OF \<open>zone_ok (manageInstances env ?a)\<close> o(1) z'(1)] o z'(1,2) show False by auto
  qed
  ultimately show ?thesis by (auto simp: b)
qed

lemma deactivation_complete_witness:
  "\<exists>b. UpdateServerActiveState demo_env ''s1'' False demo_app = (Inr (), b)
     \<and> (\<exists>s. gm_get (GetServerStates b) ''s1'' = Some s \<and> ss_instance s = None \<and> \<not> usable s) \<and> \<not> in_running (ap_insts b ! 0)"
proof -
  obtain r b where u: "UpdateServerActiveState demo_env ''s1'' False demo_app = (r, b)"
    by (cases "UpdateServerActiveState demo_env ''s1'' False demo_app")
  have g: "gm_get (ap_config demo_app) ''s1'' = Some \<lparr>zs_profile = 0, zs_instance = Some 0, zs_health = StatusUp, zs_metrics = Some \<lparr>mt_active = 2, mt_latency = 7\<rparr>\<rparr>"
    (is "_ = Some ?z") by (simp add: demo_app_eval)
  have "pf_active (prof demo_app ?z)" by (simp add: demo_app_eval blank_profile_def)
  from deactivation_complete [OF demo_boot app_steps.refl g this u] u show ?thesis by auto
qed

primrec fail_times :: "nat \<Rightarrow> string \<Rightarrow> app \<Rightarrow> app" where
  "fail_times 0 k a = a"
| "fail_times (Suc n) k a = ReportFailure k (fail_times n k a)"

definition failure_count :: "string \<Rightarrow> app \<Rightarrow> nat" where
  "failure_count k a = (case gm_get (ap_failures a) k of None \<Rightarrow> 0 | Some n \<Rightarrow> n)"

lemma ReportFailure_count:
  "failure_count k (ReportFailure k a) = (if failure_count k a + 1 \<ge> 5 then 0 else failure_count k a + 1)
   \<and> ap_jobs (ReportFailure k a) = ap_jobs a @ (if failure_count k a + 1 \<ge> 5 then [JCheck k] else [])"
  by (auto simp: ReportFailure_def failure_count_def Let_def gm_get_put split: option.splits)

text \<open>
  The failure threshold: n failures of a server reported in a row, after a success or from a
  counter below five, trigger exactly one health check per five failures, and the counter is
  left at the remainder.
\<close>

lemma failure_threshold:
  assumes "failure_count k a < 5"
  shows "failure_count k (fail_times n k a) = (failure_count k a + n) mod 5
       \<and> ap_jobs (fail_times n k a) = ap_jobs a @ replicate ((failure_count k a + n) div 5) (JCheck k)"
proof (induction n)
  case 0
  with assms show ?case by simp
next
  case (Suc n)
  let ?m = "failure_count k a + n"
  have step: "(Suc ?m) mod 5 = (if ?m mod 5 + 1 \<ge> 5 then 0 else ?m mod 5 + 1)"
    "(Suc ?m) div 5 = (if ?m mod 5 + 1 \<ge> 5 then Suc (?m div 5) else ?m div 5)"
    by (simp_all add: mod_Suc div_Suc) presburger+
  show ?case
    using Suc ReportFailure_count [of k "fail_times n k a"] step by (simp add: replicate_append_same)
qed

lemma failure_threshold_witness:
  "failure_count ''s1'' (fail_times 12 ''s1'' demo_app) = 2 \<and> ap_jobs (fail_times 12 ''s1'' demo_app) = [JRouting, JCheck ''s1'', JCheck ''s1'']"
proof -
  have "failure_count ''s1'' demo_app = 0" "ap_jobs demo_app = [JRouting]" by (simp_all add: failure_count_def demo_app_eval)
  with failure_threshold [of "''s1''" demo_app 12] show ?thesis by (simp add: numeral_2_eq_2)
qed

end
