(* ===== verification/Lifecycle.thy ===== *)
theory Lifecycle
  imports AppInvariant Gateway
begin

section \<open>Stopping the server: Stop, done and the health check loop (app/appserver.go)\<close>

text \<open>
  The health check loop waits for the ticker or for the channel that \<open>done()\<close> returns, and calls
  \<open>done()\<close> anew each time it waits. The goroutine that \<open>done()\<close> starts closes its channel under
  \<open>stopOnce\<close>, the same \<open>sync.Once\<close> that guards the body of \<open>Stop\<close>. A channel is a number, \<open>lf_pending\<close>
  holds the channels whose goroutine has not run yet.
\<close>

record life =
  lf_app :: app
  lf_gateway :: gateway
  lf_once :: bool
  lf_ticker :: bool
  lf_loop :: bool
  lf_cur :: nat
  lf_next :: nat
  lf_pending :: "nat list"
  lf_closed :: "nat list"

definition stop_server :: "string \<Rightarrow> app \<Rightarrow> app" where
  "stop_server k a =
     (case gm_get (ap_config a) k of
        None \<Rightarrow> a
      | Some z \<Rightarrow>
          (case zs_instance z of
             Some p \<Rightarrow> put_state k (z\<lparr>zs_instance := None\<rparr>) (CloseTunnel p a)
           | None \<Rightarrow> a))"

definition Stop :: "life \<Rightarrow> life" where
  "Stop l =
     (if lf_once l then l
      else l\<lparr>lf_once := True, lf_ticker := False,
             lf_app := fold stop_server (map fst (ap_config (lf_app l))) (lf_app l),
             lf_gateway := gateway_Close (lf_gateway l)\<rparr>)"

definition done_call :: "life \<Rightarrow> life" where
  "done_call l = l\<lparr>lf_cur := lf_next l, lf_pending := lf_pending l @ [lf_next l], lf_next := Suc (lf_next l)\<rparr>"

definition done_goroutine :: "nat \<Rightarrow> life \<Rightarrow> life" where
  "done_goroutine ch l =
     (let l' = l\<lparr>lf_pending := remove1 ch (lf_pending l)\<rparr> in
      if lf_once l then l' else l'\<lparr>lf_once := True, lf_closed := ch # lf_closed l\<rparr>)"

text \<open>The loop: it starts by waiting, a tick runs the checks and waits again, a closed channel ends it.\<close>

definition loop_start :: "life \<Rightarrow> life" where
  "loop_start l = done_call (l\<lparr>lf_loop := True\<rparr>)"

definition loop_tick :: "env \<Rightarrow> life \<Rightarrow> life" where
  "loop_tick env l = done_call (l\<lparr>lf_app := runHealthChecks env (lf_app l)\<rparr>)"

definition loop_exit :: "life \<Rightarrow> life" where
  "loop_exit l = l\<lparr>lf_loop := False\<rparr>"

inductive life_step :: "env \<Rightarrow> life \<Rightarrow> life \<Rightarrow> bool" for env where
  close_channel: "ch \<in> set (lf_pending l) \<Longrightarrow> life_step env l (done_goroutine ch l)"
| tick: "lf_loop l \<Longrightarrow> lf_ticker l \<Longrightarrow> life_step env l (loop_tick env l)"
| exit: "lf_loop l \<Longrightarrow> lf_cur l \<in> set (lf_closed l) \<Longrightarrow> life_step env l (loop_exit l)"
| stop: "life_step env l (Stop l)"

inductive life_steps :: "env \<Rightarrow> life \<Rightarrow> life \<Rightarrow> bool" for env where
  refl: "life_steps env l l"
| step: "life_steps env l m \<Longrightarrow> life_step env m n \<Longrightarrow> life_steps env l n"

definition life_start :: "app \<Rightarrow> gateway \<Rightarrow> life" where
  "life_start a g = loop_start \<lparr>lf_app = a, lf_gateway = g, lf_once = False, lf_ticker = True, lf_loop = False, lf_cur = 0,
     lf_next = 0, lf_pending = [], lf_closed = []\<rparr>"

subsection \<open>What stopping does\<close>

lemma once_stays: "life_step env l m \<Longrightarrow> lf_once l \<Longrightarrow> lf_once m \<and> lf_gateway m = lf_gateway l \<and> lf_closed m = lf_closed l"
  by (induction rule: life_step.induct) (simp_all add: done_goroutine_def loop_tick_def done_call_def loop_exit_def Stop_def Let_def)

lemma once_stays_steps: "life_steps env l m \<Longrightarrow> lf_once l \<Longrightarrow> lf_once m \<and> lf_gateway m = lf_gateway l \<and> lf_closed m = lf_closed l"
  by (induction rule: life_steps.induct) (auto dest: once_stays)

lemma loop_stays: "life_steps env l m \<Longrightarrow> lf_once l \<Longrightarrow> lf_closed l = [] \<Longrightarrow> lf_loop l \<Longrightarrow> lf_loop m"
proof (induction rule: life_steps.induct)
  case (step l m n)
  then have "lf_loop m" "lf_closed m = []" using once_stays_steps by auto
  with step(2) show ?case
    by cases (auto simp: done_goroutine_def loop_tick_def done_call_def Stop_def Let_def)
qed

lemma stop_server_zone: "zone_ok a \<Longrightarrow> zone_ok (stop_server k a)"
  by (auto simp: stop_server_def intro: close_zone_ok split: option.splits)

lemma stop_server_keys: "map fst (ap_config (stop_server k a)) = map fst (ap_config a)"
proof -
  have "k \<in> fst ` set (ap_config a)" if "gm_get (ap_config a) k = Some z" for z
    using that by (auto dest!: map_of_SomeD intro: rev_image_eqI)
  then show ?thesis by (auto simp: stop_server_def put_state_def update_keys split: option.splits)
qed

lemma stop_all_closes:
  assumes "zone_ok a"
  shows "\<forall>p < length (ap_insts (fold stop_server (map fst (ap_config a)) a)). \<not> in_running (ap_insts (fold stop_server (map fst (ap_config a)) a) ! p)"
proof -
  let ?ids = "map fst (ap_config a)" and ?b = "fold stop_server (map fst (ap_config a)) a"
  let ?I = "\<lambda>b. zone_ok b \<and> map fst (ap_config b) = ?ids"
  let ?Q = "\<lambda>k b. \<forall>z. gm_get (ap_config b) k = Some z \<longrightarrow> zs_instance z = None"
  have *: "?I ?b \<and> (\<forall>k \<in> set ?ids. ?Q k ?b)"
    by (rule fold_establishes [where I = ?I and Q = ?Q])
      (use assms in \<open>auto simp: stop_server_zone stop_server_keys, auto simp: stop_server_def split: option.splits if_splits\<close>)
  then have "zs_instance z = None" if "gm_get (ap_config ?b) k = Some z" for k z
    using that by (metis map_of_eq_None_iff list.set_map option.distinct(1))
  then show ?thesis using zone_owner [of ?b] * by fastforce
qed

text \<open>
  C40. Stop works only in a race: from the start of the health check loop on, if a goroutine of
  done() runs before Stop is called, every later Stop does nothing at all; if Stop comes first it
  closes every tunnel instance and the gateway, but then the health check loop, and with it
  the server's Wait, never ends.
\<close>

theorem stop_race:
  assumes "zone_ok a" and "life_steps env (life_start a g) l" and "life_steps env l' m"
  shows "(l' = done_goroutine ch l \<and> \<not> lf_once l \<longrightarrow> Stop m = m)
       \<and> (l' = Stop (life_start a g) \<longrightarrow> gw_closed (lf_gateway m) \<and> lf_loop m
            \<and> (\<forall>p < length (ap_insts (lf_app l')). \<not> in_running (ap_insts (lf_app l') ! p)))"
proof (intro conjI impI)
  assume "l' = done_goroutine ch l \<and> \<not> lf_once l"
  then have "lf_once l'" by (simp add: done_goroutine_def Let_def)
  with once_stays_steps [OF assms(3)] show "Stop m = m" by (simp add: Stop_def)
next
  assume l': "l' = Stop (life_start a g)"
  have s: "lf_once l'" "lf_closed l' = []" "lf_loop l'" "gw_closed (lf_gateway l')"
    "lf_app l' = fold stop_server (map fst (ap_config a)) a"
    by (simp_all add: l' Stop_def life_start_def loop_start_def done_call_def gateway_Close_def)
  show "gw_closed (lf_gateway m)" using once_stays_steps [OF assms(3) s(1)] s(4) by simp
  show "lf_loop m" using loop_stays [OF assms(3) s(1-3)] .
  show "\<forall>p < length (ap_insts (lf_app l')). \<not> in_running (ap_insts (lf_app l') ! p)"
    unfolding s(5) using stop_all_closes [OF assms(1)] .
qed

theorem stop_race_witness:
  "Stop (done_goroutine 0 (life_start demo_app (New 9))) = done_goroutine 0 (life_start demo_app (New 9))
   \<and> in_running (ap_insts (lf_app (Stop (done_goroutine 0 (life_start demo_app (New 9))))) ! 0)"
proof -
  let ?l = "life_start demo_app (New 9)"
  have z: "zone_ok demo_app" using reachable_good [OF demo_boot app_steps.refl] by (rule good_zone)
  have "\<not> lf_once ?l" by (simp add: life_start_def loop_start_def done_call_def)
  with stop_race [where a = demo_app and g = "New 9" and l = ?l and l' = "done_goroutine 0 ?l" and m = "done_goroutine 0 ?l" and ch = 0,
      OF z life_steps.refl life_steps.refl]
  have "Stop (done_goroutine 0 ?l) = done_goroutine 0 ?l" by blast
  then show ?thesis
    by (simp add: done_goroutine_def life_start_def loop_start_def done_call_def demo_app_eval Let_def)
qed

end
