(* ===== verification/ByteStream.thy ===== *)
theory ByteStream
  imports Prelude
begin

section \<open>Connections as byte streams\<close>

text \<open>
  The tunnels carry their bytes in messages of different kinds, and each kind has an adapter with the
  \<open>Read\<close> of a \<open>net.Conn\<close>. What their users (\<open>io.ReadFull\<close>, \<open>io.Copy\<close>) rely on is the contract
  \<open>stream_reader\<close>: while bytes are pending, a read into a non-empty slice returns some of
  them, in order, and keeps the rest.
\<close>

text \<open>A reader that asks again and again, until it is satisfied or a read fails.\<close>

fun reads :: "(nat \<Rightarrow> 's \<Rightarrow> bytes res \<times> 's) \<Rightarrow> nat list \<Rightarrow> 's \<Rightarrow> bytes list \<times> 's" where
  "reads rd [] s = ([], s)"
| "reads rd (n # ns) s =
     (case rd n s of
        (Inl e, s') \<Rightarrow> ([], s')
      | (Inr b, s') \<Rightarrow> (let (bs, s'') = reads rd ns s' in (b # bs, s'')))"

locale stream_reader =
  fixes rd :: "nat \<Rightarrow> 's \<Rightarrow> bytes res \<times> 's"
    and pending :: "'s \<Rightarrow> bytes"
    and ok :: "'s \<Rightarrow> bool"
  assumes read_some: "ok s \<Longrightarrow> 0 < n \<Longrightarrow> pending s \<noteq> [] \<Longrightarrow>
    \<exists>b s'. rd n s = (Inr b, s') \<and> b \<noteq> [] \<and> length b \<le> n \<and> pending s = b @ pending s' \<and> ok s'"
begin

lemma reads_in_order:
  assumes "ok s" and "list_all (\<lambda>n. 0 < n) ns" and "sum_list ns \<le> length (pending s)" and "reads rd ns s = (bs, s')"
  shows "pending s = concat bs @ pending s' \<and> list_all2 (\<lambda>b n. b \<noteq> [] \<and> length b \<le> n) bs ns"
  using assms
proof (induction ns arbitrary: s bs)
  case (Cons n ns)
  then have "pending s \<noteq> []" by auto
  with read_some [OF Cons.prems(1), of n] Cons.prems(2) obtain b s1 where
    r: "rd n s = (Inr b, s1)" "b \<noteq> []" "length b \<le> n" "pending s = b @ pending s1" "ok s1" by auto
  obtain bs1 where bs: "reads rd ns s1 = (bs1, s')" "bs = b # bs1"
    using Cons.prems(4) r(1) by (auto split: prod.splits)
  have "sum_list ns \<le> length (pending s1)" using Cons.prems(3) r(3,4) by simp
  from Cons.IH [OF r(5) _ this bs(1)] Cons.prems(2) r bs(2) show ?case by auto
qed simp

text \<open>\<open>io.ReadFull\<close>: reading on until so many bytes have come, or all.\<close>

lemma read_all:
  "ok s \<Longrightarrow> k \<le> length (pending s) \<Longrightarrow> \<exists>ns bs s'. reads rd ns s = (bs, s') \<and> concat bs = take k (pending s) \<and> ok s' \<and> pending s' = drop k (pending s)"
proof (induction k arbitrary: s rule: less_induct)
  case (less k)
  show ?case
  proof (cases k)
    case 0
    with less.prems show ?thesis by (intro exI [of _ "[]"]) simp
  next
    case (Suc m)
    then have "pending s \<noteq> []" using less.prems(2) by auto
    then obtain b s1 where r: "rd k s = (Inr b, s1)" "b \<noteq> []" "length b \<le> k" "pending s = b @ pending s1" "ok s1"
      using read_some [OF less.prems(1), of k] Suc by auto
    have "k - length b < k" "k - length b \<le> length (pending s1)" using r Suc less.prems(2) by auto
    from less.IH [OF this(1) r(5) this(2)] obtain ns bs s' where "reads rd ns s1 = (bs, s')" "concat bs = take (k - length b) (pending s1)"
      "ok s'" "pending s' = drop (k - length b) (pending s1)" by blast
    with r show ?thesis by (intro exI [of _ "k # ns"]) auto
  qed
qed

end

end
