(* ===== verification/WebSocket.thy ===== *)
theory WebSocket
  imports ByteStream
begin

section \<open>WebSocket connections as byte streams (internal/shared/buffer.go, conn_adapter.go)\<close>

text \<open>
  The tunnels run over WebSocket messages; \<open>WebSocketConnAdapter\<close> makes a \<open>net.Conn\<close> of them. A
  message is binary or not; \<open>ReadMessage\<close> gives the next one of \<open>ws_msgs\<close> or the error \<open>ws_end\<close>.
\<close>

record wsconn =
  ws_buf :: bytes
  ws_msgs :: "(bool \<times> bytes) list"
  ws_end :: goerr
  ws_sent :: "bytes list"

text \<open>\<open>bytes.Buffer.Read\<close> of at most \<open>n\<close> bytes: an empty buffer gives EOF unless nothing is asked.\<close>

definition buffer_read :: "nat \<Rightarrow> bytes \<Rightarrow> bytes res \<times> bytes" where
  "buffer_read n b = (if b = [] then (if n = 0 then Inr [] else Inl EOF, []) else (Inr (take n b), drop n b))"

definition buffer_write :: "bytes \<Rightarrow> bytes \<Rightarrow> bytes" where
  "buffer_write p b = b @ p"

definition ws_Read :: "nat \<Rightarrow> wsconn \<Rightarrow> bytes res \<times> wsconn" where
  "ws_Read n c =
     (let finish = (\<lambda>c. let (r, b') = buffer_read n (ws_buf c) in (r, c\<lparr>ws_buf := b'\<rparr>)) in
      if length (ws_buf c) = 0 then
        (case ws_msgs c of
           [] \<Rightarrow> (Inl (ws_end c), c)
         | (binary, msg) # rest \<Rightarrow>
             (let c' = c\<lparr>ws_msgs := rest\<rparr> in
              if \<not> binary then (Inl (Msg ''received non-binary message''), c')
              else finish (c'\<lparr>ws_buf := buffer_write msg (ws_buf c')\<rparr>)))
      else finish c)"

text \<open>\<open>werr\<close> is the outcome of \<open>WriteMessage\<close>: one binary message per write.\<close>

definition ws_Write :: "goerr option \<Rightarrow> bytes \<Rightarrow> wsconn \<Rightarrow> nat res \<times> wsconn" where
  "ws_Write werr b c =
     (case werr of Some e \<Rightarrow> (Inl e, c) | None \<Rightarrow> (Inr (length b), c\<lparr>ws_sent := ws_sent c @ [b]\<rparr>))"

text \<open>The bytes still to be read.\<close>

definition ws_pending :: "wsconn \<Rightarrow> bytes" where
  "ws_pending c = ws_buf c @ concat (map snd (ws_msgs c))"

definition ws_ok :: "wsconn \<Rightarrow> bool" where
  "ws_ok c \<longleftrightarrow> list_all (\<lambda>(binary, msg). binary \<and> msg \<noteq> []) (ws_msgs c)"

lemma ws_Read_stream:
  assumes "ws_ok c" and "0 < n" and "ws_pending c \<noteq> []"
  shows "\<exists>b c'. ws_Read n c = (Inr b, c') \<and> b \<noteq> [] \<and> length b \<le> n \<and> ws_pending c = b @ ws_pending c' \<and> ws_ok c'
    \<and> ws_sent c' = ws_sent c"
proof (cases "ws_buf c")
  case Nil
  with assms(3) obtain binary msg rest where m: "ws_msgs c = (binary, msg) # rest"
    by (cases "ws_msgs c") (auto simp: ws_pending_def)
  with assms(1) have "binary" "msg \<noteq> []" by (simp_all add: ws_ok_def)
  with Nil m assms show ?thesis
    by (auto simp: ws_Read_def Let_def buffer_read_def buffer_write_def ws_pending_def ws_ok_def take_eq_Nil)
next
  case (Cons x xs)
  with assms show ?thesis
    by (auto simp: ws_Read_def Let_def buffer_read_def ws_pending_def ws_ok_def take_Cons drop_Cons split: nat.splits)
qed

interpretation ws: stream_reader ws_Read ws_pending ws_ok
  using ws_Read_stream by unfold_locales blast

text \<open>
  WebSocket messages become a byte stream: as long as the peer sends non-empty binary messages,
  reads of any positive sizes return non-empty chunks no larger than asked, in order and with no
  byte lost, added or repeated, whatever the message boundaries.
\<close>

lemma ws_reads_stream:
  assumes "ws_ok c" and "list_all (\<lambda>n. 0 < n) ns" and "sum_list ns \<le> length (ws_pending c)" and "reads ws_Read ns c = (bs, c')"
  shows "ws_pending c = concat bs @ ws_pending c' \<and> list_all2 (\<lambda>b n. b \<noteq> [] \<and> length b \<le> n) bs ns"
  by (rule ws.reads_in_order [OF assms])

lemma ws_reads_stream_witness:
  "\<exists>bs c'. reads ws_Read [1, 2] \<lparr>ws_buf = [], ws_msgs = [(True, [1, 2]), (True, [3, 4])], ws_end = EOF, ws_sent = []\<rparr> = (bs, c')
     \<and> [1, 2, 3, 4] = concat bs @ ws_pending c'"
proof -
  let ?c = "\<lparr>ws_buf = [], ws_msgs = [(True, [1, 2]), (True, [3, 4])], ws_end = EOF, ws_sent = []\<rparr>"
  obtain bs c' where r: "reads ws_Read [1, 2] ?c = (bs, c')" by (cases "reads ws_Read [1, 2] ?c")
  from ws_reads_stream [OF _ _ _ r] show ?thesis using r by (auto simp: ws_ok_def ws_pending_def)
qed

text \<open>An empty message is read as the end of the connection.\<close>

lemma ws_empty_message_ends:
  "ws_buf c = [] \<Longrightarrow> ws_msgs c = (True, []) # rest \<Longrightarrow> 0 < n \<Longrightarrow> fst (ws_Read n c) = Inl EOF"
  by (simp add: ws_Read_def Let_def buffer_read_def buffer_write_def)

end
