(* ===== verification/Worker.thy ===== *)
theory Worker
  imports Protocol Socks
begin

section \<open>The worker strategy: one tunnel per connection (internal/tunnel/worker/strategy.go)\<close>

text \<open>
  A connection of the worker strategy: SOCKS5 handshake, a tunnel of its own, the request
  packet, the worker's confirmation, then two loops. Upstream packets are encrypted,
  downstream packets are not. \<open>chunks\<close> are the reads of the client connection after the
  handshake, up to the error that ends them, \<open>rnd\<close> gives the nonce of the n-th encrypted packet.
\<close>

definition secure_write :: "aead \<Rightarrow> bytes res \<Rightarrow> packet \<Rightarrow> (conn, unit) io" where
  "secure_write c rnd p k =
     (case WriteSecurePacket c rnd None p [] of
        Inl e \<Rightarrow> Some (Inl e, k)
      | Inr (p', b) \<Rightarrow>
          (case write_c b k of
             Some (Inl e, k') \<Rightarrow> Some (Inl (secure_err ''write'' e), k')
           | r \<Rightarrow> r))"

definition read_unsecure :: "(conn, packet) io" where
  "read_unsecure k =
     Some (case ReadUnsecurePacket (c_in k) of
             Inl e \<Rightarrow> (Inl e, k)
           | Inr (p, s) \<Rightarrow> (Inr p, k\<lparr>c_in := s\<rparr>))"

definition waitForSuccess :: "(conn, unit) io" where
  "waitForSuccess =
     bind_io read_unsecure (\<lambda>packet.
       if pk_flag packet \<noteq> FlagControlNewStreamTCPSuccess
       then fail_io (Msg (''unexpected flag from worker: got '' @ show_nat (unat (pk_flag packet)) @ '', want ''
              @ show_nat (unat FlagControlNewStreamTCPSuccess)))
       else ret_io ())"

abbreviation data_packet :: "bytes \<Rightarrow> packet" where
  "data_packet b \<equiv> \<lparr>pk_stream = 1, pk_flag = FlagTCPData, pk_payload = b\<rparr>"

abbreviation close_packet :: packet where
  "close_packet \<equiv> \<lparr>pk_stream = 1, pk_flag = FlagControlCloseStream, pk_payload = []\<rparr>"

fun worker_up :: "aead \<Rightarrow> (nat \<Rightarrow> bytes res) \<Rightarrow> nat \<Rightarrow> bytes list \<Rightarrow> conn \<Rightarrow> conn" where
  "worker_up c rnd n [] k = (case secure_write c (rnd n) close_packet k of Some (_, k') \<Rightarrow> k' | None \<Rightarrow> k)"
| "worker_up c rnd n (b # bs) k =
     (case secure_write c (rnd n) (data_packet b) k of
        Some (Inr _, k') \<Rightarrow> worker_up c rnd (Suc n) bs k'
      | Some (Inl e, k') \<Rightarrow> k'
      | None \<Rightarrow> k)"

function worker_down :: "stream \<Rightarrow> conn \<Rightarrow> conn" where
  "worker_down s client =
     (case ReadUnsecurePacket s of
        Inl e \<Rightarrow> client
      | Inr (packet, s') \<Rightarrow>
          if pk_flag packet = FlagTCPData then
            (case write_c (pk_payload packet) client of
               Some (Inr _, client') \<Rightarrow> worker_down s' client'
             | Some (Inl e, client') \<Rightarrow> client'
             | None \<Rightarrow> client)
          else if pk_flag packet = FlagControlCloseStream then client
          else worker_down s' client)"
  by pat_completeness auto
termination
  by (relation "measure (\<lambda>(s, client). length (sdata s))") (auto simp: ReadUnsecurePacket_def dest: read_packet_shrinks)

declare worker_down.simps [simp del]

text \<open>\<open>tunnel\<close> is the outcome of \<open>createTunnel\<close>. The result holds the client connection and, when a
  tunnel was opened, its connection.\<close>

definition worker_handleClientConnection ::
  "aead \<Rightarrow> (nat \<Rightarrow> bytes res) \<Rightarrow> conn res \<Rightarrow> bytes list \<Rightarrow> conn \<Rightarrow> (conn \<times> conn option) option" where
  "worker_handleClientConnection c rnd tunnel chunks client =
     (case worker_HandshakeWithClient client of
        None \<Rightarrow> None
      | Some (Inl e, client1) \<Rightarrow> Some (client1, None)
      | Some (Inr (cmd, targetAddr), client1) \<Rightarrow>
          if cmd \<noteq> 1 then
            Some (if cmd = 3 then snd (the (write_c [0x05, 0x08, 0x00, 0x01, 0, 0, 0, 0, 0, 0] client1)) else client1, None)
          else
            (case tunnel of
               Inl e \<Rightarrow> Some (client1, None)
             | Inr tun \<Rightarrow>
                 (case secure_write c (rnd 0)
                     \<lparr>pk_stream = 1, pk_flag = FlagControlNewStreamTCP, pk_payload = buildMetadataForWorker 1 targetAddr\<rparr> tun of
                    None \<Rightarrow> None
                  | Some (Inl e, tun1) \<Rightarrow> Some (client1, Some tun1)
                  | Some (Inr _, tun1) \<Rightarrow>
                      (case waitForSuccess tun1 of
                         None \<Rightarrow> None
                       | Some (Inl e, tun2) \<Rightarrow> Some (client1, Some tun2)
                       | Some (Inr _, tun2) \<Rightarrow>
                           (let client2 = snd (the (write_c socks_granted client1)) in
                            Some (worker_down (c_in tun2) client2, Some (worker_up c rnd 1 chunks tun2)))))))"

subsection \<open>The loops\<close>

text \<open>What a packet sequence means to the client: the data up to the close.\<close>

fun delivered :: "packet list \<Rightarrow> bytes" where
  "delivered [] = []"
| "delivered (p # ps) =
     (if pk_flag p = FlagTCPData then pk_payload p @ delivered ps
      else if pk_flag p = FlagControlCloseStream then [] else delivered ps)"

lemma worker_down_delivers:
  "encode_all packet_bytes ps = Inr b \<Longrightarrow> worker_down \<lparr>sdata = b, sfin = EOF\<rparr> (live i e out) = live i e (out @ delivered ps)"
proof (induction ps arbitrary: b out)
  case Nil
  then show ?case using unsecure.dec_end by (subst worker_down.simps) simp
next
  case (Cons p ps)
  then obtain b1 b2 where b: "packet_bytes p = Inr b1" "encode_all packet_bytes ps = Inr b2" "b = b1 @ b2" by auto
  have "ReadUnsecurePacket \<lparr>sdata = b, sfin = EOF\<rparr> = Inr (p, \<lparr>sdata = b2, sfin = EOF\<rparr>)"
    using unsecure.dec_enc [of p b1 b2 EOF] b by simp
  then show ?case
    using Cons.IH [OF b(2)] by (subst worker_down.simps) (simp add: FlagTCPData_def FlagControlCloseStream_def)
qed

lemma secure_write_live:
  assumes "secure_bytes c (nonce, p) = Inr b"
  shows "secure_write c (Inr nonce) p (live i e out) = Some (Inr (), live i e (out @ b))"
  using assms by (auto simp: secure_write_def secure_bytes_def split: sum.splits prod.splits)

lemma worker_up_encodes:
  assumes "\<And>m. rnd m = Inr (nonce m)"
  shows "encode_all (secure_bytes c) (zip (map nonce [n..<n + length bs]) (map data_packet bs) @ [(nonce (n + length bs), close_packet)]) = Inr b
    \<Longrightarrow> worker_up c rnd n bs (live i e out) = live i e (out @ b)"
proof (induction bs arbitrary: n b out)
  case Nil
  then show ?case using assms secure_write_live [of c "nonce n" close_packet b i e out] by simp
next
  case (Cons x bs)
  have e: "[n..<n + length (x # bs)] = n # [Suc n..<Suc n + length bs]" by (simp add: upt_rec)
  from Cons.prems [unfolded e list.map zip_Cons_Cons append_Cons encode_all.simps] obtain b1 b2 where b: "secure_bytes c (nonce n, data_packet x) = Inr b1"
    "encode_all (secure_bytes c) (zip (map nonce [Suc n..<Suc n + length bs]) (map data_packet bs) @ [(nonce (Suc n + length bs), close_packet)]) = Inr b2"
    "b = b1 @ b2" by (auto simp del: upt_Suc)
  show ?case
    using Cons.IH [OF b(2)] secure_write_live [OF b(1)] assms b(3) by simp
qed

lemma encodable:
  assumes "aead_ok ov c" and "list_all (fresh_nonce c) xs"
    and "list_all (\<lambda>x. pk_payload (snd x) = [] \<or> ae_nonce_size c + length (pk_payload (snd x)) + ov \<le> 65532) xs"
  shows "\<exists>b. encode_all (secure_bytes c) xs = Inr b"
  using assms(2,3)
proof (induction xs)
  case (Cons x xs)
  have "\<exists>b. secure_bytes c x = Inr b"
    using sealed_length [OF assms(1), of x] Cons.prems by (auto simp: secure_bytes_Inr_iff packet_bytes_ok_iff)
  with Cons show ?case by auto
qed simp

lemma waitForSuccess_live:
  assumes "packet_bytes p = Inr b" and "pk_flag p = FlagControlNewStreamTCPSuccess"
  shows "waitForSuccess (live (b @ rest) e out) = Some (Inr (), live rest e out)"
proof -
  have "read_unsecure (live (b @ rest) e out) = Some (Inr p, live rest e out)"
    using unsecure.dec_enc [OF _ assms(1), of rest e] by (simp add: read_unsecure_def live_def)
  then show ?thesis using assms(2) by (simp add: waitForSuccess_def bind_io_def ret_io_def)
qed

lemma length_dest_bytes: "dest_ok False d \<Longrightarrow> length (dest_bytes d) \<le> 257"
  by (cases d) auto



end
