(* ===== verification/GoRemote.thy ===== *)
theory GoRemote
  imports Protocol Socks Types
begin

section \<open>The goremote strategy: many streams over one tunnel (internal/tunnel/goremote)\<close>

text \<open>
  The agent keeps one tunnel connection and multiplexes the client sessions over it by stream id.
  A tunnel connection is a number, in the order they are dialled; \<open>ag_sent\<close> is the sequence of
  packets written, each with its connection. \<open>Session\<close> and \<open>TunnelStream\<close> objects live in the
  lists \<open>ag_sessions\<close> and \<open>ag_streams\<close> and are named by their index there; \<open>ag_filed\<close> and
  \<open>ag_pipes\<close> are the \<open>sessions\<close> and \<open>streamPipes\<close> maps of the session manager, from stream ids to
  objects, so that an object outlives its entry. The operations are the critical sections of the
  code, run one after the other; \<open>dial\<close> is the outcome of dialling the server (and of
  \<open>securecrypt.NewCipher\<close>) and \<open>wr\<close> the outcome of a write. \<open>ag_crashed\<close> is a panic in a goroutine
  that does not recover: it ends the process.
\<close>

subsection \<open>agent.go and session.go: state\<close>

record tstream =
  ts_chan :: "bytes list"
  ts_closed :: bool

record session =
  se_id :: "16 word"
  se_ready :: bool
  se_closed :: bool
  se_out :: bytes

record agent =
  ag_profile :: server_profile
  ag_tunnel :: "nat option"
  ag_conns :: nat
  ag_dead :: "nat list"
  ag_sessions :: "session list"
  ag_filed :: "(16 word \<times> nat) list"
  ag_streams :: "tstream list"
  ag_pipes :: "(16 word \<times> nat) list"
  ag_next :: "32 word"
  ag_sent :: "(nat \<times> packet) list"
  ag_listening :: bool
  ag_stopped :: bool
  ag_crashed :: bool

definition NewAgent :: "server_profile \<Rightarrow> agent" where
  "NewAgent profile = \<lparr>ag_profile = profile, ag_tunnel = None, ag_conns = 0, ag_dead = [], ag_sessions = [], ag_filed = [],
     ag_streams = [], ag_pipes = [], ag_next = 0, ag_sent = [], ag_listening = False, ag_stopped = False, ag_crashed = False\<rparr>"

subsection \<open>The tunnel connection\<close>

definition GetConnection :: "goerr option \<Rightarrow> agent \<Rightarrow> nat res \<times> agent" where
  "GetConnection dial a =
     (case ag_tunnel a of
        Some t \<Rightarrow> (Inr t, a)
      | None \<Rightarrow>
          (case dial of
             Some e \<Rightarrow> (Inl (Wrap (''failed to connect to server '' @ pf_remarks (ag_profile a)) e), a)
           | None \<Rightarrow> (Inr (ag_conns a), a\<lparr>ag_tunnel := Some (ag_conns a), ag_conns := Suc (ag_conns a)\<rparr>)))"

definition closeConnection :: "nat \<Rightarrow> agent \<Rightarrow> agent" where
  "closeConnection conn a =
     (if ag_tunnel a = Some conn then a\<lparr>ag_dead := conn # ag_dead a, ag_tunnel := None\<rparr> else a)"

definition agent_WritePacket :: "goerr option \<Rightarrow> goerr option \<Rightarrow> packet \<Rightarrow> agent \<Rightarrow> unit res \<times> agent" where
  "agent_WritePacket dial wr p a =
     (case GetConnection dial a of
        (Inl e, a') \<Rightarrow> (Inl e, a')
      | (Inr t, a') \<Rightarrow>
          (case wr of
             Some e \<Rightarrow> (Inl e, closeConnection t a')
           | None \<Rightarrow> (Inr (), a'\<lparr>ag_sent := ag_sent a' @ [(t, p)]\<rparr>)))"

definition agent_UpdateServerProfile :: "server_profile \<Rightarrow> agent \<Rightarrow> agent" where
  "agent_UpdateServerProfile profile a =
     (case ag_tunnel a of
        Some t \<Rightarrow> a\<lparr>ag_profile := profile, ag_dead := t # ag_dead a, ag_tunnel := None\<rparr>
      | None \<Rightarrow> a\<lparr>ag_profile := profile\<rparr>)"

text \<open>\<open>listen\<close> is the outcome of \<open>net.Listen\<close>; the accept loop runs whatever the pre-connection gives.\<close>

definition agent_Start :: "goerr option \<Rightarrow> goerr option \<Rightarrow> agent \<Rightarrow> unit res \<times> agent" where
  "agent_Start listen dial a =
     (case listen of
        Some e \<Rightarrow> (Inl (Wrap (''goremote agent failed to listen on 127.0.0.1:'' @ itoa (pf_local_port (ag_profile a))) e), a)
      | None \<Rightarrow>
          (case GetConnection dial (a\<lparr>ag_listening := True\<rparr>) of
             (Inl e, a') \<Rightarrow> (Inl e, a')
           | (Inr _, a') \<Rightarrow> (Inr (), a')))"

subsection \<open>Sessions and downstream channels\<close>

definition NewTCPSession :: "agent \<Rightarrow> nat \<times> agent" where
  "NewTCPSession a =
     (let n = ag_next a + 1; streamID = (if n > 65530 then 1 else n); h = length (ag_sessions a) in
      (h, a\<lparr>ag_next := streamID,
            ag_sessions := ag_sessions a @ [\<lparr>se_id = ucast streamID, se_ready = False, se_closed = False, se_out = []\<rparr>],
            ag_filed := AList.update (ucast streamID) h (ag_filed a)\<rparr>))"

text \<open>\<open>NewTunnelStream\<close> followed by \<open>SetStreamPipe\<close>.\<close>

definition SetStreamPipe :: "16 word \<Rightarrow> agent \<Rightarrow> agent" where
  "SetStreamPipe i a =
     a\<lparr>ag_streams := ag_streams a @ [\<lparr>ts_chan = [], ts_closed = False\<rparr>],
       ag_pipes := AList.update i (length (ag_streams a)) (ag_pipes a)\<rparr>"

definition stream_Close :: "nat \<Rightarrow> agent \<Rightarrow> agent" where
  "stream_Close h a = a\<lparr>ag_streams := (ag_streams a)[h := (ag_streams a ! h)\<lparr>ts_closed := True\<rparr>]\<rparr>"

definition RemoveStreamPipe :: "16 word \<Rightarrow> agent \<Rightarrow> agent" where
  "RemoveStreamPipe i a =
     (case map_of (ag_pipes a) i of
        Some h \<Rightarrow> stream_Close h (a\<lparr>ag_pipes := AList.delete i (ag_pipes a)\<rparr>)
      | None \<Rightarrow> a)"

definition dataChannelSize :: nat where
  "dataChannelSize = 512"

text \<open>A send on a closed channel panics, also inside a \<open>select\<close>; on a full channel the default branch drops the data.\<close>

definition PushDownstreamData :: "nat \<Rightarrow> bytes \<Rightarrow> agent \<Rightarrow> agent" where
  "PushDownstreamData h data a =
     (let s = ag_streams a ! h in
      if ts_closed s then a\<lparr>ag_crashed := True\<rparr>
      else if length (ts_chan s) < dataChannelSize
      then a\<lparr>ag_streams := (ag_streams a)[h := s\<lparr>ts_chan := ts_chan s @ [data]\<rparr>]\<rparr>
      else a)"

text \<open>\<open>TunnelStream.Read\<close> into a buffer of \<open>n\<close> bytes; \<open>None\<close> is a read that waits for data.\<close>

definition stream_Read :: "nat \<Rightarrow> tstream \<Rightarrow> (bytes res \<times> tstream) option" where
  "stream_Read n s =
     (case ts_chan s of
        data # rest \<Rightarrow> Some (Inr (take n data), s\<lparr>ts_chan := rest\<rparr>)
      | [] \<Rightarrow> if ts_closed s then Some (Inl EOF, s) else None)"

definition stream_Write :: "goerr option \<Rightarrow> goerr option \<Rightarrow> 16 word \<Rightarrow> bytes \<Rightarrow> agent \<Rightarrow> nat res \<times> agent" where
  "stream_Write dial wr i p a =
     (case agent_WritePacket dial wr \<lparr>pk_stream = i, pk_flag = FlagTCPData, pk_payload = p\<rparr> a of
        (Inl e, a') \<Rightarrow> (Inl e, a')
      | (Inr _, a') \<Rightarrow> (Inr (length p), a'))"

definition session_Close :: "goerr option \<Rightarrow> goerr option \<Rightarrow> nat \<Rightarrow> agent \<Rightarrow> agent" where
  "session_Close dial wr h a =
     (let s = ag_sessions a ! h in
      if se_closed s then a
      else
        (let a1 = RemoveStreamPipe (se_id s) (a\<lparr>ag_sessions := (ag_sessions a)[h := s\<lparr>se_closed := True\<rparr>]\<rparr>)
         in snd (agent_WritePacket dial wr \<lparr>pk_stream = se_id s, pk_flag = FlagControlCloseStream, pk_payload = []\<rparr> a1)))"

text \<open>
  \<open>Session.Start\<close> (for a SOCKS5 session, which has no initial data) up to the wait for the server,
  then the two ways the wait ends. A write to a closed client connection fails and is ignored.
\<close>

definition session_request :: "goerr option \<Rightarrow> goerr option \<Rightarrow> nat \<Rightarrow> string \<Rightarrow> agent \<Rightarrow> agent" where
  "session_request dial wr h targetAddr a =
     (case agent_WritePacket dial wr
         \<lparr>pk_stream = se_id (ag_sessions a ! h), pk_flag = FlagControlNewStreamTCP, pk_payload = buildMetadata 1 targetAddr\<rparr> a of
        (Inl e, a') \<Rightarrow> session_Close dial wr h a'
      | (Inr _, a') \<Rightarrow>
          (let s = ag_sessions a' ! h in
           if se_closed s then a'
           else a'\<lparr>ag_sessions := (ag_sessions a')[h := s\<lparr>se_out := se_out s @ socks_granted\<rparr>]\<rparr>))"

definition session_ready :: "nat \<Rightarrow> agent \<Rightarrow> agent" where
  "session_ready h a =
     (let s = ag_sessions a ! h in
      if se_ready s then SetStreamPipe (se_id s) (a\<lparr>ag_sessions := (ag_sessions a)[h := s\<lparr>se_ready := False\<rparr>]\<rparr>)
      else a)"

definition session_timeout :: "goerr option \<Rightarrow> goerr option \<Rightarrow> nat \<Rightarrow> agent \<Rightarrow> agent" where
  "session_timeout dial wr h a = session_Close dial wr h a"

definition SignalConnectionSuccess :: "nat \<Rightarrow> agent \<Rightarrow> agent" where
  "SignalConnectionSuccess h a =
     a\<lparr>ag_sessions := (ag_sessions a)[h := (ag_sessions a ! h)\<lparr>se_ready := True\<rparr>]\<rparr>"

definition RemoveSession :: "goerr option \<Rightarrow> goerr option \<Rightarrow> 16 word \<Rightarrow> agent \<Rightarrow> agent" where
  "RemoveSession dial wr i a =
     (case map_of (ag_filed a) i of
        Some h \<Rightarrow> session_Close dial wr h (a\<lparr>ag_filed := AList.delete i (ag_filed a)\<rparr>)
      | None \<Rightarrow> a)"

definition CloseAllSessions :: "goerr option \<Rightarrow> goerr option \<Rightarrow> agent \<Rightarrow> agent" where
  "CloseAllSessions dial wr a = fold (session_Close dial wr) (map snd (ag_filed a)) a"

definition agent_Close :: "goerr option \<Rightarrow> goerr option \<Rightarrow> agent \<Rightarrow> agent" where
  "agent_Close dial wr a =
     (if ag_stopped a then a
      else
        (let a1 = a\<lparr>ag_stopped := True, ag_listening := False\<rparr>;
             a2 = (case ag_tunnel a1 of Some t \<Rightarrow> a1\<lparr>ag_dead := t # ag_dead a1, ag_tunnel := None\<rparr> | None \<Rightarrow> a1)
         in CloseAllSessions dial wr a2))"

subsection \<open>udp_manager.go and udp_session.go\<close>

definition parseSocks5UDPTarget :: "bytes \<Rightarrow> string \<times> int" where
  "parseSocks5UDPTarget data =
     (if length data < 10 then (''invalid'', 0)
      else if data ! 3 = 0x01 then (ip_string (take 4 (drop 4 data)), int (unat (get16 (data ! 8) (data ! 9))))
      else if data ! 3 = 0x03 then
        (let domainLen = unat (data ! 4) in
         if length data < 5 + domainLen + 2 then (''invalid'', 0)
         else (str_of (take domainLen (drop 5 data)), int (unat (get16 (data ! (5 + domainLen)) (data ! (6 + domainLen))))))
      else (''unknown_type'', 0))"

definition udp_addr :: "bytes \<Rightarrow> string" where
  "udp_addr data = (let (h, p) = parseSocks5UDPTarget data in join_host_port h (itoa p))"

record udp_session =
  us_running :: bool
  us_forward :: "int gomap"
  us_reverse :: "string gomap"
  us_to_clients :: "(string \<times> bytes) list"

definition udpTimeout :: int where
  "udpTimeout = 60000000000"

text \<open>A datagram from \<open>client\<close>: the NAT maps are updated and the datagram goes into the tunnel.\<close>

definition udp_upstream :: "int \<Rightarrow> string \<Rightarrow> bytes \<Rightarrow> udp_session \<Rightarrow> packet \<times> udp_session" where
  "udp_upstream now client data u =
     (\<lparr>pk_stream = 0xFFFF, pk_flag = FlagUDPData, pk_payload = data\<rparr>,
      u\<lparr>us_forward := gm_put client now (us_forward u), us_reverse := gm_put (udp_addr data) client (us_reverse u)\<rparr>)"

definition cleanupNatMap :: "int \<Rightarrow> udp_session \<Rightarrow> udp_session" where
  "cleanupNatMap now u = u\<lparr>us_forward := filter (\<lambda>(k, t). \<not> now - t > udpTimeout) (us_forward u)\<rparr>"

text \<open>\<open>resolve\<close> is \<open>net.ResolveUDPAddr\<close> on a client address.\<close>

definition HandleDownstreamPacket :: "(string \<Rightarrow> bool) \<Rightarrow> bytes \<Rightarrow> udp_session option \<Rightarrow> udp_session option" where
  "HandleDownstreamPacket resolve payload u =
     (case u of
        None \<Rightarrow> None
      | Some s \<Rightarrow>
          if \<not> us_running s then Some s
          else case gm_get (us_reverse s) (udp_addr payload) of
            None \<Rightarrow> Some s
          | Some client \<Rightarrow>
              if resolve client then Some (s\<lparr>us_to_clients := us_to_clients s @ [(client, payload)]\<rparr>) else Some s)"

definition GetOrCreateSingletonSession :: "goerr option \<Rightarrow> udp_session option \<Rightarrow> udp_session res \<times> udp_session option" where
  "GetOrCreateSingletonSession listen u =
     (case u of
        Some s \<Rightarrow>
          if us_running s then (Inr s, u)
          else (case listen of
                  Some e \<Rightarrow> (Inl (Wrap ''udp manager failed to listen'' e), u)
                | None \<Rightarrow> (let n = \<lparr>us_running = False, us_forward = [], us_reverse = [], us_to_clients = []\<rparr> in (Inr n, Some n)))
      | None \<Rightarrow>
          (case listen of
             Some e \<Rightarrow> (Inl (Wrap ''udp manager failed to listen'' e), u)
           | None \<Rightarrow> (let n = \<lparr>us_running = False, us_forward = [], us_reverse = [], us_to_clients = []\<rparr> in (Inr n, Some n))))"

text \<open>
  One turn of \<open>runUpstreamLoop\<close>: its start, a datagram, a read that timed out without a stop
  request, and an error or a stop, after which the session is closed and forgotten by the manager.
\<close>

datatype udp_event = Started | Datagram int string bytes | ReadTimeout int | ReadFailed

fun runUpstreamLoop :: "goerr option \<Rightarrow> goerr option \<Rightarrow> udp_event \<Rightarrow> agent \<times> udp_session option \<Rightarrow> agent \<times> udp_session option" where
  "runUpstreamLoop dial wr ev (a, None) = (a, None)"
| "runUpstreamLoop dial wr Started (a, Some s) = (a, Some (s\<lparr>us_running := True\<rparr>))"
| "runUpstreamLoop dial wr (Datagram now client data) (a, Some s) =
     (let (p, s') = udp_upstream now client data s in (snd (agent_WritePacket dial wr p a), Some s'))"
| "runUpstreamLoop dial wr (ReadTimeout now) (a, Some s) = (a, Some (cleanupNatMap now s))"
| "runUpstreamLoop dial wr ReadFailed (a, Some s) = (a, None)"

subsection \<open>The read loop\<close>

text \<open>One packet from the tunnel, for the agent and its UDP session.\<close>

definition handle_packet :: "(string \<Rightarrow> bool) \<Rightarrow> goerr option \<Rightarrow> goerr option \<Rightarrow> packet \<Rightarrow> agent \<times> udp_session option \<Rightarrow> agent \<times> udp_session option" where
  "handle_packet resolve dial wr p au =
     (let (a, udp) = au; i = pk_stream p in
      if pk_flag p = FlagControlNewStreamTCPSuccess then
        (case map_of (ag_filed a) i of Some h \<Rightarrow> SignalConnectionSuccess h a | None \<Rightarrow> a, udp)
      else if pk_flag p = FlagTCPData then
        (case map_of (ag_pipes a) i of Some h \<Rightarrow> PushDownstreamData h (pk_payload p) a | None \<Rightarrow> a, udp)
      else if pk_flag p = FlagUDPData then (a, HandleDownstreamPacket resolve (pk_payload p) udp)
      else if pk_flag p = FlagControlCloseStream then (RemoveSession dial wr i (RemoveStreamPipe i a), udp)
      else (a, udp))"

text \<open>\<open>StartReadLoop\<close> on the bytes \<open>s\<close> that connection \<open>conn\<close> delivers, with the cipher \<open>c\<close> of the tunnel.\<close>

function StartReadLoop :: "aead \<Rightarrow> (string \<Rightarrow> bool) \<Rightarrow> goerr option \<Rightarrow> goerr option \<Rightarrow> nat \<Rightarrow> stream \<Rightarrow> agent \<times> udp_session option \<Rightarrow> agent \<times> udp_session option" where
  "StartReadLoop c resolve dial wr conn s au =
     (case ReadSecurePacket c s of
        Inl e \<Rightarrow> (closeConnection conn (fst au), snd au)
      | Inr (packet, s') \<Rightarrow> StartReadLoop c resolve dial wr conn s' (handle_packet resolve dial wr packet au))"
  by pat_completeness auto
termination
  by (relation "measure (\<lambda>(c, resolve, dial, wr, conn, s, au). length (sdata s))") (auto dest: ReadSecurePacket_shrinks)

declare StartReadLoop.simps [simp del]

subsection \<open>The SOCKS5 entry\<close>

text \<open>\<open>udpSession\<close>: the address of the UDP listener, or why there is none.\<close>

definition handleUdpAssociate :: "agent \<Rightarrow> (bytes \<times> 16 word) res \<Rightarrow> bytes" where
  "handleUdpAssociate a udpSession =
     (if pf_type (ag_profile a) = ''worker'' then [0x05, 0x07, 0x00, 0x01, 0, 0, 0, 0, 0, 0]
      else case udpSession of
        Inl e \<Rightarrow> [0x05, 0x01, 0x00, 0x01, 0, 0, 0, 0, 0, 0]
      | Inr (ip, port) \<Rightarrow> [0x05, 0x00, 0x00, 0x01] @ (case to4 ip of Some b \<Rightarrow> b | None \<Rightarrow> []) @ put16 port)"

datatype socks_outcome = HandshakeFailed | SessionOpened nat string | Replied bytes

definition handleSocks5 :: "(bytes \<times> 16 word) res \<Rightarrow> conn \<Rightarrow> agent \<Rightarrow> (socks_outcome \<times> agent) option" where
  "handleSocks5 udpSession client a =
     (case HandshakeWithClient client of
        None \<Rightarrow> None
      | Some (Inl e, _) \<Rightarrow> Some (HandshakeFailed, a)
      | Some (Inr (cmd, targetAddr), _) \<Rightarrow>
          Some (if cmd = 1 then (let (h, a') = NewTCPSession a in (SessionOpened h targetAddr, a'))
                else if cmd = 3 then (Replied (handleUdpAssociate a udpSession), a)
                else (Replied [0x05, 0x07, 0x00, 0x01, 0, 0, 0, 0, 0, 0], a)))"

subsection \<open>The operations as a transition system\<close>

text \<open>
  The goroutines of an agent, each step one operation: clients open sessions, sessions send their
  request, start or time out, streams are written, packets arrive, the read loop of a connection
  ends, datagrams arrive, the profile is replaced and the agent is closed.
\<close>

type_synonym agent_state = "agent \<times> udp_session option"

inductive agent_step :: "(string \<Rightarrow> bool) \<Rightarrow> agent_state \<Rightarrow> agent_state \<Rightarrow> bool" for resolve where
  Start: "agent_step resolve (a, u) (snd (agent_Start listen dial a), u)"
| Open: "agent_step resolve (a, u) (snd (NewTCPSession a), u)"
| Request: "h < length (ag_sessions a) \<Longrightarrow> agent_step resolve (a, u) (session_request dial wr h target a, u)"
| Ready: "h < length (ag_sessions a) \<Longrightarrow> agent_step resolve (a, u) (session_ready h a, u)"
| Finish: "h < length (ag_sessions a) \<Longrightarrow> agent_step resolve (a, u) (session_Close dial wr h a, u)"
| Write: "agent_step resolve (a, u) (snd (stream_Write dial wr i p a), u)"
| Read: "h < length (ag_streams a) \<Longrightarrow> stream_Read n (ag_streams a ! h) = Some (r, s) \<Longrightarrow>
    agent_step resolve (a, u) (a\<lparr>ag_streams := (ag_streams a)[h := s]\<rparr>, u)"
| Packet: "agent_step resolve au (handle_packet resolve dial wr p au)"
| Lost: "agent_step resolve (a, u) (closeConnection conn a, u)"
| Udp: "agent_step resolve au (runUpstreamLoop dial wr ev au)"
| Associate: "agent_step resolve (a, u) (a, snd (GetOrCreateSingletonSession listen u))"
| Health: "agent_step resolve (a, u) (snd (GetConnection dial a), u)"
| Update: "agent_step resolve (a, u) (agent_UpdateServerProfile profile a, u)"
| Close: "agent_step resolve (a, u) (agent_Close dial wr a, u)"

inductive agent_reachable :: "(string \<Rightarrow> bool) \<Rightarrow> agent_state \<Rightarrow> bool" for resolve where
  Init: "agent_reachable resolve (NewAgent profile, None)"
| Step: "agent_reachable resolve au \<Longrightarrow> agent_step resolve au au' \<Longrightarrow> agent_reachable resolve au'"

subsection \<open>Invariants\<close>

text \<open>The connections: every one that was dialled is closed, except the current one.\<close>

definition tunnel_inv :: "agent \<Rightarrow> bool" where
  "tunnel_inv a \<longleftrightarrow>
     (\<forall>c < ag_conns a. c \<in> set (ag_dead a) \<or> ag_tunnel a = Some c)
   \<and> (\<forall>c. ag_tunnel a = Some c \<longrightarrow> Suc c = ag_conns a \<and> c \<notin> set (ag_dead a))
   \<and> (\<forall>c \<in> set (ag_dead a). c < ag_conns a)
   \<and> sorted (map fst (ag_sent a)) \<and> (\<forall>c \<in> fst ` set (ag_sent a). c < ag_conns a)"

text \<open>The streams: the registered ones are distinct open objects, and no send has hit a closed channel.\<close>

definition pipes_inv :: "agent \<Rightarrow> bool" where
  "pipes_inv a \<longleftrightarrow>
     distinct (map fst (ag_pipes a)) \<and> distinct (map snd (ag_pipes a))
   \<and> (\<forall>h \<in> snd ` set (ag_pipes a). h < length (ag_streams a) \<and> \<not> ts_closed (ag_streams a ! h))
   \<and> \<not> ag_crashed a"

text \<open>The sessions: an entry of the map is a session with that stream id.\<close>

definition filed_inv :: "agent \<Rightarrow> bool" where
  "filed_inv a \<longleftrightarrow>
     distinct (map fst (ag_filed a))
   \<and> (\<forall>(i, h) \<in> set (ag_filed a). h < length (ag_sessions a) \<and> se_id (ag_sessions a ! h) = i)
   \<and> unat (ag_next a) \<le> 65530"

definition agent_inv :: "agent \<Rightarrow> bool" where
  "agent_inv a \<longleftrightarrow> tunnel_inv a \<and> pipes_inv a \<and> filed_inv a"

lemma agent_invI: "tunnel_inv a \<Longrightarrow> pipes_inv a \<Longrightarrow> filed_inv a \<Longrightarrow> agent_inv a"
  by (simp add: agent_inv_def)

lemma agent_invD: "agent_inv a \<Longrightarrow> tunnel_inv a" "agent_inv a \<Longrightarrow> pipes_inv a" "agent_inv a \<Longrightarrow> filed_inv a"
  by (simp_all add: agent_inv_def)

text \<open>Each invariant reads only part of the state.\<close>

lemma pipes_inv_cong:
  "ag_pipes a = ag_pipes b \<Longrightarrow> ag_streams a = ag_streams b \<Longrightarrow> ag_crashed a = ag_crashed b \<Longrightarrow> pipes_inv a = pipes_inv b"
  by (simp add: pipes_inv_def)

lemma filed_inv_cong:
  "ag_filed a = ag_filed b \<Longrightarrow> ag_sessions a = ag_sessions b \<Longrightarrow> ag_next a = ag_next b \<Longrightarrow> filed_inv a = filed_inv b"
  by (simp add: filed_inv_def)

lemma tunnel_inv_cong:
  "ag_tunnel a = ag_tunnel b \<Longrightarrow> ag_conns a = ag_conns b \<Longrightarrow> ag_dead a = ag_dead b \<Longrightarrow> ag_sent a = ag_sent b \<Longrightarrow> tunnel_inv a = tunnel_inv b"
  by (simp add: tunnel_inv_def)

subsubsection \<open>The tunnel operations\<close>

lemma GetConnection_tunnel:
  assumes "tunnel_inv a"
  shows "tunnel_inv (snd (GetConnection dial a))"
    and "fst (GetConnection dial a) = Inr t \<Longrightarrow> ag_tunnel (snd (GetConnection dial a)) = Some t"
proof -
  show "tunnel_inv (snd (GetConnection dial a))"
    using assms by (auto simp: GetConnection_def tunnel_inv_def less_Suc_eq split: option.splits)
qed (auto simp: GetConnection_def split: option.splits)

lemma closeConnection_tunnel: "tunnel_inv a \<Longrightarrow> tunnel_inv (closeConnection t a)"
  by (auto simp: closeConnection_def tunnel_inv_def)

lemma send_tunnel:
  assumes "tunnel_inv a" and "ag_tunnel a = Some t"
  shows "tunnel_inv (a\<lparr>ag_sent := ag_sent a @ [(t, p)]\<rparr>)"
proof -
  have "Suc t = ag_conns a" using assms by (simp add: tunnel_inv_def)
  then have "\<forall>c \<in> fst ` set (ag_sent a). c \<le> t" using assms(1) by (auto simp: tunnel_inv_def)
  with assms show ?thesis by (auto simp: tunnel_inv_def sorted_append)
qed

lemma WritePacket_tunnel: "tunnel_inv a \<Longrightarrow> tunnel_inv (snd (agent_WritePacket dial wr p a))"
  using GetConnection_tunnel [of a dial]
  by (auto simp: agent_WritePacket_def closeConnection_tunnel send_tunnel split: prod.splits sum.splits option.splits)

lemma tunnel_frame [simp]:
  "ag_pipes (snd (GetConnection dial a)) = ag_pipes a" "ag_streams (snd (GetConnection dial a)) = ag_streams a"
  "ag_crashed (snd (GetConnection dial a)) = ag_crashed a" "ag_filed (snd (GetConnection dial a)) = ag_filed a"
  "ag_sessions (snd (GetConnection dial a)) = ag_sessions a" "ag_next (snd (GetConnection dial a)) = ag_next a"
  "ag_pipes (closeConnection t a) = ag_pipes a" "ag_streams (closeConnection t a) = ag_streams a"
  "ag_crashed (closeConnection t a) = ag_crashed a" "ag_filed (closeConnection t a) = ag_filed a"
  "ag_sessions (closeConnection t a) = ag_sessions a" "ag_next (closeConnection t a) = ag_next a"
  by (auto simp: GetConnection_def closeConnection_def split: option.splits)

lemma write_frame [simp]:
  "ag_pipes (snd (agent_WritePacket dial wr p a)) = ag_pipes a" "ag_streams (snd (agent_WritePacket dial wr p a)) = ag_streams a"
  "ag_crashed (snd (agent_WritePacket dial wr p a)) = ag_crashed a" "ag_filed (snd (agent_WritePacket dial wr p a)) = ag_filed a"
  "ag_sessions (snd (agent_WritePacket dial wr p a)) = ag_sessions a" "ag_next (snd (agent_WritePacket dial wr p a)) = ag_next a"
  by (simp_all add: agent_WritePacket_def GetConnection_def closeConnection_def split: option.splits)

lemma WritePacket_inv: "agent_inv a \<Longrightarrow> agent_inv (snd (agent_WritePacket dial wr p a))"
  by (auto simp: agent_inv_def WritePacket_tunnel pipes_inv_def filed_inv_def)

lemma GetConnection_inv: "agent_inv a \<Longrightarrow> agent_inv (snd (GetConnection dial a))"
  by (auto simp: agent_inv_def GetConnection_tunnel pipes_inv_def filed_inv_def)

lemma closeConnection_inv: "agent_inv a \<Longrightarrow> agent_inv (closeConnection t a)"
  by (auto simp: agent_inv_def closeConnection_tunnel pipes_inv_def filed_inv_def)

subsubsection \<open>Streams and sessions\<close>

lemma pipes_invI:
  assumes "distinct (map fst (ag_pipes a))" and "distinct (map snd (ag_pipes a))" and "\<not> ag_crashed a"
    and "\<And>i h. (i, h) \<in> set (ag_pipes a) \<Longrightarrow> h < length (ag_streams a) \<and> \<not> ts_closed (ag_streams a ! h)"
  shows "pipes_inv a"
  using assms by (auto simp: pipes_inv_def)

lemma pipes_invD:
  "pipes_inv a \<Longrightarrow> (i, h) \<in> set (ag_pipes a) \<Longrightarrow> h < length (ag_streams a) \<and> \<not> ts_closed (ag_streams a ! h)"
  by (force simp: pipes_inv_def)

lemma pipes_lookup:
  assumes "pipes_inv a" and "map_of (ag_pipes a) i = Some h"
  shows "h < length (ag_streams a)" and "\<not> ts_closed (ag_streams a ! h)"
proof -
  from assms(2) have "h \<in> snd ` set (ag_pipes a)" by (force dest: map_of_SomeD)
  with assms(1) show "h < length (ag_streams a)" "\<not> ts_closed (ag_streams a ! h)" by (auto simp: pipes_inv_def)
qed

lemma pipes_handles:
  assumes "pipes_inv a" and "map_of (ag_pipes a) i = Some h" and "map_of (ag_pipes a) j = Some k" and "i \<noteq> j"
  shows "h \<noteq> k"
proof -
  have "inj_on snd (set (ag_pipes a))" using assms(1) by (simp add: pipes_inv_def distinct_map)
  then show ?thesis
    using assms(2-4) inj_onD [of snd "set (ag_pipes a)" "(i, h)" "(j, k)"] by (auto dest: map_of_SomeD)
qed

lemma nth_list_update': "i < length xs \<Longrightarrow> xs[j := v] ! i = (if i = j then v else xs ! i)"
  by (auto simp: nth_list_update)

lemma RemoveStreamPipe_pipes:
  assumes "pipes_inv a"
  shows "pipes_inv (RemoveStreamPipe i a)"
proof (cases "map_of (ag_pipes a) i")
  case (Some h)
  let ?ps = "AList.delete i (ag_pipes a)"
  have inj: "inj_on snd (set (ag_pipes a))" using assms by (simp add: pipes_inv_def distinct_map)
  have "h \<notin> snd ` set ?ps"
    using inj_onD [OF inj] map_of_SomeD [OF Some] by (force simp: AList.delete_eq)
  moreover have "distinct (map fst ?ps)" "distinct (map snd ?ps)"
    using assms by (simp_all add: pipes_inv_def AList.delete_eq distinct_map_filter)
  moreover have "k < length (ag_streams a) \<and> \<not> ts_closed (ag_streams a ! k)" if "(j, k) \<in> set ?ps" for j k
    using that pipes_invD [OF assms, of j k] by (simp add: AList.delete_eq)
  ultimately show ?thesis using assms Some
    by (intro pipes_invI) (force simp: RemoveStreamPipe_def stream_Close_def pipes_inv_def nth_list_update')+
qed (simp add: RemoveStreamPipe_def assms)

lemma RemoveStreamPipe_frame [simp]:
  "ag_tunnel (RemoveStreamPipe i a) = ag_tunnel a" "ag_conns (RemoveStreamPipe i a) = ag_conns a"
  "ag_dead (RemoveStreamPipe i a) = ag_dead a" "ag_sent (RemoveStreamPipe i a) = ag_sent a"
  "ag_filed (RemoveStreamPipe i a) = ag_filed a" "ag_sessions (RemoveStreamPipe i a) = ag_sessions a"
  "ag_next (RemoveStreamPipe i a) = ag_next a" "ag_stopped (RemoveStreamPipe i a) = ag_stopped a"
  by (simp_all add: RemoveStreamPipe_def stream_Close_def split: option.splits)

lemma RemoveStreamPipe_inv: "agent_inv a \<Longrightarrow> agent_inv (RemoveStreamPipe i a)"
  by (auto simp: agent_inv_def RemoveStreamPipe_pipes tunnel_inv_def filed_inv_def)

lemma update_fresh_value:
  assumes "distinct (map snd ps)" and "n \<notin> snd ` set ps"
  shows "distinct (map snd (AList.update i n ps)) \<and> snd ` set (AList.update i n ps) \<subseteq> insert n (snd ` set ps)"
  using assms by (induction ps) (auto split: if_splits)

lemma SetStreamPipe_inv:
  assumes "agent_inv a"
  shows "agent_inv (SetStreamPipe i a)"
proof (rule agent_invI)
  let ?n = "length (ag_streams a)" and ?ps = "ag_pipes a"
  have pi: "pipes_inv a" by (rule agent_invD(2) [OF assms])
  have fresh: "?n \<notin> snd ` set ?ps" using pi by (auto simp: pipes_inv_def)
  have upd: "distinct (map snd (AList.update i ?n ?ps)) \<and> snd ` set (AList.update i ?n ?ps) \<subseteq> insert ?n (snd ` set ?ps)"
    using pi fresh by (intro update_fresh_value) (simp_all add: pipes_inv_def)
  moreover have "k = ?n \<or> k < ?n \<and> \<not> ts_closed (ag_streams a ! k)" if "k \<in> insert ?n (snd ` set ?ps)" for k
    using that pi by (auto simp: pipes_inv_def)
  ultimately have "k = ?n \<or> k < ?n \<and> \<not> ts_closed (ag_streams a ! k)" if "(j, k) \<in> set (AList.update i ?n ?ps)" for j k
    using that by (metis image_eqI snd_conv subsetD)
  with upd pi show "pipes_inv (SetStreamPipe i a)"
    by (intro pipes_invI) (fastforce simp: SetStreamPipe_def pipes_inv_def nth_append distinct_update)+
qed (use assms in \<open>auto simp: SetStreamPipe_def agent_inv_def tunnel_inv_def filed_inv_def\<close>)

lemma session_object_inv:
  assumes "agent_inv a" and "se_id s = se_id (ag_sessions a ! h)"
  shows "agent_inv (a\<lparr>ag_sessions := (ag_sessions a)[h := s]\<rparr>)"
proof (rule agent_invI)
  show "filed_inv (a\<lparr>ag_sessions := (ag_sessions a)[h := s]\<rparr>)"
    using assms by (fastforce simp: agent_inv_def filed_inv_def nth_list_update')
qed (use assms(1) in \<open>auto simp: agent_inv_def tunnel_inv_def pipes_inv_def\<close>)

lemma session_Close_inv: "agent_inv a \<Longrightarrow> agent_inv (session_Close dial wr h a)"
  by (simp add: session_Close_def Let_def WritePacket_inv RemoveStreamPipe_inv session_object_inv)

lemma session_request_inv: "agent_inv a \<Longrightarrow> agent_inv (session_request dial wr h target a)"
  using WritePacket_inv [of a dial wr "\<lparr>pk_stream = se_id (ag_sessions a ! h), pk_flag = FlagControlNewStreamTCP, pk_payload = buildMetadata 1 target\<rparr>"]
  by (auto simp: session_request_def Let_def session_Close_inv session_object_inv split: prod.splits sum.splits)

lemma session_ready_inv: "agent_inv a \<Longrightarrow> agent_inv (session_ready h a)"
  by (simp add: session_ready_def Let_def SetStreamPipe_inv session_object_inv)

lemma RemoveSession_inv:
  assumes "agent_inv a"
  shows "agent_inv (RemoveSession dial wr i a)"
proof -
  have "filed_inv (a\<lparr>ag_filed := AList.delete i (ag_filed a)\<rparr>)"
    using assms by (auto simp: agent_inv_def filed_inv_def AList.delete_eq distinct_map_filter)
  with assms have "agent_inv (a\<lparr>ag_filed := AList.delete i (ag_filed a)\<rparr>)"
    by (auto simp: agent_inv_def tunnel_inv_def pipes_inv_def)
  with assms show ?thesis by (simp add: RemoveSession_def session_Close_inv split: option.splits)
qed

lemma Push_inv:
  assumes "agent_inv a" and "map_of (ag_pipes a) i = Some h"
  shows "agent_inv (PushDownstreamData h d a)"
proof (rule agent_invI)
  show "pipes_inv (PushDownstreamData h d a)"
    using agent_invD(2) [OF assms(1)] pipes_lookup [OF agent_invD(2) [OF assms(1)] assms(2)]
    by (auto simp: PushDownstreamData_def Let_def pipes_inv_def nth_list_update)
qed (use assms(1) in \<open>auto simp: PushDownstreamData_def Let_def agent_inv_def tunnel_inv_def filed_inv_def\<close>)

lemma handle_packet_inv: "agent_inv (fst au) \<Longrightarrow> agent_inv (fst (handle_packet resolve dial wr p au))"
  by (cases au)
    (auto simp: handle_packet_def SignalConnectionSuccess_def Let_def Push_inv session_object_inv
      RemoveSession_inv RemoveStreamPipe_inv split: option.splits)

subsubsection \<open>Every step\<close>

lemma NewTCPSession_id:
  assumes "unat (ag_next a) \<le> 65530"
  shows "unat (ag_next (snd (NewTCPSession a))) = unat (ag_next a) mod 65530 + 1"
    and "unat (se_id (last (ag_sessions (snd (NewTCPSession a))))) = unat (ag_next a) mod 65530 + 1"
proof -
  let ?n = "ag_next a + 1"
  have n: "unat ?n = unat (ag_next a) + 1"
    using assms by (simp add: unat_word_ariths)
  have gt: "?n > 65530 \<longleftrightarrow> unat (ag_next a) = 65530"
    using assms n by (simp add: word_less_nat_alt) linarith
  define m where "m = (if ?n > 65530 then 1 else ?n)"
  have m: "unat m = unat (ag_next a) mod 65530 + 1"
    using assms n gt by (auto simp: m_def)
  then have "unat m < 2 ^ 16" using assms by (simp add: mod_less_divisor less_le_trans [of _ "65531"])
  then have "unat (ucast m :: 16 word) = unat m"
    by (simp add: unsigned_ucast_eq take_bit_eq_mod)
  with m show "unat (ag_next (snd (NewTCPSession a))) = unat (ag_next a) mod 65530 + 1"
    and "unat (se_id (last (ag_sessions (snd (NewTCPSession a))))) = unat (ag_next a) mod 65530 + 1"
    by (simp_all add: NewTCPSession_def Let_def m_def [symmetric])
qed

lemma NewTCPSession_inv:
  assumes "agent_inv a"
  shows "agent_inv (snd (NewTCPSession a))"
proof (rule agent_invI)
  have f: "filed_inv a" by (rule agent_invD(3) [OF assms])
  then have nxt: "unat (ag_next (snd (NewTCPSession a))) \<le> 65530"
    using NewTCPSession_id(1) [of a] by (simp add: filed_inv_def Suc_le_eq)
  have "(j, k) \<in> set (AList.update i n xs) \<Longrightarrow> j = i \<and> k = n \<or> (j, k) \<in> set xs" for i j :: "16 word" and k n :: nat and xs
    by (induction xs) (auto split: if_splits)
  with f nxt show "filed_inv (snd (NewTCPSession a))"
    by (fastforce simp: NewTCPSession_def Let_def filed_inv_def nth_append distinct_update)
qed (use assms in \<open>auto simp: NewTCPSession_def Let_def agent_inv_def tunnel_inv_def pipes_inv_def\<close>)

lemma agent_Close_inv: "agent_inv a \<Longrightarrow> agent_inv (agent_Close dial wr a)"
proof -
  have fold: "agent_inv b \<Longrightarrow> agent_inv (fold (session_Close dial wr) hs b)" for hs b
    by (induction hs arbitrary: b) (simp_all add: session_Close_inv)
  have drop: "agent_inv (case ag_tunnel b of Some t \<Rightarrow> b\<lparr>ag_dead := t # ag_dead b, ag_tunnel := None\<rparr> | None \<Rightarrow> b)"
    if "agent_inv b" for b
    using that by (auto simp: agent_inv_def tunnel_inv_def pipes_inv_def filed_inv_def split: option.splits)
  assume "agent_inv a"
  then have "agent_inv (a\<lparr>ag_stopped := True, ag_listening := False\<rparr>)"
    by (auto simp: agent_inv_def tunnel_inv_def pipes_inv_def filed_inv_def)
  from fold [OF drop [OF this]] \<open>agent_inv a\<close> show ?thesis
    unfolding agent_Close_def Let_def CloseAllSessions_def by simp
qed

lemma agent_Start_inv: "agent_inv a \<Longrightarrow> agent_inv (snd (agent_Start listen dial a))"
proof -
  assume "agent_inv a"
  then have "agent_inv (a\<lparr>ag_listening := True\<rparr>)"
    by (auto simp: agent_inv_def tunnel_inv_def pipes_inv_def filed_inv_def)
  from GetConnection_inv [OF this, of dial] \<open>agent_inv a\<close> show ?thesis
    by (auto simp: agent_Start_def split: option.splits prod.splits sum.splits)
qed

lemma runUpstreamLoop_inv: "agent_inv (fst au) \<Longrightarrow> agent_inv (fst (runUpstreamLoop dial wr ev au))"
  by (cases "(dial, wr, ev, au)" rule: runUpstreamLoop.cases) (auto simp: Let_def udp_upstream_def WritePacket_inv)

lemma stream_Write_snd: "snd (stream_Write dial wr i p a) = snd (agent_WritePacket dial wr \<lparr>pk_stream = i, pk_flag = FlagTCPData, pk_payload = p\<rparr> a)"
  by (auto simp: stream_Write_def split: prod.splits sum.splits)

lemma Read_inv:
  assumes "agent_inv a" and "stream_Read n (ag_streams a ! h) = Some (r, s)"
  shows "agent_inv (a\<lparr>ag_streams := (ag_streams a)[h := s]\<rparr>)"
proof (rule agent_invI)
  have "ts_closed s = ts_closed (ag_streams a ! h)"
    using assms(2) by (auto simp: stream_Read_def split: list.splits if_splits)
  with agent_invD(2) [OF assms(1)] show "pipes_inv (a\<lparr>ag_streams := (ag_streams a)[h := s]\<rparr>)"
    by (auto simp: pipes_inv_def nth_list_update')
qed (use assms(1) in \<open>auto simp: agent_inv_def tunnel_inv_def filed_inv_def\<close>)

lemma Update_inv: "agent_inv a \<Longrightarrow> agent_inv (agent_UpdateServerProfile p a)"
  by (auto simp: agent_UpdateServerProfile_def agent_inv_def tunnel_inv_def pipes_inv_def filed_inv_def split: option.splits)

lemmas agent_inv_steps = NewTCPSession_inv session_request_inv session_ready_inv session_Close_inv WritePacket_inv
  GetConnection_inv closeConnection_inv agent_Start_inv agent_Close_inv Update_inv Read_inv

lemma agent_step_inv: "agent_step resolve au au' \<Longrightarrow> agent_inv (fst au) \<Longrightarrow> agent_inv (fst au')"
proof (induction rule: agent_step.induct)
  case (Packet au dial wr p)
  then show ?case by (rule handle_packet_inv)
next
  case (Udp au dial wr ev)
  then show ?case by (rule runUpstreamLoop_inv)
qed (auto simp: agent_inv_steps stream_Write_snd)

lemma agent_reachable_inv: "agent_reachable resolve au \<Longrightarrow> agent_inv (fst au)"
proof (induction rule: agent_reachable.induct)
  case (Init profile)
  show ?case by (simp add: NewAgent_def agent_inv_def tunnel_inv_def pipes_inv_def filed_inv_def)
qed (rule agent_step_inv)

subsection \<open>One tunnel\<close>


definition demo_profile :: server_profile where
  "demo_profile = \<lparr>pf_id = ''s1'', pf_remarks = ''demo'', pf_type = ''goremote'', pf_active = True, pf_local_port = 0,
     pf_address = ''192.0.2.1'', pf_port = 443, pf_network = '''', pf_scheme = ''wss'', pf_path = ''/t'', pf_host = '''',
     pf_grpc_service = '''', pf_grpc_mode = '''', pf_grpc_authority = '''', pf_edge_ip = '''', pf_uuid = '''', pf_flow = '''',
     pf_security = '''', pf_sni = '''', pf_fingerprint = '''', pf_public_key = '''', pf_short_id = ''''\<rparr>"

text \<open>An agent with one session that the server has confirmed.\<close>

definition demo_agent :: agent where
  "demo_agent = session_ready 0 (SignalConnectionSuccess 0 (session_request None None 0 ''192.0.2.7:80'' (snd (NewTCPSession (NewAgent demo_profile)))))"

lemma demo_agent_eval:
  "ag_pipes demo_agent = [(1, 0)]" "ag_streams demo_agent = [\<lparr>ts_chan = [], ts_closed = False\<rparr>]"
  "ag_tunnel demo_agent = Some 0" "ag_filed demo_agent = [(1, 0)]" "ag_conns demo_agent = 1" "\<not> ag_stopped demo_agent"
  "ag_sessions demo_agent = [\<lparr>se_id = 1, se_ready = False, se_closed = False, se_out = socks_granted\<rparr>]"
  by (simp_all add: demo_agent_def session_ready_def SignalConnectionSuccess_def session_request_def NewTCPSession_def NewAgent_def
      agent_WritePacket_def GetConnection_def SetStreamPipe_def Let_def)

lemma demo_agent_reachable: "agent_reachable resolve (demo_agent, u)" if "u = None"
proof -
  let ?a0 = "NewAgent demo_profile"
  let ?a1 = "snd (NewTCPSession ?a0)"
  let ?a2 = "session_request None None 0 ''192.0.2.7:80'' ?a1"
  let ?p = "\<lparr>pk_stream = 1, pk_flag = FlagControlNewStreamTCPSuccess, pk_payload = []\<rparr>"
  have r1: "agent_reachable resolve (?a1, None)" by (rule Step [OF Init Open])
  have "0 < length (ag_sessions ?a1)" by (simp add: NewTCPSession_def Let_def)
  with r1 have r2: "agent_reachable resolve (?a2, None)" by (rule Step [OF _ Request])
  have "handle_packet resolve None None ?p (?a2, None) = (SignalConnectionSuccess 0 ?a2, None)"
    by (simp add: handle_packet_def session_request_def NewTCPSession_def NewAgent_def agent_WritePacket_def GetConnection_def Let_def)
  with Step [OF r2 Packet, of None None ?p] have r3: "agent_reachable resolve (SignalConnectionSuccess 0 ?a2, None)" by simp
  have "0 < length (ag_sessions (SignalConnectionSuccess 0 ?a2))"
    by (simp add: SignalConnectionSuccess_def session_request_def NewTCPSession_def NewAgent_def agent_WritePacket_def GetConnection_def Let_def)
  with r3 have "agent_reachable resolve (session_ready 0 (SignalConnectionSuccess 0 ?a2), None)" by (rule Step [OF _ Ready])
  then show ?thesis using that by (simp add: demo_agent_def)
qed


subsection \<open>Stream ids\<close>


subsection \<open>Demultiplexing\<close>

definition downstream :: "16 word \<Rightarrow> agent \<Rightarrow> tstream option" where
  "downstream i a = map_option ((!) (ag_streams a)) (map_of (ag_pipes a) i)"

lemma downstream_write [simp]: "downstream i (snd (agent_WritePacket dial wr p a)) = downstream i a"
  by (simp add: downstream_def)

lemma RemoveStreamPipe_other:
  assumes "pipes_inv a" and "i \<noteq> j"
  shows "downstream i (RemoveStreamPipe j a) = downstream i a"
proof (cases "map_of (ag_pipes a) j")
  case (Some k)
  then show ?thesis using assms pipes_handles [OF assms(1) _ Some assms(2)]
    by (cases "map_of (ag_pipes a) i") (auto simp: RemoveStreamPipe_def stream_Close_def downstream_def delete_conv')
qed (simp add: RemoveStreamPipe_def)

lemma RemoveSession_other:
  assumes "agent_inv a" and "i \<noteq> j"
  shows "downstream i (RemoveSession dial wr j a) = downstream i a"
proof (cases "map_of (ag_filed a) j")
  case (Some h)
  then have id: "se_id (ag_sessions a ! h) = j" using assms(1) by (auto simp: agent_inv_def filed_inv_def dest!: map_of_SomeD)
  have "downstream i (RemoveStreamPipe j (a\<lparr>ag_filed := f, ag_sessions := x\<rparr>)) = downstream i a" for f x
    using RemoveStreamPipe_other [OF _ assms(2), of "a\<lparr>ag_filed := f, ag_sessions := x\<rparr>"] agent_invD(2) [OF assms(1)]
    by (simp add: pipes_inv_def downstream_def)
  with Some id show ?thesis
    by (simp add: RemoveSession_def session_Close_def Let_def) (simp add: downstream_def)
qed (simp add: RemoveSession_def)

definition payloads_of :: "16 word \<Rightarrow> packet list \<Rightarrow> bytes list" where
  "payloads_of i ps = map pk_payload (filter (\<lambda>p. pk_flag p = FlagTCPData \<and> pk_stream p = i) ps)"

lemma own_packet:
  assumes "agent_inv a" and "downstream i a = Some s" and "length (ts_chan s) < dataChannelSize"
    and "pk_flag p = FlagTCPData" and "pk_stream p = i"
  shows "downstream i (fst (handle_packet resolve dial wr p (a, u))) = Some (s\<lparr>ts_chan := ts_chan s @ [pk_payload p]\<rparr>)"
proof -
  from assms(2) obtain h where h: "map_of (ag_pipes a) i = Some h" "s = ag_streams a ! h" by (auto simp: downstream_def)
  from pipes_lookup [OF agent_invD(2) [OF assms(1)] h(1)] assms(3-5) h show ?thesis
    by (simp add: handle_packet_def flag_defs Let_def PushDownstreamData_def downstream_def)
qed

lemma other_packet:
  assumes "agent_inv a" and "\<not> (pk_flag p = FlagTCPData \<and> pk_stream p = i)"
    and "\<not> (pk_flag p = FlagControlCloseStream \<and> pk_stream p = i)"
  shows "downstream i (fst (handle_packet resolve dial wr p (a, u))) = downstream i a"
proof -
  have push: "downstream i (PushDownstreamData h d a) = downstream i a"
    if "map_of (ag_pipes a) (pk_stream p) = Some h" "pk_stream p \<noteq> i" for h d
    using that pipes_handles [OF agent_invD(2) [OF assms(1)] _ that(1), of i]
    by (cases "map_of (ag_pipes a) i") (auto simp: PushDownstreamData_def Let_def downstream_def)
  have "downstream i (RemoveSession dial wr j (RemoveStreamPipe j a)) = downstream i a" if "j \<noteq> i" for j
    using that RemoveSession_other [OF RemoveStreamPipe_inv [OF assms(1)], of i j] RemoveStreamPipe_other [OF agent_invD(2) [OF assms(1)], of i j] by simp
  with push assms(2,3) show ?thesis
    by (auto simp: handle_packet_def Let_def SignalConnectionSuccess_def downstream_def split: option.splits)
qed

lemma demux:
  assumes "agent_inv a" and "downstream i a = Some s" and "length (ts_chan s) + length (payloads_of i ps) \<le> dataChannelSize"
    and "\<forall>p \<in> set ps. \<not> (pk_flag p = FlagControlCloseStream \<and> pk_stream p = i)"
  shows "downstream i (fst (fold (handle_packet resolve dial wr) ps (a, u))) = Some (s\<lparr>ts_chan := ts_chan s @ payloads_of i ps\<rparr>)"
  using assms
proof (induction ps arbitrary: a s u)
  case Nil
  then show ?case by (simp add: payloads_of_def)
next
  case (Cons p ps)
  obtain a1 u1 where h: "handle_packet resolve dial wr p (a, u) = (a1, u1)" by fastforce
  have inv: "agent_inv a1" using handle_packet_inv [of "(a, u)" resolve dial wr p] Cons.prems(1) h by simp
  show ?case
  proof (cases "pk_flag p = FlagTCPData \<and> pk_stream p = i")
    case True
    then have pl: "payloads_of i (p # ps) = pk_payload p # payloads_of i ps" by (simp add: payloads_of_def)
    with Cons.prems have lt: "length (ts_chan s) < dataChannelSize" by simp
    from own_packet [OF Cons.prems(1,2) lt, of p resolve dial wr u] True h
    have "downstream i a1 = Some (s\<lparr>ts_chan := ts_chan s @ [pk_payload p]\<rparr>)" by simp
    from Cons.IH [OF inv this, of u1] Cons.prems(3,4) h pl show ?thesis by simp
  next
    case False
    then have pl: "payloads_of i (p # ps) = payloads_of i ps" by (auto simp: payloads_of_def)
    have "downstream i a1 = Some s"
      using other_packet [OF Cons.prems(1) False, of resolve dial wr u] Cons.prems(2,4) h by simp
    from Cons.IH [OF inv this, of u1] Cons.prems(3,4) h pl show ?thesis by simp
  qed
qed

lemma StartReadLoop_packets:
  assumes "aead_ok ov c" and "list_all (fresh_nonce c) xs" and "encode_all (secure_bytes c) xs = Inr b"
  shows "StartReadLoop c resolve dial wr conn \<lparr>sdata = b, sfin = EOF\<rparr> au =
    (let (a, u) = fold (handle_packet resolve dial wr) (map snd xs) au in (closeConnection conn a, u))"
  using assms(2,3)
proof (induction xs arbitrary: b au)
  case Nil
  then show ?case using frame_codec.dec_end [OF secure_frame_codec [OF assms(1)]]
    by (subst StartReadLoop.simps) (simp add: case_prod_beta Let_def)
next
  case (Cons x xs)
  then obtain b1 b2 where b: "secure_bytes c x = Inr b1" "encode_all (secure_bytes c) xs = Inr b2" "b = b1 @ b2" by auto
  with Cons.prems frame_codec.dec_enc [OF secure_frame_codec [OF assms(1)], of x b1 b2 EOF]
  have "ReadSecurePacket c \<lparr>sdata = b, sfin = EOF\<rparr> = Inr (snd x, \<lparr>sdata = b2, sfin = EOF\<rparr>)" by simp
  then show ?case using Cons.IH [OF _ b(2)] Cons.prems by (subst StartReadLoop.simps) simp
qed

text \<open>
  Demultiplexing: let a registered stream have room in its channel. Whatever packets the server
  encrypts onto the tunnel, interleaved in any way with packets of other streams (data, UDP,
  confirmations and closes), and closing only other streams, the read loop leaves in the
  stream's channel exactly its own data payloads, in the order they were sent. The AEAD is a parameter.
\<close>

lemma downstream_demux:
  assumes "agent_reachable resolve (a, u)" and "downstream i a = Some s"
    and "aead_ok ov c" and "list_all (fresh_nonce c) xs" and "encode_all (secure_bytes c) xs = Inr b"
    and "length (ts_chan s) + length (payloads_of i (map snd xs)) \<le> dataChannelSize"
    and "\<forall>p \<in> snd ` set xs. \<not> (pk_flag p = FlagControlCloseStream \<and> pk_stream p = i)"
  shows "downstream i (fst (StartReadLoop c resolve dial wr conn \<lparr>sdata = b, sfin = EOF\<rparr> (a, u)))
       = Some (s\<lparr>ts_chan := ts_chan s @ payloads_of i (map snd xs)\<rparr>)"
proof -
  have "downstream i (closeConnection conn a) = downstream i a" for a by (simp add: downstream_def)
  moreover have "downstream i (fst (fold (handle_packet resolve dial wr) (map snd xs) (a, u)))
      = Some (s\<lparr>ts_chan := ts_chan s @ payloads_of i (map snd xs)\<rparr>)"
    using agent_reachable_inv [OF assms(1)] assms(7) by (intro demux [OF _ assms(2,6)]) auto
  ultimately show ?thesis
    unfolding StartReadLoop_packets [OF assms(3-5)] by (simp add: case_prod_beta Let_def)
qed

definition demo_tunnel_packets :: "(bytes \<times> packet) list" where
  "demo_tunnel_packets =
     [([0, 0], \<lparr>pk_stream = 1, pk_flag = 3, pk_payload = [8]\<rparr>), ([0, 1], \<lparr>pk_stream = 2, pk_flag = 3, pk_payload = [9]\<rparr>),
      ([0, 2], \<lparr>pk_stream = 2, pk_flag = 5, pk_payload = []\<rparr>), ([0, 3], \<lparr>pk_stream = 1, pk_flag = 3, pk_payload = [7]\<rparr>)]"

lemma downstream_demux_witness:
  "\<exists>b. encode_all (secure_bytes demo_aead) demo_tunnel_packets = Inr b
     \<and> downstream 1 (fst (StartReadLoop demo_aead (\<lambda>_. True) None None 0 \<lparr>sdata = b, sfin = EOF\<rparr> (demo_agent, None)))
       = Some \<lparr>ts_chan = [[8], [7]], ts_closed = False\<rparr>"
proof -
  have s: "downstream 1 demo_agent = Some \<lparr>ts_chan = [], ts_closed = False\<rparr>"
    by (simp add: downstream_def demo_agent_eval)
  have pl: "payloads_of 1 (map snd demo_tunnel_packets) = [[8], [7]]" by (simp add: payloads_of_def flag_defs demo_tunnel_packets_def)
  have fresh: "list_all (fresh_nonce demo_aead) demo_tunnel_packets"
    by (simp add: demo_tunnel_packets_def fresh_nonce_def demo_aead_def)
  obtain b where b: "encode_all (secure_bytes demo_aead) demo_tunnel_packets = Inr b"
    by (simp add: demo_tunnel_packets_def demo_aead_def secure_bytes_Inr_iff secure_bytes_def WriteSecurePacket_def WritePacket_def
        Encrypt_def packet_bytes_def)
  have "\<forall>p \<in> snd ` set demo_tunnel_packets. \<not> (pk_flag p = FlagControlCloseStream \<and> pk_stream p = 1)"
    by (simp add: demo_tunnel_packets_def flag_defs)
  from downstream_demux [OF demo_agent_reachable [OF refl] s demo_aead_ok fresh b _ this, of "\<lambda>_. True" None None 0]
  show ?thesis using b unfolding pl by (simp add: dataChannelSize_def)
qed

subsection \<open>UDP\<close>

lemma udp_upstream_routes:
  assumes "gm_get (us_reverse s) target = Some client" and "udp_addr d = target \<longrightarrow> c = client"
  shows "gm_get (us_reverse (snd (udp_upstream now c d s))) target = Some client"
  using assms by (auto simp: udp_upstream_def gm_get_put)

lemma udp_history_routes:
  assumes "gm_get (us_reverse s) target = Some client" and "us_running s"
    and "ReadFailed \<notin> set evs" and "\<forall>t c d. Datagram t c d \<in> set evs \<and> udp_addr d = target \<longrightarrow> c = client"
  shows "\<exists>s'. snd (fold (runUpstreamLoop dial wr) evs (a, Some s)) = Some s' \<and> us_running s'
       \<and> gm_get (us_reverse s') target = Some client \<and> us_to_clients s' = us_to_clients s"
  using assms
proof (induction evs arbitrary: a s)
  case (Cons ev evs)
  show ?case
  proof (cases ev)
    case (Datagram t c d)
    let ?s = "snd (udp_upstream t c d s)"
    have "gm_get (us_reverse ?s) target = Some client"
      using Cons.prems(1,4) Datagram by (intro udp_upstream_routes) auto
    moreover have "us_running ?s" "us_to_clients ?s = us_to_clients s" using Cons.prems(2) by (simp_all add: udp_upstream_def)
    moreover have "ReadFailed \<notin> set evs" "\<forall>t c d. Datagram t c d \<in> set evs \<and> udp_addr d = target \<longrightarrow> c = client"
      using Cons.prems(3,4) by auto
    ultimately show ?thesis using Cons.IH [of ?s] Datagram by (simp add: case_prod_beta Let_def)
  next
    case (ReadTimeout t)
    then show ?thesis using Cons.IH [of "cleanupNatMap t s"] Cons.prems by (auto simp: cleanupNatMap_def)
  next
    case Started
    then show ?thesis using Cons.IH [of "s\<lparr>us_running := True\<rparr>"] Cons.prems by auto
  qed (use Cons.prems(3) in simp)
qed simp

text \<open>
  C36. UDP replies: when a client has sent a datagram to a target through a running UDP session, then
  after any further datagrams of other clients to other targets and any number of idle clean-ups of
  the NAT table, a packet that comes back from that target is written to that client, once
  and unchanged.
\<close>

theorem udp_reply_routed:
  assumes "us_running s" and "resolve client"
    and "ReadFailed \<notin> set evs" and "\<forall>t c d. Datagram t c d \<in> set evs \<and> udp_addr d = udp_addr data \<longrightarrow> c = client"
    and "udp_addr reply = udp_addr data"
  shows "\<exists>s'. HandleDownstreamPacket resolve reply (snd (fold (runUpstreamLoop dial wr) (Datagram now client data # evs) (a, Some s))) = Some s'
       \<and> us_to_clients s' = us_to_clients s @ [(client, reply)]"
proof -
  let ?s = "snd (udp_upstream now client data s)"
  have "gm_get (us_reverse ?s) (udp_addr data) = Some client" "us_running ?s" "us_to_clients ?s = us_to_clients s"
    using assms(1) by (simp_all add: udp_upstream_def gm_get_put)
  note routed = this
  let ?a = "snd (agent_WritePacket dial wr (fst (udp_upstream now client data s)) a)"
  obtain s' where s': "snd (fold (runUpstreamLoop dial wr) evs (?a, Some ?s)) = Some s'" "us_running s'"
    "gm_get (us_reverse s') (udp_addr data) = Some client" "us_to_clients s' = us_to_clients s"
    using udp_history_routes [OF routed(1,2) assms(3,4)] routed(3) by metis
  then have "snd (fold (runUpstreamLoop dial wr) (Datagram now client data # evs) (a, Some s)) = Some s'"
    by (simp add: case_prod_beta Let_def)
  with s' assms(2,5) show ?thesis by (simp add: HandleDownstreamPacket_def)
qed

definition demo_datagram :: "8 word \<Rightarrow> bytes" where
  "demo_datagram x = [0, 0, 0, 1, 192, 0, 2, x, 0, 53, 9]"

lemma demo_udp_addr: "udp_addr (demo_datagram 7) = ''192.0.2.7:53''" "udp_addr (demo_datagram 8) = ''192.0.2.8:53''"
  by code_simp+

theorem udp_reply_routed_witness:
  "\<exists>s'. HandleDownstreamPacket (\<lambda>_. True) (demo_datagram 7)
      (snd (fold (runUpstreamLoop None None)
        [Datagram 0 ''127.0.0.1:5000'' (demo_datagram 7), Datagram 1 ''127.0.0.1:6000'' (demo_datagram 8), ReadTimeout 70000000000]
        (NewAgent demo_profile, Some \<lparr>us_running = True, us_forward = [], us_reverse = [], us_to_clients = []\<rparr>))) = Some s'
    \<and> us_to_clients s' = [(''127.0.0.1:5000'', demo_datagram 7)]"
  using udp_reply_routed [of "\<lparr>us_running = True, us_forward = [], us_reverse = [], us_to_clients = []\<rparr>" "\<lambda>_. True" "''127.0.0.1:5000''"
      "[Datagram 1 ''127.0.0.1:6000'' (demo_datagram 8), ReadTimeout 70000000000]" "demo_datagram 7" "demo_datagram 7" None None 0 "NewAgent demo_profile"]
  by (simp add: demo_udp_addr del: fold_simps)

subsection \<open>Closing an agent\<close>

lemma session_Close_dials:
  "ag_tunnel (session_Close None None h a) =
     (if se_closed (ag_sessions a ! h) then ag_tunnel a
      else Some (case ag_tunnel a of Some t \<Rightarrow> t | None \<Rightarrow> ag_conns a))"
  by (simp add: session_Close_def agent_WritePacket_def GetConnection_def Let_def split: option.splits)

lemma session_Close_closed: "se_closed (ag_sessions a ! h) \<Longrightarrow> session_Close dial wr h a = a"
  by (simp add: session_Close_def)

lemma close_sessions_keep: "ag_tunnel a = Some t \<Longrightarrow> ag_tunnel (fold (session_Close None None) hs a) = Some t"
  by (induction hs arbitrary: a) (simp_all add: session_Close_dials)

lemma close_sessions_dial:
  "ag_tunnel a = None \<Longrightarrow> \<exists>h \<in> set hs. \<not> se_closed (ag_sessions a ! h) \<Longrightarrow>
   ag_tunnel (fold (session_Close None None) hs a) = Some (ag_conns a)"
proof (induction hs arbitrary: a)
  case (Cons h hs)
  show ?case
  proof (cases "se_closed (ag_sessions a ! h)")
    case True
    with Cons show ?thesis by (simp add: session_Close_closed)
  next
    case False
    with Cons.prems(1) have "ag_tunnel (session_Close None None h a) = Some (ag_conns a)" by (simp add: session_Close_dials)
    then show ?thesis by (simp add: close_sessions_keep)
  qed
qed simp

lemma session_Close_stopped [simp]: "ag_stopped (session_Close dial wr h a) = ag_stopped a"
  by (simp add: session_Close_def agent_WritePacket_def GetConnection_def closeConnection_def Let_def split: option.splits)

lemma close_sessions_stopped [simp]: "ag_stopped (fold (session_Close dial wr) hs a) = ag_stopped a"
  by (induction hs arbitrary: a) simp_all

text \<open>
  Closing an agent that still has an open session, while the server is reachable, does not
  leave it without a connection: the close notice of the session dials a new tunnel after the old
  one was closed, and since the agent counts as stopped, closing it again changes nothing.
\<close>

lemma close_redials:
  assumes "\<not> ag_stopped a" and "map_of (ag_filed a) i = Some h" and "\<not> se_closed (ag_sessions a ! h)"
  shows "ag_tunnel (agent_Close None None a) = Some (ag_conns a)
       \<and> agent_Close dial wr (agent_Close None None a) = agent_Close None None a"
proof -
  have live: "\<exists>h \<in> set (map snd (ag_filed a)). \<not> se_closed (ag_sessions a ! h)"
    using assms(2,3) by (force dest: map_of_SomeD)
  have "\<exists>b. agent_Close None None a = fold (session_Close None None) (map snd (ag_filed a)) b
      \<and> ag_tunnel b = None \<and> ag_conns b = ag_conns a \<and> ag_sessions b = ag_sessions a \<and> ag_stopped b"
    using assms(1) by (cases "ag_tunnel a") (auto simp: agent_Close_def CloseAllSessions_def intro!: exI)
  then obtain b where b: "agent_Close None None a = fold (session_Close None None) (map snd (ag_filed a)) b"
    "ag_tunnel b = None" "ag_conns b = ag_conns a" "ag_sessions b = ag_sessions a" "ag_stopped b" by blast
  have stopped: "ag_stopped (agent_Close None None a)" by (simp add: b)
  have "ag_tunnel (agent_Close None None a) = Some (ag_conns a)"
    using close_sessions_dial [OF b(2), of "map snd (ag_filed a)"] live by (simp add: b)
  moreover have "agent_Close dial wr (agent_Close None None a) = agent_Close None None a"
    using stopped by (simp add: agent_Close_def [of dial wr])
  ultimately show ?thesis by blast
qed

lemma close_redials_witness: "ag_tunnel (agent_Close None None demo_agent) = Some 1"
  using close_redials [of demo_agent 1 0] by (simp add: demo_agent_eval)

text \<open>
  The read loop looks a stream up and sends to its channel in two steps. When the session
  closes in between, the send panics, and the goroutine of the read loop does not recover.
\<close>

lemma push_after_close_panics:
  assumes "map_of (ag_pipes a) (se_id (ag_sessions a ! h)) = Some k" and "k < length (ag_streams a)"
    and "\<not> se_closed (ag_sessions a ! h)"
  shows "ag_crashed (PushDownstreamData k d (session_Close dial wr h a))"
  using assms by (simp add: session_Close_def Let_def PushDownstreamData_def RemoveStreamPipe_def stream_Close_def)

text \<open>
  Data that arrives before the session has registered its stream is dropped: the client is
  told that the connection is open before the server has confirmed it.
\<close>

lemma early_data_dropped:
  "map_of (ag_pipes a) i = None \<Longrightarrow> handle_packet resolve dial wr \<lparr>pk_stream = i, pk_flag = FlagTCPData, pk_payload = d\<rparr> (a, u) = (a, u)"
  by (simp add: handle_packet_def flag_defs Let_def)

text \<open>A payload longer than the reader's buffer loses its tail.\<close>

lemma stream_Read_truncates:
  "ts_chan s = data # rest \<Longrightarrow> stream_Read n s = Some (Inr (take n data), s\<lparr>ts_chan := rest\<rparr>)"
  by (simp add: stream_Read_def)

end
