(* ===== verification/Vless.thy ===== *)
theory Vless
  imports Socks Types
begin

section \<open>The vless strategy: connection handling (internal/tunnel/vless)\<close>

text \<open>
  The WebSocket and the gRPC handler have the same body and differ in how they dial. The client
  connection is read through a \<open>bufio.Reader\<close> during the handshake, once more for the first
  chunk, and directly after that. How much of the input the reader has taken from the
  connection when the handshake is over is up to the network: the parameter \<open>rebuf\<close> splits what
  is left of the client's stream into the buffer and the segments still to arrive, and \<open>segs\<close>
  says in which reads the rest of the server's stream arrives.
\<close>

definition rebuf_ok :: "(conn \<Rightarrow> bconn) \<Rightarrow> bool" where
  "rebuf_ok rebuf \<longleftrightarrow> (\<forall>c. unbuf (rebuf c) = c \<and> length (b_buf (rebuf c)) \<le> buf_size)"

definition segs_ok :: "(bytes \<Rightarrow> bytes list) \<Rightarrow> bool" where
  "segs_ok segs \<longleftrightarrow> (\<forall>b. concat (segs b) = b)"

text \<open>
  \<open>bufio.Reader.Read\<close> into a slice of \<open>n\<close> bytes, the error dropped: what is buffered, or, when
  nothing is, one read of the connection, straight into the slice when that is at least as
  large as the buffer.
\<close>

definition reader_Read :: "nat \<Rightarrow> bconn \<Rightarrow> bytes \<times> bconn" where
  "reader_Read n c =
     (if n = 0 then ([], c)
      else if b_buf c \<noteq> [] then (take n (b_buf c), c\<lparr>b_buf := drop n (b_buf c)\<rparr>)
      else case b_net c of
        [] \<Rightarrow> ([], c)
      | seg # rest \<Rightarrow>
          if n \<ge> buf_size
          then (take n seg, c\<lparr>b_net := (if drop n seg = [] then rest else drop n seg # rest)\<rparr>)
          else
            (let got = take buf_size seg in
             (take n got, c\<lparr>b_buf := drop n got, b_net := (if drop buf_size seg = [] then rest else drop buf_size seg # rest)\<rparr>)))"

text \<open>\<open>io.Copy\<close> of the reads \<open>bs\<close> to a connection: it stops at the first failing write.\<close>

fun copy_to :: "bytes list \<Rightarrow> conn \<Rightarrow> conn" where
  "copy_to [] c = c"
| "copy_to (b # bs) c =
     (case write_c b c of
        Some (Inr _, c') \<Rightarrow> copy_to bs c'
      | Some (Inl e, c') \<Rightarrow> c'
      | None \<Rightarrow> c)"

subsection \<open>The two directions\<close>

definition vless_uplink :: "bytes \<Rightarrow> bconn \<Rightarrow> conn \<Rightarrow> conn" where
  "vless_uplink header reader remote =
     (let (firstChunk, reader') = reader_Read 4096 reader in
      case write_c (header @ firstChunk) remote of
        Some (Inr _, remote') \<Rightarrow> copy_to (b_net reader') remote'
      | Some (Inl e, remote') \<Rightarrow> remote'
      | None \<Rightarrow> remote)"

definition vless_downlink :: "(bytes \<Rightarrow> bytes list) \<Rightarrow> conn \<Rightarrow> conn \<Rightarrow> conn" where
  "vless_downlink segs remote client =
     (case DecodeResponseHeader remote of
        Some (Inr _, remote') \<Rightarrow> copy_to (segs (sdata (c_in remote'))) client
      | _ \<Rightarrow> client)"

subsection \<open>The handlers\<close>

text \<open>The client connection and, when one was opened, the connection to the server, at the end.\<close>

definition vless_handle ::
  "(conn \<Rightarrow> bconn) \<Rightarrow> (bytes \<Rightarrow> bytes list) \<Rightarrow> (string \<Rightarrow> bytes res) \<Rightarrow> (server_profile \<Rightarrow> conn res) \<Rightarrow> conn \<Rightarrow> server_profile
   \<Rightarrow> (conn \<times> conn option) option" where
  "vless_handle rebuf segs uuidParse dial client profile =
     (case HandshakeSocks5AndGetResponse client of
        None \<Rightarrow> None
      | Some (Inl e, client1) \<Rightarrow> Some (client1, None)
      | Some (Inr (cmd, targetAddr), client1) \<Rightarrow>
          if cmd \<noteq> 1 then Some (client1, None)
          else
            (let host = split_host targetAddr; port = fst (atoi (split_port targetAddr)) in
             case dial profile of
               Inl e \<Rightarrow> Some (snd (the (write_c [0x05, 0x04, 0x00, 0x01, 0, 0, 0, 0, 0, 0] client1)), None)
             | Inr remote \<Rightarrow>
                 (case vless_header uuidParse 0x01 host port (pf_uuid profile) of
                    Inl e \<Rightarrow> Some (client1, Some remote)
                  | Inr header \<Rightarrow>
                      Some (vless_downlink segs remote client1, Some (vless_uplink header (rebuf client1) remote)))))"

definition HandleWSConnection ::
  "(conn \<Rightarrow> bconn) \<Rightarrow> (bytes \<Rightarrow> bytes list) \<Rightarrow> (string \<Rightarrow> bytes res) \<Rightarrow> (server_profile \<Rightarrow> conn res) \<Rightarrow> conn \<Rightarrow> server_profile
   \<Rightarrow> (conn \<times> conn option) option" where
  "HandleWSConnection rebuf segs uuidParse DialVlessWS = vless_handle rebuf segs uuidParse DialVlessWS"

definition HandleGRPCConnection ::
  "(conn \<Rightarrow> bconn) \<Rightarrow> (bytes \<Rightarrow> bytes list) \<Rightarrow> (string \<Rightarrow> bytes res) \<Rightarrow> (server_profile \<Rightarrow> conn res) \<Rightarrow> conn \<Rightarrow> server_profile
   \<Rightarrow> (conn \<times> conn option) option" where
  "HandleGRPCConnection rebuf segs uuidParse DialVlessGRPC = vless_handle rebuf segs uuidParse DialVlessGRPC"

definition vless_network :: "server_profile \<Rightarrow> string" where
  "vless_network profile = (if pf_network profile = '''' then ''ws'' else pf_network profile)"

definition vless_HandleConnection ::
  "(conn \<Rightarrow> bconn) \<Rightarrow> (bytes \<Rightarrow> bytes list) \<Rightarrow> (string \<Rightarrow> bytes res) \<Rightarrow> (server_profile \<Rightarrow> conn res) \<Rightarrow> (server_profile \<Rightarrow> conn res)
   \<Rightarrow> conn \<Rightarrow> server_profile \<Rightarrow> (conn \<times> conn option) option" where
  "vless_HandleConnection rebuf segs uuidParse DialVlessWS DialVlessGRPC client profile =
     (if vless_network profile = ''grpc'' then HandleGRPCConnection rebuf segs uuidParse DialVlessGRPC client profile
      else if vless_network profile = ''ws'' then HandleWSConnection rebuf segs uuidParse DialVlessWS client profile
      else Some (client, None))"

text \<open>\<open>CheckHealth\<close>: a connection is dialled and closed.\<close>

definition vless_CheckHealth :: "(server_profile \<Rightarrow> conn res) \<Rightarrow> (server_profile \<Rightarrow> conn res) \<Rightarrow> server_profile \<Rightarrow> unit res" where
  "vless_CheckHealth DialVlessWS DialVlessGRPC profile =
     (let network = vless_network profile in
      if network = ''grpc'' then and_then (DialVlessGRPC profile) (\<lambda>_. Inr ())
      else if network = ''ws'' then and_then (DialVlessWS profile) (\<lambda>_. Inr ())
      else Inl (Msg (''unsupported network type for health check: '' @ network)))"

subsection \<open>What is relayed\<close>

lemma copy_to_live: "copy_to bs (live i e out) = live i e (out @ concat bs)"
  by (induction bs arbitrary: out) simp_all

text \<open>
  The first chunk empties the buffer: it holds at most 4096 bytes, and an empty one is bypassed, so
  that nothing is left behind when the copy goes on with the connection itself.
\<close>

lemma reader_Read_drains:
  assumes "length (b_buf c) \<le> buf_size"
  shows "\<exists>b c'. reader_Read 4096 c = (b, c') \<and> b_buf c' = [] \<and> pending c = b @ concat (b_net c')"
  using assms by (auto simp: reader_Read_def buf_size_def pending_def split: list.splits)

lemma vless_uplink_live:
  assumes "length (b_buf reader) \<le> buf_size"
  shows "vless_uplink header reader (live i e out) = live i e (out @ header @ pending reader)"
proof -
  obtain b c' where "reader_Read 4096 reader = (b, c')" "pending reader = b @ concat (b_net c')"
    using reader_Read_drains [OF assms] by blast
  then show ?thesis by (simp add: vless_uplink_def copy_to_live)
qed

lemma DecodeResponseHeader_live:
  assumes "length addons \<le> 255"
  shows "DecodeResponseHeader (live (0 # word_of_nat (length addons) # addons @ rest) e out) = Some (Inr (), live rest e out)"
  using assms by (cases "addons = []") (simp_all add: DecodeResponseHeader_def io_simps read_conses unat_len8)

lemma vless_downlink_live:
  assumes "segs_ok segs" and "length addons \<le> 255"
  shows "vless_downlink segs (live (0 # word_of_nat (length addons) # addons @ rest) e' out') (live i e out) = live i e (out @ rest)"
  using DecodeResponseHeader_live [OF assms(2), of rest e' out'] assms(1)
  by (simp add: vless_downlink_def copy_to_live segs_ok_def) (simp add: live_def)

text \<open>The address of a VLESS request, for a SOCKS5 destination.\<close>

fun vless_address :: "dest \<Rightarrow> bytes" where
  "vless_address (V4 b) = 1 # b"
| "vless_address (Dom b) = 2 # word_of_nat (length b) # b"
| "vless_address (V6 b) = 3 # b"

lemma address_part_vless: "address_part 1 2 3 h = vless_address (dest_of_host h)"
  by (simp add: address_part_def dest_of_host_def split: option.splits)


text \<open>A reader that has taken one byte, and a server whose stream arrives in one read.\<close>

definition demo_rebuf :: "conn \<Rightarrow> bconn" where
  "demo_rebuf c =
     \<lparr>b_buf = take 1 (sdata (c_in c)), b_net = [drop 1 (sdata (c_in c))], b_end = sfin (c_in c), b_out = c_out c, b_wres = c_wres c\<rparr>"

lemma demo_rebuf_ok: "rebuf_ok demo_rebuf"
  by (simp add: rebuf_ok_def demo_rebuf_def unbuf_def pending_def buf_size_def min_le_iff_disj)

definition vless_profile :: server_profile where
  "vless_profile = \<lparr>pf_id = ''v1'', pf_remarks = ''v'', pf_type = ''vless'', pf_active = True, pf_local_port = 0,
     pf_address = ''192.0.2.1'', pf_port = 443, pf_network = ''ws'', pf_scheme = '''', pf_path = ''/'', pf_host = '''',
     pf_grpc_service = '''', pf_grpc_mode = '''', pf_grpc_authority = '''', pf_edge_ip = '''', pf_uuid = ''u'', pf_flow = '''',
     pf_security = '''', pf_sni = '''', pf_fingerprint = '''', pf_public_key = '''', pf_short_id = ''''\<rparr>"


text \<open>
  The handshake answers a request before its command is looked at, so a UDP request is granted and
  then dropped, and a client whose server cannot be reached finds a second SOCKS5 reply in its data.
\<close>

lemma vless_grants_any_command:
  assumes "dest_ok True d" and "length ms \<le> 255" and "cmd \<noteq> 1"
  shows "vless_handle rebuf segs uuidParse dial (live (socks_hello ms @ socks_request ver cmd rsv d port @ up) e []) profile =
    Some (live up e ([5, 0] @ socks_granted), None)"
  using vless_socks.accepts [OF assms(1,2), of ver cmd rsv port up e "[]"] assms(3) by (simp add: vless_handle_def)

lemma vless_unreachable_second_reply:
  assumes "dest_ok True d" and "length ms \<le> 255" and "dial profile = Inl err"
  shows "vless_handle rebuf segs uuidParse dial (live (socks_hello ms @ socks_request ver 1 rsv d port @ up) e []) profile =
    Some (live up e ([5, 0] @ socks_granted @ [0x05, 0x04, 0x00, 0x01, 0, 0, 0, 0, 0, 0]), None)"
  using vless_socks.accepts [OF assms(1,2), of ver 1 rsv port up e "[]"] assms(3) by (simp add: vless_handle_def)

end
