(* ===== verification/Buf.thy ===== *)
theory Buf
  imports Prelude
begin

section \<open>Buffers (internal/xray_core/common/buf)\<close>

text \<open>
  A \<open>Buffer\<close> is a window into a byte array, a \<open>MultiBuffer\<close> a list of them in which an entry may be
  nil. The transports of the vless strategy move all data through these. A nil array is the
  empty list (an array of a buffer in use has at least 8192 bytes), and every index that Go
  would refuse is a panic. \<open>pool\<close> gives the arrays that \<open>New\<close> recycles, with whatever they
  still contain. The locale \<open>byte_queue\<close> is what the users of a buffer list rely on.
\<close>

subsection \<open>buffer.go\<close>

definition buf_Size :: nat where
  "buf_Size = 8192"

record buffer =
  bf_v :: bytes
  bf_start :: int
  bf_end :: int
  bf_unmanaged :: bool

text \<open>\<open>v[lo:hi]\<close>.\<close>

definition slice :: "bytes \<Rightarrow> int \<Rightarrow> int \<Rightarrow> bytes res" where
  "slice v lo hi =
     (if 0 \<le> lo \<and> lo \<le> hi \<and> hi \<le> int (length v) then Inr (take (nat (hi - lo)) (drop (nat lo) v))
      else Inl (Panic ''slice bounds out of range''))"

definition buf_New :: "bytes \<Rightarrow> buffer" where
  "buf_New pooled =
     \<lparr>bf_v = (if length pooled \<ge> buf_Size then take buf_Size pooled else replicate buf_Size 0),
      bf_start = 0, bf_end = 0, bf_unmanaged = False\<rparr>"

text \<open>\<open>NewExisted\<close> of a slice \<open>b\<close> whose array goes on with \<open>tail\<close> up to its capacity.\<close>

definition buf_NewExisted :: "bytes \<Rightarrow> bytes \<Rightarrow> buffer res" where
  "buf_NewExisted b tail =
     (if length b + length tail < buf_Size then Inl (Panic ''Invalid buffer'')
      else Inr \<lparr>bf_v = (if length b < buf_Size then take buf_Size (b @ tail) else b),
                bf_start = 0, bf_end = int (length b), bf_unmanaged = False\<rparr>)"

definition buf_Clear :: "buffer \<Rightarrow> buffer" where
  "buf_Clear b = b\<lparr>bf_start := 0, bf_end := 0\<rparr>"

text \<open>The array goes back to the pool when its capacity is the standard one.\<close>

definition buf_Release :: "buffer option \<Rightarrow> buffer option \<times> bytes list" where
  "buf_Release ob =
     (case ob of
        None \<Rightarrow> (None, [])
      | Some b \<Rightarrow>
          if bf_v b = [] \<or> bf_unmanaged b then (Some b, [])
          else (Some (buf_Clear (b\<lparr>bf_v := []\<rparr>)), if length (bf_v b) = buf_Size then [bf_v b] else []))"

definition buf_Bytes :: "buffer \<Rightarrow> bytes res" where
  "buf_Bytes b = slice (bf_v b) (bf_start b) (bf_end b)"

text \<open>Signed 32-bit arithmetic, for the one sum that a caller's argument can overflow.\<close>

definition wrap32 :: "int \<Rightarrow> int" where
  "wrap32 i = (i + 2 ^ 31) mod 2 ^ 32 - 2 ^ 31"

definition buf_Extend :: "int \<Rightarrow> buffer \<Rightarrow> (bytes \<times> buffer) res" where
  "buf_Extend n b =
     (let e = wrap32 (bf_end b + n) in
      if e > int (length (bf_v b)) then Inl (Panic ''extending out of bound'')
      else and_then (slice (bf_v b) (bf_end b) e) (\<lambda>ext. Inr (ext, b\<lparr>bf_end := e\<rparr>)))"

definition buf_Len :: "buffer option \<Rightarrow> int" where
  "buf_Len ob = (case ob of None \<Rightarrow> 0 | Some b \<Rightarrow> bf_end b - bf_start b)"

definition buf_BytesTo :: "int \<Rightarrow> buffer \<Rightarrow> bytes res" where
  "buf_BytesTo to b =
     (let to1 = (if to < 0 then to + buf_Len (Some b) else to); to2 = (if to1 < 0 then 0 else to1)
      in slice (bf_v b) (bf_start b) (bf_start b + to2))"

definition buf_Check :: "buffer \<Rightarrow> buffer" where
  "buf_Check b =
     (let s = (if bf_start b < 0 then 0 else bf_start b); e = (if bf_end b < 0 then 0 else bf_end b)
      in b\<lparr>bf_start := (if s > e then e else s), bf_end := e\<rparr>)"

definition buf_Advance :: "int \<Rightarrow> buffer \<Rightarrow> buffer" where
  "buf_Advance from b =
     buf_Check (b\<lparr>bf_start := bf_start b + (if from < 0 then from + buf_Len (Some b) else from)\<rparr>)"

definition buf_IsEmpty :: "buffer option \<Rightarrow> bool" where
  "buf_IsEmpty ob \<longleftrightarrow> buf_Len ob = 0"

definition buf_IsFull :: "buffer option \<Rightarrow> bool" where
  "buf_IsFull ob = (case ob of None \<Rightarrow> False | Some b \<Rightarrow> bf_end b = int (length (bf_v b)))"

text \<open>The array after \<open>copy(v[at:], data)\<close>.\<close>

definition copy_at :: "nat \<Rightarrow> bytes \<Rightarrow> bytes \<Rightarrow> bytes" where
  "copy_at at data v = take at v @ take (length v - at) data @ drop (at + length data) v"

definition buf_Write :: "bytes \<Rightarrow> buffer \<Rightarrow> (nat \<times> buffer) res" where
  "buf_Write data b =
     and_then (slice (bf_v b) (bf_end b) (int (length (bf_v b)))) (\<lambda>room.
       let n = min (length room) (length data) in
       Inr (n, b\<lparr>bf_v := copy_at (nat (bf_end b)) data (bf_v b), bf_end := bf_end b + int n\<rparr>))"

text \<open>A reader: at most so many bytes, an error, and the reader after it.\<close>

type_synonym 's reader = "nat \<Rightarrow> 's \<Rightarrow> (bytes \<times> goerr option \<times> 's) res"

definition buf_Read :: "buffer reader" where
  "buf_Read n b =
     (if buf_Len (Some b) = 0 then Inr ([], Some EOF, b)
      else and_then (slice (bf_v b) (bf_start b) (bf_end b)) (\<lambda>window.
        let data = take n window in
        Inr (data, None,
             if int (length data) = buf_Len (Some b) then buf_Clear b else b\<lparr>bf_start := bf_start b + int (length data)\<rparr>)))"

definition buf_ReadFrom :: "'s reader \<Rightarrow> 's \<Rightarrow> buffer \<Rightarrow> (nat \<times> goerr option \<times> 's \<times> buffer) res" where
  "buf_ReadFrom rd s b =
     and_then (slice (bf_v b) (bf_end b) (int (length (bf_v b)))) (\<lambda>room.
       and_then (rd (length room) s) (\<lambda>(data, err, s').
         Inr (length data, err, s', b\<lparr>bf_v := copy_at (nat (bf_end b)) data (bf_v b), bf_end := bf_end b + int (length data)\<rparr>)))"

subsection \<open>multi_buffer.go\<close>

type_synonym multi_buffer = "buffer option list"

definition MergeMulti :: "multi_buffer \<Rightarrow> multi_buffer \<Rightarrow> multi_buffer \<times> multi_buffer" where
  "MergeMulti dest src = (dest @ src, [])"

text \<open>The loop of \<open>MergeBytes\<close>: what is left goes into new buffers.\<close>

lemma length_New [simp]: "length (bf_v (buf_New pooled)) = buf_Size"
  by (simp add: buf_New_def)

lemma Write_New:
  "buf_Write src (buf_New pooled) =
     Inr (min buf_Size (length src),
          (buf_New pooled)\<lparr>bf_v := copy_at 0 src (bf_v (buf_New pooled)), bf_end := int (min buf_Size (length src))\<rparr>)"
  by (simp add: buf_Write_def slice_def Let_def) (simp add: buf_New_def)

function merge_loop :: "(nat \<Rightarrow> bytes) \<Rightarrow> multi_buffer \<Rightarrow> bytes \<Rightarrow> multi_buffer res" where
  "merge_loop pool dest src =
     (if src = [] then Inr dest
      else case buf_Write src (buf_New (pool (length src))) of
        Inl e \<Rightarrow> Inl e
      | Inr (n, b) \<Rightarrow> merge_loop pool (dest @ [Some b]) (drop n src))"
  by pat_completeness auto
termination
  by (relation "measure (\<lambda>(pool, dest, src). length src)") (auto simp: Write_New buf_Size_def)

declare merge_loop.simps [simp del]

definition MergeBytes :: "(nat \<Rightarrow> bytes) \<Rightarrow> multi_buffer \<Rightarrow> bytes \<Rightarrow> multi_buffer res" where
  "MergeBytes pool dest src =
     (if dest \<noteq> [] \<and> \<not> buf_IsFull (last dest) then
        (case last dest of
           None \<Rightarrow> Inl (Panic ''nil pointer dereference'')
         | Some b \<Rightarrow>
             and_then (buf_Write src b) (\<lambda>(n, b'). merge_loop pool (butlast dest @ [Some b']) (drop n src)))
      else merge_loop pool dest src)"

definition ReleaseMulti :: "multi_buffer \<Rightarrow> multi_buffer \<times> bytes list" where
  "ReleaseMulti mb = ([], concat (map (\<lambda>b. snd (buf_Release b)) mb))"

text \<open>\<open>SplitBytes\<close> into a slice of \<open>n\<close> bytes: the rest of the list and the bytes written.\<close>

fun SplitBytes :: "multi_buffer \<Rightarrow> nat \<Rightarrow> (multi_buffer \<times> bytes) res" where
  "SplitBytes [] n = Inr ([], [])"
| "SplitBytes (ob # mb) n =
     (case ob of
        None \<Rightarrow> SplitBytes mb n
      | Some b \<Rightarrow>
          and_then (buf_Read n b) (\<lambda>(data, err, b').
            if \<not> buf_IsEmpty (Some b') then Inr (Some b' # mb, data)
            else and_then (SplitBytes mb (n - length data)) (\<lambda>(left, data2). Inr (left, data @ data2))))"

text \<open>\<open>common.Must2\<close> panics on any error.\<close>

fun compact_loop :: "multi_buffer \<Rightarrow> buffer option \<Rightarrow> multi_buffer \<Rightarrow> multi_buffer res" where
  "compact_loop mb2 prev [] = Inr (mb2 @ [prev])"
| "compact_loop mb2 prev (cur # mb) =
     (if buf_Len prev + buf_Len cur > int buf_Size then compact_loop (mb2 @ [prev]) cur mb
      else case prev of
        None \<Rightarrow> Inl (Panic ''nil pointer dereference'')
      | Some l \<Rightarrow>
          (case cur of
             None \<Rightarrow> Inl (Panic (err_text EOF))
           | Some c \<Rightarrow>
               and_then (buf_ReadFrom buf_Read c l) (\<lambda>(n, err, c', l').
                 case err of
                   Some e \<Rightarrow> Inl (Panic (err_text e))
                 | None \<Rightarrow> compact_loop mb2 (Some l') mb)))"

definition Compact :: "multi_buffer \<Rightarrow> multi_buffer res" where
  "Compact mb = (case mb of [] \<Rightarrow> Inr [] | b # bs \<Rightarrow> compact_loop [] b bs)"

definition SplitFirst :: "multi_buffer \<Rightarrow> multi_buffer \<times> buffer option" where
  "SplitFirst mb = (case mb of [] \<Rightarrow> ([], None) | b # bs \<Rightarrow> (bs, b))"

text \<open>\<open>wr\<close> writes one block; the list that is left and the error, if any.\<close>

fun WriteMultiBuffer :: "(bytes \<Rightarrow> 's \<Rightarrow> goerr option \<times> 's) \<Rightarrow> multi_buffer \<Rightarrow> 's \<Rightarrow> (multi_buffer \<times> goerr option \<times> 's) res" where
  "WriteMultiBuffer wr [] s = Inr ([], None, s)"
| "WriteMultiBuffer wr (ob # mb) s =
     (case ob of
        None \<Rightarrow> Inr ([], None, s)
      | Some b \<Rightarrow>
          and_then (buf_Bytes b) (\<lambda>block.
            case wr block s of
              (Some e, s') \<Rightarrow> Inr (mb, Some e, s')
            | (None, s') \<Rightarrow> WriteMultiBuffer wr mb s'))"

definition multi_Len :: "multi_buffer \<Rightarrow> int" where
  "multi_Len mb = fold (\<lambda>ob size. wrap32 (size + buf_Len ob)) mb 0"

definition multi_IsEmpty :: "multi_buffer \<Rightarrow> bool" where
  "multi_IsEmpty mb = list_all buf_IsEmpty mb"

text \<open>\<open>MultiBufferContainer\<close>.\<close>

definition container_Read :: "nat \<Rightarrow> multi_buffer \<Rightarrow> (bytes \<times> goerr option \<times> multi_buffer) res" where
  "container_Read n mb =
     (if multi_IsEmpty mb then Inr ([], Some EOF, mb)
      else and_then (SplitBytes mb n) (\<lambda>(left, data). Inr (data, None, left)))"

definition container_Write :: "(nat \<Rightarrow> bytes) \<Rightarrow> bytes \<Rightarrow> multi_buffer \<Rightarrow> (nat \<times> multi_buffer) res" where
  "container_Write pool b mb = and_then (MergeBytes pool mb b) (\<lambda>mb'. Inr (length b, mb'))"

subsection \<open>Contents\<close>

definition buf_ok :: "buffer \<Rightarrow> bool" where
  "buf_ok b \<longleftrightarrow> 0 \<le> bf_start b \<and> bf_start b \<le> bf_end b \<and> bf_end b \<le> int (length (bf_v b))"

definition content :: "buffer \<Rightarrow> bytes" where
  "content b = take (nat (bf_end b - bf_start b)) (drop (nat (bf_start b)) (bf_v b))"

definition room :: "buffer \<Rightarrow> nat" where
  "room b = length (bf_v b) - nat (bf_end b)"

lemma content_nat: "bf_start b = int s \<Longrightarrow> bf_end b = int e \<Longrightarrow> content b = take (e - s) (drop s (bf_v b))"
  by (simp add: content_def nat_diff_distrib')

lemma buf_ok_nat:
  assumes "buf_ok b"
  obtains s e where "bf_start b = int s" "bf_end b = int e" "s \<le> e" "e \<le> length (bf_v b)" "content b = take (e - s) (drop s (bf_v b))"
  using assms that [of "nat (bf_start b)" "nat (bf_end b)"] content_nat [of b "nat (bf_start b)" "nat (bf_end b)"]
  by (simp add: buf_ok_def nat_le_iff)

lemma content_length: "buf_ok b \<Longrightarrow> int (length (content b)) = bf_end b - bf_start b"
  by (auto simp: buf_ok_def content_def)

lemma Bytes_content: "buf_ok b \<Longrightarrow> buf_Bytes b = Inr (content b)"
  by (simp add: buf_Bytes_def slice_def buf_ok_def content_def)

lemma Len_content: "buf_ok b \<Longrightarrow> buf_Len (Some b) = int (length (content b))"
  by (simp add: buf_Len_def content_length)

lemma IsEmpty_content: "buf_ok b \<Longrightarrow> buf_IsEmpty (Some b) \<longleftrightarrow> content b = []"
  by (simp add: buf_IsEmpty_def Len_content)

lemma length_copy_at: "at \<le> length v \<Longrightarrow> length (copy_at at data v) = length v"
  by (auto simp: copy_at_def)

text \<open>Appending to a window: the bytes that fit go behind it.\<close>

lemma append_window:
  assumes "buf_ok b" and "n = min (room b) (length data)"
    and "b' = b\<lparr>bf_v := copy_at (nat (bf_end b)) data (bf_v b), bf_end := bf_end b + int n\<rparr>"
  shows "buf_ok b' \<and> content b' = content b @ take (room b) data \<and> room b' = room b - length data"
proof -
  obtain s e where b: "bf_start b = int s" "bf_end b = int e" and le: "s \<le> e" "e \<le> length (bf_v b)"
    and c: "content b = take (e - s) (drop s (bf_v b))" using buf_ok_nat [OF assms(1)] .
  have r: "room b = length (bf_v b) - e" by (simp add: room_def b)
  have "content b' = take (e + n - s) (drop s (copy_at e data (bf_v b)))"
    using content_nat [of b' s "e + n"] by (simp add: assms(3) b)
  also have "\<dots> = take (e - s) (drop s (bf_v b)) @ take n (take (room b) data)"
    using le assms(2) unfolding copy_at_def r by (simp add: min_def take_drop)
  also have "take n (take (room b) data) = take (room b) data" using assms(2) by (simp add: min_def)
  finally have "content b' = content b @ take (room b) data" by (simp add: c)
  moreover have "buf_ok b'" "room b' = room b - length data"
    using assms le b r by (auto simp: buf_ok_def length_copy_at room_def nat_add_distrib)
  ultimately show ?thesis by blast
qed

lemma Write_content:
  assumes "buf_ok b"
  shows "\<exists>b'. buf_Write data b = Inr (min (room b) (length data), b') \<and> buf_ok b'
    \<and> content b' = content b @ take (room b) data \<and> room b' = room b - length data"
proof -
  have "length (take (nat (int (length (bf_v b)) - bf_end b)) (drop (nat (bf_end b)) (bf_v b))) = room b"
    using assms by (auto simp: room_def buf_ok_def)
  then show ?thesis
    using append_window [OF assms HOL.refl HOL.refl, of data] assms
    by (simp add: buf_Write_def slice_def Let_def buf_ok_def)
qed

lemma Read_content:
  assumes "buf_ok b" and "content b \<noteq> []"
  shows "\<exists>b'. buf_Read n b = Inr (take n (content b), None, b') \<and> buf_ok b' \<and> content b' = drop n (content b)
    \<and> (bf_start b = 0 \<and> length (content b) \<le> n \<longrightarrow> bf_start b' = 0)"
proof -
  have len: "bf_end b - bf_start b = int (length (content b))" using content_length [OF assms(1)] by simp
  have sl: "slice (bf_v b) (bf_start b) (bf_end b) = Inr (content b)" using Bytes_content [OF assms(1)] by (simp add: buf_Bytes_def)
  show ?thesis
  proof (cases "length (content b) \<le> n")
    case True
    then have "buf_Read n b = Inr (take n (content b), None, buf_Clear b)"
      using assms(2) by (simp add: buf_Read_def buf_Len_def Let_def len sl)
    moreover have "buf_ok (buf_Clear b)" "content (buf_Clear b) = []" "bf_start (buf_Clear b) = 0"
      by (simp_all add: buf_ok_def buf_Clear_def content_def)
    ultimately show ?thesis using True by simp
  next
    case False
    then have "buf_Read n b = Inr (take n (content b), None, b\<lparr>bf_start := bf_start b + int n\<rparr>)"
      using assms(2) by (simp add: buf_Read_def buf_Len_def Let_def len sl)
    moreover obtain s e where b: "bf_start b = int s" "bf_end b = int e" and c: "content b = take (e - s) (drop s (bf_v b))"
      using buf_ok_nat [OF assms(1)] .
    have "content (b\<lparr>bf_start := bf_start b + int n\<rparr>) = drop n (content b)"
      using content_nat [of "b\<lparr>bf_start := bf_start b + int n\<rparr>" "s + n" e] by (simp add: b c drop_take add.commute)
    ultimately show ?thesis using assms(1) len False by (simp add: buf_ok_def)
  qed
qed

subsection \<open>Lists of buffers as queues of bytes\<close>

definition queue_ok :: "multi_buffer \<Rightarrow> bool" where
  "queue_ok mb \<longleftrightarrow> (\<forall>ob \<in> set mb. \<exists>b. ob = Some b \<and> buf_ok b)"

definition mb_content :: "multi_buffer \<Rightarrow> bytes" where
  "mb_content mb = concat (map (\<lambda>ob. case ob of None \<Rightarrow> [] | Some b \<Rightarrow> content b) mb)"

lemma queue_simps [simp]:
  "queue_ok []" "queue_ok (Some b # mb) \<longleftrightarrow> buf_ok b \<and> queue_ok mb" "\<not> queue_ok (None # mb)"
  "queue_ok (mb @ mb') \<longleftrightarrow> queue_ok mb \<and> queue_ok mb'"
  "mb_content [] = []" "mb_content (Some b # mb) = content b @ mb_content mb" "mb_content (mb @ mb') = mb_content mb @ mb_content mb'"
  by (auto simp: queue_ok_def mb_content_def)

lemma New_ok: "buf_ok (buf_New p)" "content (buf_New p) = []" "room (buf_New p) = buf_Size"
  by (simp_all add: buf_New_def buf_ok_def content_def room_def)

lemma merge_loop_content:
  "queue_ok dest \<Longrightarrow> \<exists>mb. merge_loop pool dest src = Inr mb \<and> queue_ok mb \<and> mb_content mb = mb_content dest @ src"
proof (induction "length src" arbitrary: dest src rule: less_induct)
  case less
  show ?case
  proof (cases "src = []")
    case True
    with less.prems show ?thesis by (simp add: merge_loop.simps)
  next
    case False
    obtain b where b: "buf_Write src (buf_New (pool (length src))) = Inr (min buf_Size (length src), b)" "buf_ok b" "content b = take buf_Size src"
      using Write_content [OF New_ok(1) [of "pool (length src)"], of src] by (auto simp: New_ok)
    have "length (drop (min buf_Size (length src)) src) < length src" using False by (simp add: buf_Size_def)
    from less.hyps [OF this, of "dest @ [Some b]"] less.prems b False show ?thesis
      by (subst merge_loop.simps) (auto simp: min_def)
  qed
qed

lemma MergeBytes_content:
  assumes "queue_ok mb"
  shows "\<exists>mb'. MergeBytes pool mb src = Inr mb' \<and> queue_ok mb' \<and> mb_content mb' = mb_content mb @ src"
proof (cases "mb \<noteq> [] \<and> \<not> buf_IsFull (last mb)")
  case True
  then obtain front ob where "mb = front @ [ob]" by (metis append_butlast_last_id)
  with assms obtain b where mb: "mb = front @ [Some b]" "buf_ok b" "queue_ok front" by (auto simp: queue_ok_def)
  obtain b' where b': "buf_Write src b = Inr (min (room b) (length src), b')" "buf_ok b'" "content b' = content b @ take (room b) src"
    using Write_content [OF mb(2), of src] by blast
  have "take (room b) src @ drop (min (room b) (length src)) src = src" by (simp add: min_def)
  with b' mb True merge_loop_content [of "front @ [Some b']" pool "drop (min (room b) (length src)) src"] show ?thesis
    by (auto simp: MergeBytes_def)
next
  case False
  then show ?thesis using merge_loop_content [OF assms] by (auto simp: MergeBytes_def)
qed

lemma SplitBytes_content:
  "queue_ok mb \<Longrightarrow> \<exists>mb'. SplitBytes mb n = Inr (mb', take n (mb_content mb)) \<and> queue_ok mb' \<and> mb_content mb' = drop n (mb_content mb)"
proof (induction mb arbitrary: n)
  case (Cons ob mb)
  then obtain b where b: "ob = Some b" "buf_ok b" "queue_ok mb" by (cases ob) auto
  note IH = Cons.IH [OF b(3)]
  show ?case
  proof (cases "content b = []")
    case True
    then have "buf_Read n b = Inr ([], Some EOF, b)" using b(2) by (simp add: buf_Read_def Len_content)
    with IH [of n] b True show ?thesis by (auto simp: IsEmpty_content)
  next
    case False
    then obtain b' where b': "buf_Read n b = Inr (take n (content b), None, b')" "buf_ok b'" "content b' = drop n (content b)"
      using Read_content [OF b(2)] by blast
    show ?thesis
    proof (cases "length (content b) \<le> n")
      case True
      with b' b IH [of "n - length (content b)"] show ?thesis
        by (auto simp: IsEmpty_content)
    next
      case False
      with b' b show ?thesis by (simp add: IsEmpty_content)
    qed
  qed
qed simp

subsection \<open>The queue interface\<close>

datatype queue_op = Put bytes | Get nat

text \<open>What the gets of a sequence of operations return, one after the other, and the queue after it.\<close>

fun run_queue :: "(bytes \<Rightarrow> 'q \<Rightarrow> 'q res) \<Rightarrow> (nat \<Rightarrow> 'q \<Rightarrow> ('q \<times> bytes) res) \<Rightarrow> queue_op list \<Rightarrow> 'q \<Rightarrow> (bytes list \<times> 'q) res" where
  "run_queue put get [] q = Inr ([], q)"
| "run_queue put get (Put x # ops) q = and_then (put x q) (run_queue put get ops)"
| "run_queue put get (Get n # ops) q =
     and_then (get n q) (\<lambda>(q', x). and_then (run_queue put get ops q') (\<lambda>(xs, q''). Inr (x # xs, q'')))"

fun puts :: "queue_op list \<Rightarrow> bytes" where
  "puts [] = []"
| "puts (Put x # ops) = x @ puts ops"
| "puts (Get n # ops) = puts ops"

fun gets :: "queue_op list \<Rightarrow> nat list" where
  "gets [] = []"
| "gets (Put x # ops) = gets ops"
| "gets (Get n # ops) = n # gets ops"

locale byte_queue =
  fixes put :: "bytes \<Rightarrow> 'q \<Rightarrow> 'q res"
    and get :: "nat \<Rightarrow> 'q \<Rightarrow> ('q \<times> bytes) res"
    and abs :: "'q \<Rightarrow> bytes"
    and ok :: "'q \<Rightarrow> bool"
  assumes put_abs: "ok q \<Longrightarrow> \<exists>q'. put x q = Inr q' \<and> ok q' \<and> abs q' = abs q @ x"
    and get_abs: "ok q \<Longrightarrow> \<exists>q'. get n q = Inr (q', take n (abs q)) \<and> ok q' \<and> abs q' = drop n (abs q)"
begin

lemma fifo:
  "ok q \<Longrightarrow> \<exists>xs q'. run_queue put get ops q = Inr (xs, q') \<and> ok q' \<and> concat xs @ abs q' = abs q @ puts ops
    \<and> list_all2 (\<lambda>x n. length x \<le> n) xs (gets ops)"
proof (induction ops arbitrary: q rule: puts.induct)
  case (2 x ops)
  then obtain q' where q': "put x q = Inr q'" "ok q'" "abs q' = abs q @ x" using put_abs by blast
  with 2(1) [OF q'(2)] show ?case by auto
next
  case (3 n ops)
  then obtain q' where q': "get n q = Inr (q', take n (abs q))" "ok q'" "abs q' = drop n (abs q)" using get_abs by blast
  obtain xs q'' where r: "run_queue put get ops q' = Inr (xs, q'')" "ok q''" "concat xs @ abs q'' = drop n (abs q) @ puts ops"
    "list_all2 (\<lambda>x n. length x \<le> n) xs (gets ops)" using 3(1) [OF q'(2)] q'(3) by auto
  have "take n (abs q) @ drop n (abs q) @ puts ops = abs q @ puts ops" by (metis append_assoc append_take_drop_id)
  with r q' show ?case by simp
qed simp

end

interpretation mb_queue: byte_queue "\<lambda>x mb. MergeBytes pool mb x" "\<lambda>n mb. SplitBytes mb n" mb_content queue_ok for pool
  by unfold_locales (simp_all add: MergeBytes_content SplitBytes_content)

text \<open>
  C27. A multi-buffer is a queue of bytes: any interleaving of MergeBytes and SplitBytes on a
  well-formed list runs without panic and without error, each SplitBytes gives at most as many bytes as
  the slice it fills, and all the bytes it ever gives, followed by what is left in the list, are the
  bytes that were in the list followed by all that were merged, in order; the recycled
  arrays never show through.
\<close>

theorem multi_buffer_fifo:
  assumes "queue_ok mb"
  shows "\<exists>xs mb'. run_queue (\<lambda>x mb. MergeBytes pool mb x) (\<lambda>n mb. SplitBytes mb n) ops mb = Inr (xs, mb') \<and> queue_ok mb'
    \<and> concat xs @ mb_content mb' = mb_content mb @ puts ops \<and> list_all2 (\<lambda>x n. length x \<le> n) xs (gets ops)"
  by (rule mb_queue.fifo [OF assms])

theorem multi_buffer_fifo_witness:
  "\<exists>xs mb'. run_queue (\<lambda>x mb. MergeBytes (\<lambda>_. []) mb x) (\<lambda>n mb. SplitBytes mb n) [Put [1, 2, 3], Get 2, Put [4], Get 5] [] = Inr (xs, mb')
     \<and> concat xs @ mb_content mb' = [1, 2, 3, 4]"
  using multi_buffer_fifo [of "[]" "\<lambda>_. []" "[Put [1, 2, 3], Get 2, Put [4], Get 5]"] by auto

subsection \<open>Compact\<close>

lemma ReadFrom_buffer:
  assumes "buf_ok l" and "buf_ok c" and "content c \<noteq> []"
  shows "\<exists>c' l'. buf_ReadFrom buf_Read c l = Inr (min (room l) (length (content c)), None, c', l') \<and> buf_ok l'
    \<and> content l' = content l @ take (room l) (content c) \<and> bf_start l' = bf_start l \<and> length (bf_v l') = length (bf_v l)"
proof -
  obtain c' where c': "buf_Read (room l) c = Inr (take (room l) (content c), None, c')"
    using Read_content [OF assms(2,3)] by blast
  let ?d = "take (room l) (content c)"
  let ?l = "l\<lparr>bf_v := copy_at (nat (bf_end l)) ?d (bf_v l), bf_end := bf_end l + int (min (room l) (length ?d))\<rparr>"
  have len: "length (take (nat (int (length (bf_v l)) - bf_end l)) (drop (nat (bf_end l)) (bf_v l))) = room l"
    using assms(1) by (auto simp: room_def buf_ok_def)
  have "buf_ReadFrom buf_Read c l = Inr (min (room l) (length (content c)), None, c', ?l)"
    using assms(1) c' len by (simp add: buf_ReadFrom_def slice_def buf_ok_def min.commute)
  moreover have "length (bf_v ?l) = length (bf_v l)" using assms(1) by (simp add: length_copy_at buf_ok_def nat_le_iff)
  ultimately show ?thesis
    using append_window [OF assms(1) HOL.refl HOL.refl, of ?d] by simp
qed

text \<open>Buffers that have not been read from: the window starts at the array's start and the array has the full size.\<close>

definition unread :: "buffer \<Rightarrow> bool" where
  "unread b \<longleftrightarrow> buf_ok b \<and> bf_start b = 0 \<and> buf_Size \<le> length (bf_v b) \<and> content b \<noteq> []"

lemma unread_room: "unread b \<Longrightarrow> room b = length (bf_v b) - length (content b)"
  by (auto simp: unread_def room_def content_length [symmetric] buf_ok_def content_def)

lemma compact_loop_content:
  assumes "unread l" and "\<forall>ob \<in> set mb. \<exists>b. ob = Some b \<and> unread b" and "\<forall>ob \<in> set mb2. \<exists>b. ob = Some b \<and> unread b"
  shows "\<exists>mb'. compact_loop mb2 (Some l) mb = Inr mb' \<and> (\<forall>ob \<in> set mb'. \<exists>b. ob = Some b \<and> unread b)
    \<and> mb_content mb' = mb_content mb2 @ content l @ mb_content mb \<and> length mb' \<le> length mb2 + Suc (length mb)"
  using assms
proof (induction mb arbitrary: mb2 l)
  case (Cons ob mb)
  then obtain c where c: "ob = Some c" "unread c" by auto
  show ?case
  proof (cases "buf_Len (Some l) + buf_Len (Some c) > int buf_Size")
    case True
    have "\<forall>ob \<in> set (mb2 @ [Some l]). \<exists>b. ob = Some b \<and> unread b" using Cons.prems(1,3) by auto
    with Cons.IH [OF c(2) _ this] Cons.prems(2) c True show ?thesis by auto
  next
    case False
    have ok: "buf_ok l" "buf_ok c" "content c \<noteq> []" using Cons.prems(1) c(2) by (simp_all add: unread_def)
    have "length (content l) + length (content c) \<le> buf_Size" using False ok by (simp add: Len_content)
    then have fits: "length (content c) \<le> room l" using Cons.prems(1) unread_room [of l] by (auto simp: unread_def)
    obtain c' l' where r: "buf_ReadFrom buf_Read c l = Inr (min (room l) (length (content c)), None, c', l')" "buf_ok l'"
      "content l' = content l @ content c" "bf_start l' = bf_start l" "length (bf_v l') = length (bf_v l)"
      using ReadFrom_buffer [OF ok] fits by auto
    have "unread l'" using r Cons.prems(1) by (simp add: unread_def)
    from Cons.IH [OF this _ Cons.prems(3)] Cons.prems(2) r c False show ?thesis by auto
  qed
qed (auto simp: mb_content_def)

text \<open>
  Compact keeps the data: on a list of non-empty buffers none of which has been read from, it returns
  a list that is no longer, of the same kind, with the same bytes in the same order.
\<close>

lemma compact_preserves:
  assumes "\<forall>ob \<in> set mb. \<exists>b. ob = Some b \<and> unread b"
  shows "\<exists>mb'. Compact mb = Inr mb' \<and> mb_content mb' = mb_content mb \<and> length mb' \<le> length mb
    \<and> (\<forall>ob \<in> set mb'. \<exists>b. ob = Some b \<and> unread b)"
proof (cases mb)
  case (Cons ob bs)
  with assms obtain b where b: "ob = Some b" "unread b" by auto
  with compact_loop_content [OF b(2), of bs "[]"] assms Cons show ?thesis by (auto simp: Compact_def)
qed (simp add: Compact_def)

lemma Write_unread:
  assumes "src \<noteq> []" and "length src \<le> buf_Size"
  shows "\<exists>b. buf_Write src (buf_New pooled) = Inr (length src, b) \<and> unread b \<and> content b = src"
proof -
  have "bf_start (buf_New pooled) = 0" by (simp add: buf_New_def)
  then show ?thesis
    using Write_content [OF New_ok(1) [of pooled], of src] assms New_ok [of pooled]
    by (auto simp: unread_def Write_New length_copy_at min_def)
qed

lemma compact_preserves_witness:
  "\<exists>a b mb'. unread a \<and> unread b \<and> content a = [1, 2] \<and> content b = [3] \<and> Compact [Some a, Some b] = Inr mb' \<and> mb_content mb' = [1, 2, 3]"
proof -
  obtain a where a: "unread a" "content a = [1, 2]" using Write_unread [of "[1, 2]" "[]"] by (auto simp: buf_Size_def)
  obtain b where b: "unread b" "content b = [3]" using Write_unread [of "[3]" "[]"] by (auto simp: buf_Size_def)
  from compact_preserves [of "[Some a, Some b]"] a b show ?thesis by auto
qed

text \<open>
  After a partial read the condition on the lengths is not the condition on the room: what does not
  fit behind the window is dropped. And an empty buffer in the list is an EOF for \<open>Must2\<close>.
\<close>

lemma compact_drops:
  assumes "buf_ok l" and "buf_ok c" and "content c \<noteq> []" and "length (content l) + length (content c) \<le> buf_Size"
  shows "\<exists>l'. Compact [Some l, Some c] = Inr [Some l'] \<and> content l' = content l @ take (room l) (content c)"
  using ReadFrom_buffer [OF assms(1-3)] assms(4) by (auto simp: Compact_def Len_content assms(1,2))

lemma compact_empty_panics:
  assumes "buf_ok l" and "buf_ok c" and "content c = []" and "length (content l) \<le> buf_Size"
  shows "Compact [Some l, Some c] = Inl (Panic ''EOF'')"
  using assms by (simp add: Compact_def Len_content buf_ReadFrom_def slice_def buf_Read_def buf_ok_def)

end
