(* ===== verification/Transport.thy ===== *)
theory Transport
  imports ByteStream Buf
begin

section \<open>Transports (internal/xray_core: buf readers and writers, cnc, websocket, grpc)\<close>

text \<open>
  The connections that the vless strategy gets from its diallers: the WebSocket connection,
  which reads its messages directly, and the gRPC connection, a \<open>cnc.connection\<close> whose
  buffered reader and sequential writer work on the messages (hunks) of a gRPC stream. The
  WebSocket and gRPC libraries are parameters: the messages that arrive, the error after them and
  the outcomes of sending.
\<close>

subsection \<open>websocket/connection.go\<close>

datatype msg_kind = BinaryMessage | TextMessage | ControlMessage

text \<open>
  A message is its kind, its bytes and the error with which its reader ends: EOF for a whole message,
  another one when the connection fails in its middle.
\<close>

type_synonym ws_message = "msg_kind \<times> bytes \<times> goerr"

record xws =
  xw_reader :: "(bytes \<times> goerr) option"
  xw_msgs :: "ws_message list"
  xw_end :: goerr
  xw_sent :: "bytes list"

text \<open>\<open>getReader\<close>: the reader of the current message, or of the next data message.\<close>

fun next_reader :: "ws_message list \<Rightarrow> ((bytes \<times> goerr) \<times> ws_message list) option" where
  "next_reader [] = None"
| "next_reader ((k, m) # ms) = (if k \<noteq> BinaryMessage \<and> k \<noteq> TextMessage then next_reader ms else Some (m, ms))"

lemma next_reader_shorter: "next_reader ms = Some (m, ms') \<Longrightarrow> length ms' < length ms"
  by (induction ms rule: next_reader.induct) (auto split: if_splits)

definition getReader :: "xws \<Rightarrow> (bytes \<times> goerr) res \<times> xws" where
  "getReader c =
     (case xw_reader c of
        Some r \<Rightarrow> (Inr r, c)
      | None \<Rightarrow>
          (case next_reader (xw_msgs c) of
             None \<Rightarrow> (Inl (xw_end c), c\<lparr>xw_msgs := []\<rparr>)
           | Some (r, ms) \<Rightarrow> (Inr r, c\<lparr>xw_reader := Some r, xw_msgs := ms\<rparr>)))"

text \<open>
  \<open>Read\<close> into \<open>n\<close> bytes: the reader of a message gives its bytes and then its error; when the cause of that is
  EOF, the loop goes on with the next message.
\<close>

function xws_Read :: "nat \<Rightarrow> xws \<Rightarrow> bytes res \<times> xws" where
  "xws_Read n c =
     (case getReader c of
        (Inl e, c') \<Rightarrow> (Inl e, c')
      | (Inr (r, e), c') \<Rightarrow>
          if r \<noteq> [] then (Inr (take n r), c'\<lparr>xw_reader := Some (drop n r, e)\<rparr>)
          else if Cause e = EOF then xws_Read n (c'\<lparr>xw_reader := None\<rparr>)
          else (Inl e, c'))"
  by pat_completeness auto
termination
  by (relation "measures [\<lambda>(n, c). length (xw_msgs c), \<lambda>(n, c). if xw_reader c = None then 0 else 1]")
    (auto simp: getReader_def dest: next_reader_shorter split: option.splits)

declare xws_Read.simps [simp del]

definition xws_Write :: "goerr option \<Rightarrow> bytes \<Rightarrow> xws \<Rightarrow> goerr option \<times> xws" where
  "xws_Write werr b c = (case werr of Some e \<Rightarrow> (Some e, c) | None \<Rightarrow> (None, c\<lparr>xw_sent := xw_sent c @ [b]\<rparr>))"

definition xws_WriteMultiBuffer :: "goerr option \<Rightarrow> multi_buffer \<Rightarrow> xws \<Rightarrow> (goerr option \<times> xws) res" where
  "xws_WriteMultiBuffer werr mb c =
     and_then (Compact mb) (\<lambda>mb2. and_then (WriteMultiBuffer (xws_Write werr) mb2 c) (\<lambda>(left, err, c'). Inr (err, c')))"

subsection \<open>grpc/encoding/hunkconn.go\<close>

text \<open>A message is its bytes and the spare capacity of the slice that holds them.\<close>

record hunk_rw =
  hk_buf :: "bytes \<times> bytes"
  hk_index :: nat
  hk_recv :: "(bytes \<times> bytes) list"
  hk_end :: goerr
  hk_done :: bool
  hk_sent :: "bytes list"

definition forceFetch :: "hunk_rw \<Rightarrow> goerr option \<times> hunk_rw" where
  "forceFetch h =
     (case hk_recv h of
        [] \<Rightarrow> (Some (if hk_end h = EOF then EOF else Wrap ''failed to fetch hunk from gRPC tunnel'' (hk_end h)), h)
      | d # ds \<Rightarrow> (None, h\<lparr>hk_buf := d, hk_index := 0, hk_recv := ds\<rparr>))"

definition fetch_if :: "hunk_rw \<Rightarrow> goerr option \<times> hunk_rw" where
  "fetch_if h = (if hk_index h \<ge> length (fst (hk_buf h)) then forceFetch h else (None, h))"

definition hunk_Read :: "hunk_rw reader" where
  "hunk_Read n h =
     (if hk_done h then Inr ([], Some EOF, h)
      else case fetch_if h of
        (Some e, h') \<Rightarrow> Inr ([], Some e, h')
      | (None, h') \<Rightarrow>
          (let data = take n (drop (hk_index h') (fst (hk_buf h'))) in
           Inr (data, None, h'\<lparr>hk_index := hk_index h' + length data\<rparr>)))"

definition hunk_ReadMultiBuffer :: "bytes \<Rightarrow> hunk_rw \<Rightarrow> (multi_buffer \<times> goerr option \<times> hunk_rw) res" where
  "hunk_ReadMultiBuffer pooled h =
     (if hk_done h then Inr ([], Some EOF, h)
      else case fetch_if h of
        (Some e, h') \<Rightarrow> Inr ([], Some e, h')
      | (None, h') \<Rightarrow>
          if length (fst (hk_buf h')) + length (snd (hk_buf h')) \<ge> buf_Size then
            and_then (buf_NewExisted (fst (hk_buf h')) (snd (hk_buf h'))) (\<lambda>b.
              Inr ([Some b], None, h'\<lparr>hk_index := length (fst (hk_buf h'))\<rparr>))
          else
            and_then (buf_ReadFrom hunk_Read h' (buf_New pooled)) (\<lambda>(n, err, h'', b).
              case err of Some e \<Rightarrow> Inr ([], Some e, h'') | None \<Rightarrow> Inr ([Some b], None, h'')))"

text \<open>\<open>serr\<close> is the outcome of \<open>Send\<close>.\<close>

definition hunk_Write :: "goerr option \<Rightarrow> bytes \<Rightarrow> hunk_rw \<Rightarrow> goerr option \<times> hunk_rw" where
  "hunk_Write serr b h =
     (if hk_done h then (Some ClosedPipe, h)
      else case serr of
        Some e \<Rightarrow> (Some (Wrap ''failed to send data over gRPC tunnel'' e), h)
      | None \<Rightarrow> (None, h\<lparr>hk_sent := hk_sent h @ [b]\<rparr>))"

subsection \<open>buf/reader.go and buf/writer.go\<close>

text \<open>\<open>BufferedReader\<close> over a source of multi-buffers: the buffer and the source.\<close>

definition BufferedReader_Read ::
  "('s \<Rightarrow> (multi_buffer \<times> goerr option \<times> 's) res) \<Rightarrow> nat \<Rightarrow> multi_buffer \<times> 's \<Rightarrow> (bytes \<times> goerr option \<times> multi_buffer \<times> 's) res" where
  "BufferedReader_Read src n r =
     (let (buffer, s) = r in
      if \<not> multi_IsEmpty buffer then
        and_then (SplitBytes buffer n) (\<lambda>(left, data). Inr (data, None, (if multi_IsEmpty left then [] else left), s))
      else
        and_then (src s) (\<lambda>(mb, err, s').
          case err of
            Some e \<Rightarrow> Inr ([], Some e, buffer, s')
          | None \<Rightarrow>
              and_then (SplitBytes mb n) (\<lambda>(left, data).
                Inr (data, None, (if multi_IsEmpty left then buffer else left), s'))))"

text \<open>The \<open>Read\<close> of a \<open>BufferedReader\<close>; a panic of the code is reported as the error it is.\<close>

definition buffered_Read ::
  "('s \<Rightarrow> (multi_buffer \<times> goerr option \<times> 's) res) \<Rightarrow> nat \<Rightarrow> multi_buffer \<times> 's \<Rightarrow> bytes res \<times> multi_buffer \<times> 's" where
  "buffered_Read src n r =
     (case BufferedReader_Read src n r of
        Inl e \<Rightarrow> (Inl e, r)
      | Inr (data, err, r') \<Rightarrow> (case err of None \<Rightarrow> Inr data | Some e \<Rightarrow> Inl e, r'))"

lemma multi_IsEmpty_content: "queue_ok mb \<Longrightarrow> multi_IsEmpty mb \<longleftrightarrow> mb_content mb = []"
  by (induction mb) (auto simp: multi_IsEmpty_def IsEmpty_content queue_ok_def mb_content_def)

text \<open>
  The contract of the interface \<open>buf.Reader\<close>: while bytes are pending, \<open>ReadMultiBuffer\<close> returns some of them. A buffered
  reader makes a byte stream of every such source.
\<close>

locale multi_source =
  fixes src :: "'s \<Rightarrow> (multi_buffer \<times> goerr option \<times> 's) res"
    and pend :: "'s \<Rightarrow> bytes"
    and ok :: "'s \<Rightarrow> bool"
  assumes src_some: "ok s \<Longrightarrow> pend s \<noteq> [] \<Longrightarrow>
    \<exists>mb s'. src s = Inr (mb, None, s') \<and> queue_ok mb \<and> mb_content mb \<noteq> [] \<and> pend s = mb_content mb @ pend s' \<and> ok s'"
begin

definition buffered_ok :: "multi_buffer \<times> 's \<Rightarrow> bool" where
  "buffered_ok r \<longleftrightarrow> queue_ok (fst r) \<and> ok (snd r)"

definition buffered_pending :: "multi_buffer \<times> 's \<Rightarrow> bytes" where
  "buffered_pending r = mb_content (fst r) @ pend (snd r)"

lemma buffered_some:
  assumes "queue_ok (fst r)" "ok (snd r)" and "0 < n" and "mb_content (fst r) @ pend (snd r) \<noteq> []"
  shows "\<exists>b r'. buffered_Read src n r = (Inr b, r') \<and> b \<noteq> [] \<and> length b \<le> n
    \<and> mb_content (fst r) @ pend (snd r) = b @ mb_content (fst r') @ pend (snd r') \<and> queue_ok (fst r') \<and> ok (snd r')"
proof (cases "multi_IsEmpty (fst r)")
  case False
  obtain left where "SplitBytes (fst r) n = Inr (left, take n (mb_content (fst r)))" "queue_ok left"
    "mb_content left = drop n (mb_content (fst r))" using SplitBytes_content [OF assms(1)] by blast
  with False assms show ?thesis
    by (cases r) (auto simp: buffered_Read_def BufferedReader_Read_def multi_IsEmpty_content)
next
  case True
  then have empty: "mb_content (fst r) = []" using assms(1) by (simp add: multi_IsEmpty_content)
  then obtain mb s where s: "src (snd r) = Inr (mb, None, s)" "queue_ok mb" "mb_content mb \<noteq> []" "pend (snd r) = mb_content mb @ pend s" "ok s"
    using src_some [OF assms(2)] assms(4) by auto
  obtain left where "SplitBytes mb n = Inr (left, take n (mb_content mb))" "queue_ok left" "mb_content left = drop n (mb_content mb)"
    using SplitBytes_content [OF s(2)] by blast
  with True empty s assms(1,3) show ?thesis
    by (cases r) (auto simp: buffered_Read_def BufferedReader_Read_def multi_IsEmpty_content)
qed

end

sublocale multi_source \<subseteq> buffered: stream_reader "buffered_Read src" buffered_pending buffered_ok
  by unfold_locales (use buffered_some in \<open>simp add: buffered_pending_def buffered_ok_def\<close>)

definition SequentialWriter_WriteMultiBuffer ::
  "(bytes \<Rightarrow> 's \<Rightarrow> goerr option \<times> 's) \<Rightarrow> multi_buffer \<Rightarrow> 's \<Rightarrow> (goerr option \<times> 's) res" where
  "SequentialWriter_WriteMultiBuffer wr mb s = and_then (WriteMultiBuffer wr mb s) (\<lambda>(left, err, s'). Inr (err, s'))"

subsection \<open>cnc/connection.go over a gRPC stream\<close>

record cnc =
  cn_buffer :: multi_buffer
  cn_stream :: hunk_rw
  cn_done :: bool

definition NewConnection :: "hunk_rw \<Rightarrow> cnc" where
  "NewConnection h = \<lparr>cn_buffer = [], cn_stream = h, cn_done = False\<rparr>"

definition cnc_Read :: "bytes \<Rightarrow> nat \<Rightarrow> cnc \<Rightarrow> bytes res \<times> cnc" where
  "cnc_Read pooled n c =
     (let (r, buffer, s) = buffered_Read (hunk_ReadMultiBuffer pooled) n (cn_buffer c, cn_stream c) in
      (r, c\<lparr>cn_buffer := buffer, cn_stream := s\<rparr>))"

definition cnc_Write :: "(nat \<Rightarrow> bytes) \<Rightarrow> goerr option \<Rightarrow> bytes \<Rightarrow> cnc \<Rightarrow> (goerr option \<times> cnc) res" where
  "cnc_Write pool serr b c =
     (if cn_done c then Inr (Some ClosedPipe, c)
      else
        and_then (MergeBytes pool [] b) (\<lambda>mb.
          and_then (SequentialWriter_WriteMultiBuffer (hunk_Write serr) mb (cn_stream c)) (\<lambda>(err, s).
            Inr (err, c\<lparr>cn_stream := s\<rparr>))))"

subsection \<open>The WebSocket connection is a stream\<close>

fun data_bytes :: "ws_message list \<Rightarrow> bytes" where
  "data_bytes [] = []"
| "data_bytes ((k, m, e) # ms) =
     (if k = ControlMessage then data_bytes ms else m @ (if Cause e = EOF then data_bytes ms else []))"

definition reader_bytes :: "bytes \<times> goerr \<Rightarrow> ws_message list \<Rightarrow> bytes" where
  "reader_bytes r ms = fst r @ (if Cause (snd r) = EOF then data_bytes ms else [])"

definition xws_pending :: "xws \<Rightarrow> bytes" where
  "xws_pending c = (case xw_reader c of None \<Rightarrow> data_bytes (xw_msgs c) | Some r \<Rightarrow> reader_bytes r (xw_msgs c))"

lemma next_reader_data: "case next_reader ms of None \<Rightarrow> data_bytes ms = [] | Some (r, ms') \<Rightarrow> data_bytes ms = reader_bytes r ms'"
proof (induction ms rule: next_reader.induct)
  case (2 k m ms)
  then show ?case by (cases k; cases m) (auto simp: reader_bytes_def split: option.splits)
qed simp

lemma getReader_pending:
  assumes "xws_pending c \<noteq> []"
  shows "\<exists>r e c'. getReader c = (Inr (r, e), c') \<and> xw_reader c' = Some (r, e) \<and> xws_pending c' = xws_pending c"
  using assms next_reader_data [of "xw_msgs c"]
  by (auto simp: getReader_def xws_pending_def split: option.splits)

lemma xws_Read_some:
  "xws_pending c \<noteq> [] \<Longrightarrow> 0 < n \<Longrightarrow>
   \<exists>b c'. xws_Read n c = (Inr b, c') \<and> b \<noteq> [] \<and> length b \<le> n \<and> xws_pending c = b @ xws_pending c'"
proof (induction n c rule: xws_Read.induct)
  case (1 n c)
  obtain r e c1 where g: "getReader c = (Inr (r, e), c1)" "xw_reader c1 = Some (r, e)" "xws_pending c1 = xws_pending c"
    using getReader_pending [OF 1(2)] by blast
  show ?case
  proof (cases "r = []")
    case True
    have "reader_bytes (r, e) (xw_msgs c1) = xws_pending c" using g(2) unfolding g(3) [symmetric] by (simp add: xws_pending_def)
    with True 1(2) have e: "Cause e = EOF" "xws_pending (c1\<lparr>xw_reader := None\<rparr>) = xws_pending c"
      by (auto simp: reader_bytes_def xws_pending_def split: if_splits)
    with 1(1) [OF g(1) [symmetric] HOL.refl] 1(2,3) g True show ?thesis by (subst xws_Read.simps) simp
  next
    case False
    have "xws_pending c = r @ (if Cause e = EOF then data_bytes (xw_msgs c1) else [])"
      using g(2) unfolding g(3) [symmetric] by (simp add: xws_pending_def reader_bytes_def)
    also have "\<dots> = take n r @ drop n r @ (if Cause e = EOF then data_bytes (xw_msgs c1) else [])" by (metis append_assoc append_take_drop_id)
    finally show ?thesis using False g(1) 1(3) by (subst xws_Read.simps) (simp add: xws_pending_def reader_bytes_def)
  qed
qed

interpretation xws: stream_reader xws_Read xws_pending "\<lambda>_. True"
  by unfold_locales (auto dest: xws_Read_some)

subsection \<open>The gRPC connection is a stream\<close>

definition between_hunks :: "hunk_rw \<Rightarrow> bool" where
  "between_hunks h \<longleftrightarrow> \<not> hk_done h \<and> hk_index h = length (fst (hk_buf h)) \<and> list_all (\<lambda>(d, spare). d \<noteq> []) (hk_recv h)"

definition cnc_ok :: "cnc \<Rightarrow> bool" where
  "cnc_ok c \<longleftrightarrow> queue_ok (cn_buffer c) \<and> between_hunks (cn_stream c)"

definition cnc_pending :: "cnc \<Rightarrow> bytes" where
  "cnc_pending c = mb_content (cn_buffer c) @ concat (map fst (hk_recv (cn_stream c)))"

lemma NewExisted_content:
  assumes "length b + length tail \<ge> buf_Size"
  shows "\<exists>x. buf_NewExisted b tail = Inr x \<and> buf_ok x \<and> content x = b"
  using assms by (auto simp: buf_NewExisted_def buf_ok_def content_def)

lemma hunk_next:
  assumes "between_hunks h" and "hk_recv h = (d, spare) # ds"
  shows "\<exists>b h'. hunk_ReadMultiBuffer pooled h = Inr ([Some b], None, h') \<and> buf_ok b \<and> content b = d
    \<and> between_hunks h' \<and> hk_recv h' = ds"
proof -
  let ?h = "h\<lparr>hk_buf := (d, spare), hk_index := 0, hk_recv := ds\<rparr>"
  have f: "fetch_if h = (None, ?h)" "\<not> hk_done h" "d \<noteq> []"
    using assms by (simp_all add: fetch_if_def forceFetch_def between_hunks_def)
  show ?thesis
  proof (cases "length d + length spare \<ge> buf_Size")
    case True
    then show ?thesis using NewExisted_content [OF True] f assms by (auto simp: hunk_ReadMultiBuffer_def between_hunks_def)
  next
    case False
    then have lt: "length d < buf_Size" by simp
    have rd: "hunk_Read buf_Size ?h = Inr (d, None, ?h\<lparr>hk_index := length d\<rparr>)"
      using f lt by (simp add: hunk_Read_def fetch_if_def)
    have len: "length (take (nat (int (length (bf_v (buf_New pooled))) - bf_end (buf_New pooled))) (drop (nat (bf_end (buf_New pooled))) (bf_v (buf_New pooled)))) = buf_Size"
      by (simp add: buf_New_def)
    let ?b = "(buf_New pooled)\<lparr>bf_v := copy_at (nat (bf_end (buf_New pooled))) d (bf_v (buf_New pooled)), bf_end := bf_end (buf_New pooled) + int (min (room (buf_New pooled)) (length d))\<rparr>"
    have "buf_ReadFrom hunk_Read ?h (buf_New pooled) = Inr (length d, None, ?h\<lparr>hk_index := length d\<rparr>, ?b)"
      using New_ok [of pooled] lt rd len by (simp add: buf_ReadFrom_def slice_def buf_ok_def)
    moreover have "buf_ok ?b \<and> content ?b = d"
      using append_window [OF New_ok(1) [of pooled] HOL.refl HOL.refl, of d] New_ok [of pooled] lt by simp
    ultimately show ?thesis using False f assms by (auto simp: hunk_ReadMultiBuffer_def between_hunks_def)
  qed
qed

interpretation hunks: multi_source "hunk_ReadMultiBuffer pooled" "\<lambda>h. concat (map fst (hk_recv h))" between_hunks for pooled
proof
  fix h
  assume h: "between_hunks h" "concat (map fst (hk_recv h)) \<noteq> []"
  then obtain d spare ds where r: "hk_recv h = (d, spare) # ds" by (cases "hk_recv h") auto
  obtain b h' where "hunk_ReadMultiBuffer pooled h = Inr ([Some b], None, h')" "buf_ok b" "content b = d" "between_hunks h'" "hk_recv h' = ds"
    using hunk_next [OF h(1) r] by blast
  moreover have "d \<noteq> []" using h(1) r by (simp add: between_hunks_def)
  ultimately show "\<exists>mb h'. hunk_ReadMultiBuffer pooled h = Inr (mb, None, h') \<and> queue_ok mb \<and> mb_content mb \<noteq> []
    \<and> concat (map fst (hk_recv h)) = mb_content mb @ concat (map fst (hk_recv h')) \<and> between_hunks h'"
    using r by (intro exI [of _ "[Some b]"] exI [of _ h']) simp
qed

lemma cnc_Read_some:
  assumes "cnc_ok c" and "0 < n" and "cnc_pending c \<noteq> []"
  shows "\<exists>b c'. cnc_Read pooled n c = (Inr b, c') \<and> b \<noteq> [] \<and> length b \<le> n \<and> cnc_pending c = b @ cnc_pending c' \<and> cnc_ok c'"
proof -
  obtain b mb h where "buffered_Read (hunk_ReadMultiBuffer pooled) n (cn_buffer c, cn_stream c) = (Inr b, mb, h)" "b \<noteq> []" "length b \<le> n"
    "cnc_pending c = b @ mb_content mb @ concat (map fst (hk_recv h))" "queue_ok mb" "between_hunks h"
    using hunks.buffered_some [of "(cn_buffer c, cn_stream c)" n pooled] assms by (auto simp: cnc_ok_def cnc_pending_def)
  then show ?thesis by (simp add: cnc_Read_def cnc_ok_def cnc_pending_def)
qed

interpretation grpc: stream_reader "cnc_Read pooled" cnc_pending cnc_ok for pooled
  by unfold_locales (rule cnc_Read_some)

subsection \<open>What a gRPC connection writes\<close>

lemma merge_loop_nonempty:
  assumes new: "\<And>p x b n. x \<noteq> [] \<Longrightarrow> buf_Write x (buf_New p) = Inr (n, b) \<Longrightarrow> P b"
  shows "\<forall>ob \<in> set dest. \<exists>b. ob = Some b \<and> P b \<Longrightarrow> merge_loop pool dest src = Inr mb \<Longrightarrow> \<forall>ob \<in> set mb. \<exists>b. ob = Some b \<and> P b"
proof (induction pool dest src rule: merge_loop.induct)
  case (1 pool dest src)
  show ?case
  proof (cases "src = []")
    case True
    with 1(2,3) show ?thesis by (simp add: merge_loop.simps)
  next
    case False
    obtain n b where w: "buf_Write src (buf_New (pool (length src))) = Inr (n, b)" by (simp add: Write_New)
    from new [OF False w] 1(2) have "\<forall>ob \<in> set (dest @ [Some b]). \<exists>b. ob = Some b \<and> P b" by auto
    moreover have "merge_loop pool (dest @ [Some b]) (drop n src) = Inr mb"
      using 1(3) False w by (subst (asm) merge_loop.simps) simp
    ultimately show ?thesis using 1(1) [OF False w HOL.refl] by blast
  qed
qed

lemma all_Some:
  "\<forall>ob \<in> set mb. \<exists>b. ob = Some b \<and> P b \<Longrightarrow> \<exists>bs. mb = map Some bs \<and> list_all P bs"
proof (induction mb)
  case (Cons ob mb)
  then obtain b bs where "ob = Some b" "P b" "mb = map Some bs" "list_all P bs" by auto
  then show ?case by (intro exI [of _ "b # bs"]) simp
qed simp

lemma MergeBytes_chunks:
  "\<exists>bs. MergeBytes pool [] src = Inr (map Some bs) \<and> concat (map content bs) = src
     \<and> list_all (\<lambda>b. buf_ok b \<and> content b \<noteq> [] \<and> length (content b) \<le> buf_Size) bs"
proof -
  obtain mb where mb: "MergeBytes pool [] src = Inr mb" "queue_ok mb" "mb_content mb = src"
    using MergeBytes_content [of "[]" pool src] by auto
  let ?P = "\<lambda>b. buf_ok b \<and> content b \<noteq> [] \<and> length (content b) \<le> buf_Size"
  have "?P b" if x: "x \<noteq> []" and w: "buf_Write x (buf_New p) = Inr (n, b)" for p x b n
    using Write_content [OF New_ok(1) [of p], of x] x w New_ok [of p] by (auto simp: buf_Size_def)
  from merge_loop_nonempty [of ?P "[]", OF this] mb(1) have all: "\<forall>ob \<in> set mb. \<exists>b. ob = Some b \<and> ?P b"
    by (auto simp: MergeBytes_def)
  obtain bs where bs: "mb = map Some bs" "list_all ?P bs" using all_Some [OF all] by blast
  then have "concat (map content bs) = src" using mb(3) by (simp add: mb_content_def comp_def)
  with mb(1) bs show ?thesis by blast
qed

lemma WriteMultiBuffer_sends:
  assumes "\<not> hk_done h" and "list_all buf_ok bs"
  shows "WriteMultiBuffer (hunk_Write None) (map Some bs) h = Inr ([], None, h\<lparr>hk_sent := hk_sent h @ map content bs\<rparr>)"
  using assms by (induction bs arbitrary: h) (simp_all add: Bytes_content hunk_Write_def)

fun cnc_writes :: "(nat \<Rightarrow> bytes) \<Rightarrow> bytes list \<Rightarrow> cnc \<Rightarrow> (goerr option \<times> cnc) res" where
  "cnc_writes pool [] c = Inr (None, c)"
| "cnc_writes pool (p # ps) c =
     and_then (cnc_Write pool None p c) (\<lambda>(err, c'). case err of Some e \<Rightarrow> Inr (Some e, c') | None \<Rightarrow> cnc_writes pool ps c')"

lemma cnc_writes_send:
  assumes "\<not> cn_done c" and "\<not> hk_done (cn_stream c)"
  shows "\<exists>hs. cnc_writes pool ps c = Inr (None, c\<lparr>cn_stream := (cn_stream c)\<lparr>hk_sent := hk_sent (cn_stream c) @ hs\<rparr>\<rparr>)
    \<and> concat hs = concat ps \<and> list_all (\<lambda>d. d \<noteq> [] \<and> length d \<le> buf_Size) hs"
  using assms
proof (induction ps arbitrary: c)
  case (Cons p ps)
  obtain bs where bs: "MergeBytes pool [] p = Inr (map Some bs)" "concat (map content bs) = p"
    "list_all (\<lambda>b. buf_ok b \<and> content b \<noteq> [] \<and> length (content b) \<le> buf_Size) bs" using MergeBytes_chunks by blast
  have ok: "list_all buf_ok bs" "list_all (\<lambda>d. d \<noteq> [] \<and> length d \<le> buf_Size) (map content bs)"
    using bs(3) by (simp_all add: list_all_iff)
  let ?c = "c\<lparr>cn_stream := (cn_stream c)\<lparr>hk_sent := hk_sent (cn_stream c) @ map content bs\<rparr>\<rparr>"
  have w: "cnc_Write pool None p c = Inr (None, ?c)"
    using Cons.prems bs(1) WriteMultiBuffer_sends [OF Cons.prems(2) ok(1)]
    by (simp add: cnc_Write_def SequentialWriter_WriteMultiBuffer_def)
  obtain hs where "cnc_writes pool ps ?c = Inr (None, ?c\<lparr>cn_stream := (cn_stream ?c)\<lparr>hk_sent := hk_sent (cn_stream ?c) @ hs\<rparr>\<rparr>)"
    "concat hs = concat ps" "list_all (\<lambda>d. d \<noteq> [] \<and> length d \<le> buf_Size) hs"
    using Cons.IH [of ?c] Cons.prems by auto
  with w ok(2) bs(2) show ?case by (intro exI [of _ "map content bs @ hs"]) simp
qed (intro exI [of _ "[]"], simp)

text \<open>
  C28. gRPC round trip: writes of any sizes to a gRPC connection become non-empty messages of at
  most 8192 bytes, and a connection at the other end, whatever spare capacity the messages
  arrive with and whatever the recycled buffers contain, reads the bytes back in order, with
  nothing lost, added or repeated, in reads of any positive sizes. Sending succeeds by assumption.
\<close>

theorem grpc_roundtrip:
  assumes "\<not> hk_done h" and "hk_sent h = []" and "list_all (\<lambda>n. 0 < n) ns" and "sum_list ns \<le> length (concat ps)"
  shows "\<exists>hs. cnc_writes pool ps (NewConnection h) = Inr (None, NewConnection (h\<lparr>hk_sent := hs\<rparr>))
    \<and> list_all (\<lambda>d. d \<noteq> [] \<and> length d \<le> buf_Size) hs
    \<and> (\<forall>recv bs r. map fst recv = hs \<longrightarrow>
        reads (cnc_Read pooled) ns (NewConnection \<lparr>hk_buf = ([], []), hk_index = 0, hk_recv = recv, hk_end = e, hk_done = False, hk_sent = []\<rparr>) = (bs, r) \<longrightarrow>
        concat ps = concat bs @ cnc_pending r \<and> list_all2 (\<lambda>b n. b \<noteq> [] \<and> length b \<le> n) bs ns)"
proof -
  obtain hs where hs: "cnc_writes pool ps (NewConnection h) = Inr (None, NewConnection (h\<lparr>hk_sent := hs\<rparr>))" "concat hs = concat ps"
    "list_all (\<lambda>d. d \<noteq> [] \<and> length d \<le> buf_Size) hs"
    using cnc_writes_send [of "NewConnection h" pool ps] assms(1,2) by (auto simp: NewConnection_def)
  have "concat ps = concat bs @ cnc_pending r \<and> list_all2 (\<lambda>b n. b \<noteq> [] \<and> length b \<le> n) bs ns"
    if recv: "map fst recv = hs"
      and rd: "reads (cnc_Read pooled) ns (NewConnection \<lparr>hk_buf = ([], []), hk_index = 0, hk_recv = recv, hk_end = e, hk_done = False, hk_sent = []\<rparr>) = (bs, r)"
    for recv bs r
  proof -
    let ?r = "NewConnection \<lparr>hk_buf = ([], []), hk_index = 0, hk_recv = recv, hk_end = e, hk_done = False, hk_sent = []\<rparr>"
    have "cnc_ok ?r" using hs(3) by (simp add: recv [symmetric] NewConnection_def cnc_ok_def between_hunks_def list_all_iff) force
    moreover have "cnc_pending ?r = concat ps" using recv hs(2) by (simp add: NewConnection_def cnc_pending_def)
    ultimately show ?thesis using grpc.reads_in_order [OF _ assms(3) _ rd] assms(4) by simp
  qed
  with hs show ?thesis by blast
qed

theorem grpc_roundtrip_witness:
  "\<exists>hs. cnc_writes (\<lambda>_. []) [[1, 2], [3]] (NewConnection \<lparr>hk_buf = ([], []), hk_index = 0, hk_recv = [], hk_end = EOF, hk_done = False, hk_sent = []\<rparr>)
       = Inr (None, NewConnection \<lparr>hk_buf = ([], []), hk_index = 0, hk_recv = [], hk_end = EOF, hk_done = False, hk_sent = hs\<rparr>)
     \<and> list_all (\<lambda>d. d \<noteq> [] \<and> length d \<le> buf_Size) hs"
  using grpc_roundtrip [of "\<lparr>hk_buf = ([], []), hk_index = 0, hk_recv = [], hk_end = EOF, hk_done = False, hk_sent = []\<rparr>" "[1, 1]" "[[1, 2], [3]]" "\<lambda>_. []" "[]" EOF]
  by auto

text \<open>
  The WebSocket connection of the vless strategy is a stream too, and here empty and control
  messages are passed over: reads of any positive sizes return the bytes of the data messages in order.
\<close>

lemma xws_reads_stream:
  assumes "list_all (\<lambda>n. 0 < n) ns" and "sum_list ns \<le> length (xws_pending c)" and "reads xws_Read ns c = (bs, c')"
  shows "xws_pending c = concat bs @ xws_pending c' \<and> list_all2 (\<lambda>b n. b \<noteq> [] \<and> length b \<le> n) bs ns"
  by (rule xws.reads_in_order [OF TrueI assms])

lemma xws_reads_stream_witness:
  "\<exists>bs c'. reads xws_Read [2, 1] \<lparr>xw_reader = None, xw_msgs = [(BinaryMessage, [], EOF), (ControlMessage, [9], EOF), (BinaryMessage, [1, 2, 3], EOF)], xw_end = EOF, xw_sent = []\<rparr> = (bs, c')
     \<and> [1, 2, 3] = concat bs @ xws_pending c'"
proof -
  let ?c = "\<lparr>xw_reader = None, xw_msgs = [(BinaryMessage, [], EOF), (ControlMessage, [9], EOF), (BinaryMessage, [1, 2, 3], EOF)], xw_end = EOF, xw_sent = []\<rparr>"
  obtain bs c' where r: "reads xws_Read [2, 1] ?c = (bs, c')" by fastforce
  from xws_reads_stream [OF _ _ r] show ?thesis using r by (auto simp: xws_pending_def)
qed

text \<open>
  An empty message before a large one: the read that skips it takes the first 8192 bytes of the large one,
  and the next read returns the large one from its start again.
\<close>

lemma hunk_empty_then_large:
  assumes "between_hunks (h\<lparr>hk_recv := []\<rparr>)" and "hk_recv h = [([], []), (d, spare)]" and "length d > buf_Size"
  shows "\<exists>b h'. hunk_ReadMultiBuffer pooled h = Inr ([Some b], None, h') \<and> content b = take buf_Size d
    \<and> (\<exists>b' h''. hunk_ReadMultiBuffer pooled h' = Inr ([Some b'], None, h'') \<and> content b' = d)"
proof -
  let ?h0 = "h\<lparr>hk_buf := ([], []), hk_index := 0, hk_recv := [(d, spare)]\<rparr>"
  let ?h1 = "h\<lparr>hk_buf := (d, spare), hk_index := buf_Size, hk_recv := []\<rparr>"
  have f: "fetch_if h = (None, ?h0)" "\<not> hk_done h"
    using assms(1,2) by (simp_all add: fetch_if_def forceFetch_def between_hunks_def)
  have rd: "hunk_Read buf_Size ?h0 = Inr (take buf_Size d, None, ?h1)"
    using f(2) assms(3) by (simp add: hunk_Read_def fetch_if_def forceFetch_def min_def)
  have len: "length (take (nat (int (length (bf_v (buf_New pooled))) - bf_end (buf_New pooled))) (drop (nat (bf_end (buf_New pooled))) (bf_v (buf_New pooled)))) = buf_Size"
    by (simp add: buf_New_def)
  let ?d = "take buf_Size d"
  let ?b = "(buf_New pooled)\<lparr>bf_v := copy_at (nat (bf_end (buf_New pooled))) ?d (bf_v (buf_New pooled)), bf_end := bf_end (buf_New pooled) + int (min (room (buf_New pooled)) (length ?d))\<rparr>"
  have "buf_ReadFrom hunk_Read ?h0 (buf_New pooled) = Inr (length ?d, None, ?h1, ?b)"
    using New_ok [of pooled] rd len assms(3) by (simp add: buf_ReadFrom_def slice_def buf_ok_def min_def)
  moreover have "content ?b = ?d"
    using append_window [OF New_ok(1) [of pooled] HOL.refl HOL.refl, of ?d] New_ok [of pooled] by simp
  moreover have "\<exists>b' h''. hunk_ReadMultiBuffer pooled ?h1 = Inr ([Some b'], None, h'') \<and> content b' = d"
    using f(2) assms(3) NewExisted_content [of d spare] by (auto simp: hunk_ReadMultiBuffer_def fetch_if_def)
  ultimately show ?thesis using f by (auto simp: hunk_ReadMultiBuffer_def buf_Size_def)
qed

end
