(* ===== verification/MultiHunk.thy ===== *)
theory MultiHunk
  imports Transport
begin

section \<open>gRPC streams of many pieces\<close>

text \<open>
  \<open>grpc/encoding/multiconn.go\<close>: in multi mode a gRPC message carries a list of byte slices. A piece that
  arrives is its bytes and the spare capacity behind them. The reader is a source of buffer lists in the sense of
  the locale \<open>multi_source\<close>, so that the buffered reader of a connection makes a byte stream of it.
\<close>

subsection \<open>multiconn.go\<close>

type_synonym piece = "bytes \<times> bytes"

record multi_rw =
  mh_recv :: "piece list list"
  mh_end :: goerr
  mh_done :: bool
  mh_sent :: "bytes list list"

definition multi_forceFetch :: "multi_rw \<Rightarrow> piece list res \<times> multi_rw" where
  "multi_forceFetch h =
     (case mh_recv h of
        [] \<Rightarrow> (Inl (if mh_end h = EOF then EOF else Wrap ''failed to fetch hunk from gRPC tunnel'' (mh_end h)), h)
      | d # ds \<Rightarrow> (Inr d, h\<lparr>mh_recv := ds\<rparr>))"

text \<open>The body of the loop over the pieces: a large slice is taken over, a small one copied into a new buffer.\<close>

definition piece_buffer :: "bytes \<Rightarrow> piece \<Rightarrow> buffer res" where
  "piece_buffer pooled p =
     (let (b, spare) = p in
      if length b + length spare \<ge> buf_Size then buf_NewExisted b spare
      else and_then (buf_Extend (int (length b)) (buf_New pooled)) (\<lambda>(ext, nb).
             and_then (buf_Bytes nb) (\<lambda>w. Inr (nb\<lparr>bf_v := copy_at (nat (bf_start nb)) (take (length w) b) (bf_v nb)\<rparr>))))"

fun piece_buffers :: "(nat \<Rightarrow> bytes) \<Rightarrow> piece list \<Rightarrow> multi_buffer res" where
  "piece_buffers pool [] = Inr []"
| "piece_buffers pool (p # ps) =
     (if fst p = [] then piece_buffers pool ps
      else and_then (piece_buffer (pool (length ps)) p) (\<lambda>b. and_then (piece_buffers pool ps) (\<lambda>mb. Inr (Some b # mb))))"

definition multi_ReadMultiBuffer :: "(nat \<Rightarrow> bytes) \<Rightarrow> multi_rw \<Rightarrow> (multi_buffer \<times> goerr option \<times> multi_rw) res" where
  "multi_ReadMultiBuffer pool h =
     (if mh_done h then Inr ([], Some EOF, h)
      else case multi_forceFetch h of
        (Inl e, h') \<Rightarrow> Inr ([], Some e, h')
      | (Inr ps, h') \<Rightarrow> and_then (piece_buffers pool ps) (\<lambda>mb. Inr (mb, None, h')))"

text \<open>The slices of one message: the contents of the buffers that are not empty. \<open>serr\<close> is the outcome of \<open>Send\<close>.\<close>

fun hunk_slices :: "multi_buffer \<Rightarrow> bytes list res" where
  "hunk_slices [] = Inr []"
| "hunk_slices (ob # mb) =
     (if buf_Len ob > 0 then
        (case ob of
           None \<Rightarrow> Inl (Panic ''nil pointer dereference'')
         | Some b \<Rightarrow> and_then (buf_Bytes b) (\<lambda>s. and_then (hunk_slices mb) (\<lambda>ss. Inr (s # ss))))
      else hunk_slices mb)"

definition multi_WriteMultiBuffer :: "goerr option \<Rightarrow> multi_buffer \<Rightarrow> multi_rw \<Rightarrow> (goerr option \<times> multi_rw) res" where
  "multi_WriteMultiBuffer serr mb h =
     (if mh_done h then Inr (Some ClosedPipe, h)
      else and_then (hunk_slices mb) (\<lambda>hunks.
        Inr (case serr of Some e \<Rightarrow> (Some e, h) | None \<Rightarrow> (None, h\<lparr>mh_sent := mh_sent h @ [hunks]\<rparr>))))"

subsection \<open>cnc/connection.go over a stream of many pieces\<close>

record multi_cnc =
  mc_buffer :: multi_buffer
  mc_stream :: multi_rw
  mc_done :: bool

definition NewMultiHunkConn :: "multi_rw \<Rightarrow> multi_cnc" where
  "NewMultiHunkConn h = \<lparr>mc_buffer = [], mc_stream = h, mc_done = False\<rparr>"

definition mc_Read :: "(nat \<Rightarrow> bytes) \<Rightarrow> nat \<Rightarrow> multi_cnc \<Rightarrow> bytes res \<times> multi_cnc" where
  "mc_Read pool n c =
     (let (r, buffer, s) = buffered_Read (multi_ReadMultiBuffer pool) n (mc_buffer c, mc_stream c) in
      (r, c\<lparr>mc_buffer := buffer, mc_stream := s\<rparr>))"

definition mc_Write :: "(nat \<Rightarrow> bytes) \<Rightarrow> goerr option \<Rightarrow> bytes \<Rightarrow> multi_cnc \<Rightarrow> (goerr option \<times> multi_cnc) res" where
  "mc_Write pool serr b c =
     (if mc_done c then Inr (Some ClosedPipe, c)
      else
        and_then (MergeBytes pool [] b) (\<lambda>mb.
          and_then (multi_WriteMultiBuffer serr mb (mc_stream c)) (\<lambda>(err, s). Inr (err, c\<lparr>mc_stream := s\<rparr>))))"

subsection \<open>Messages of many pieces are a stream\<close>

definition pieces_bytes :: "piece list \<Rightarrow> bytes" where
  "pieces_bytes ps = concat (map fst ps)"

definition multi_pending :: "multi_rw \<Rightarrow> bytes" where
  "multi_pending h = concat (map pieces_bytes (mh_recv h))"

definition multi_ok :: "multi_rw \<Rightarrow> bool" where
  "multi_ok h \<longleftrightarrow> \<not> mh_done h \<and> list_all (\<lambda>ps. pieces_bytes ps \<noteq> []) (mh_recv h)"

lemma piece_buffer_content: "\<exists>b. piece_buffer pooled p = Inr b \<and> buf_ok b \<and> content b = fst p"
proof (cases p)
  case (Pair d spare)
  show ?thesis
  proof (cases "length d + length spare \<ge> buf_Size")
    case True
    then show ?thesis using NewExisted_content [OF True] Pair by (simp add: piece_buffer_def)
  next
    case False
    then have lt: "length d < buf_Size" by simp
    then have w: "wrap32 (int (length d)) = int (length d)" by (simp add: wrap32_def buf_Size_def)
    let ?nb = "(buf_New pooled)\<lparr>bf_end := int (length d)\<rparr>"
    have "buf_Extend (int (length d)) (buf_New pooled) = Inr (take (length d) (bf_v (buf_New pooled)), ?nb)"
      using lt w by (simp add: buf_Extend_def Let_def slice_def) (simp add: buf_New_def)
    moreover have "buf_Bytes ?nb = Inr (take (length d) (bf_v (buf_New pooled)))"
      using lt by (simp add: buf_Bytes_def slice_def) (simp add: buf_New_def)
    ultimately show ?thesis
      using False lt Pair by (simp add: piece_buffer_def buf_ok_def content_def copy_at_def) (simp add: buf_New_def)
  qed
qed

lemma piece_buffers_content: "\<exists>mb. piece_buffers pool ps = Inr mb \<and> queue_ok mb \<and> mb_content mb = pieces_bytes ps"
proof (induction ps)
  case (Cons p ps)
  then obtain mb where mb: "piece_buffers pool ps = Inr mb" "queue_ok mb" "mb_content mb = pieces_bytes ps" by blast
  obtain b where "piece_buffer (pool (length ps)) p = Inr b" "buf_ok b" "content b = fst p" using piece_buffer_content by blast
  with mb show ?case by (simp add: pieces_bytes_def)
qed (simp add: pieces_bytes_def)

interpretation multi: multi_source "multi_ReadMultiBuffer pool" multi_pending multi_ok for pool
proof
  fix h
  assume h: "multi_ok h" "multi_pending h \<noteq> []"
  then obtain ps pss where r: "mh_recv h = ps # pss" by (cases "mh_recv h") (auto simp: multi_pending_def)
  obtain mb where "piece_buffers pool ps = Inr mb" "queue_ok mb" "mb_content mb = pieces_bytes ps" using piece_buffers_content by blast
  with h r show "\<exists>mb h'. multi_ReadMultiBuffer pool h = Inr (mb, None, h') \<and> queue_ok mb \<and> mb_content mb \<noteq> []
    \<and> multi_pending h = mb_content mb @ multi_pending h' \<and> multi_ok h'"
    by (auto simp: multi_ReadMultiBuffer_def multi_forceFetch_def multi_ok_def multi_pending_def)
qed

interpretation multi_conn: stream_reader "mc_Read pool" "\<lambda>c. mb_content (mc_buffer c) @ multi_pending (mc_stream c)"
  "\<lambda>c. queue_ok (mc_buffer c) \<and> multi_ok (mc_stream c)" for pool
proof
  fix c :: multi_cnc and n :: nat
  assume "queue_ok (mc_buffer c) \<and> multi_ok (mc_stream c)" "0 < n" "mb_content (mc_buffer c) @ multi_pending (mc_stream c) \<noteq> []"
  then obtain b mb h where "buffered_Read (multi_ReadMultiBuffer pool) n (mc_buffer c, mc_stream c) = (Inr b, mb, h)" "b \<noteq> []" "length b \<le> n"
    "mb_content (mc_buffer c) @ multi_pending (mc_stream c) = b @ mb_content mb @ multi_pending h" "queue_ok mb" "multi_ok h"
    using multi.buffered_some [of "(mc_buffer c, mc_stream c)" n pool] by auto
  then show "\<exists>b c'. mc_Read pool n c = (Inr b, c') \<and> b \<noteq> [] \<and> length b \<le> n
    \<and> mb_content (mc_buffer c) @ multi_pending (mc_stream c) = b @ mb_content (mc_buffer c') @ multi_pending (mc_stream c')
    \<and> queue_ok (mc_buffer c') \<and> multi_ok (mc_stream c')"
    by (simp add: mc_Read_def)
qed

subsection \<open>What a connection in multi mode writes\<close>

lemma hunk_slices_content:
  "list_all (\<lambda>b. buf_ok b \<and> content b \<noteq> []) bs \<Longrightarrow> hunk_slices (map Some bs) = Inr (map content bs)"
  by (induction bs) (simp_all add: Len_content Bytes_content)

fun mc_writes :: "(nat \<Rightarrow> bytes) \<Rightarrow> bytes list \<Rightarrow> multi_cnc \<Rightarrow> (goerr option \<times> multi_cnc) res" where
  "mc_writes pool [] c = Inr (None, c)"
| "mc_writes pool (p # ps) c =
     and_then (mc_Write pool None p c) (\<lambda>(err, c'). case err of Some e \<Rightarrow> Inr (Some e, c') | None \<Rightarrow> mc_writes pool ps c')"

definition message_of :: "bytes \<Rightarrow> bytes list \<Rightarrow> bool" where
  "message_of p hs \<longleftrightarrow> concat hs = p \<and> list_all (\<lambda>d. d \<noteq> [] \<and> length d \<le> buf_Size) hs"

lemma mc_writes_send:
  assumes "\<not> mc_done c" and "\<not> mh_done (mc_stream c)"
  shows "\<exists>hss. mc_writes pool ps c = Inr (None, c\<lparr>mc_stream := (mc_stream c)\<lparr>mh_sent := mh_sent (mc_stream c) @ hss\<rparr>\<rparr>) \<and> list_all2 message_of ps hss"
  using assms
proof (induction ps arbitrary: c)
  case (Cons p ps)
  obtain bs where bs: "MergeBytes pool [] p = Inr (map Some bs)" "concat (map content bs) = p"
    "list_all (\<lambda>b. buf_ok b \<and> content b \<noteq> [] \<and> length (content b) \<le> buf_Size) bs" using MergeBytes_chunks by blast
  then have ok: "list_all (\<lambda>b. buf_ok b \<and> content b \<noteq> []) bs" "message_of p (map content bs)"
    by (simp_all add: list_all_iff message_of_def)
  let ?c = "c\<lparr>mc_stream := (mc_stream c)\<lparr>mh_sent := mh_sent (mc_stream c) @ [map content bs]\<rparr>\<rparr>"
  have w: "mc_Write pool None p c = Inr (None, ?c)"
    using Cons.prems bs(1) hunk_slices_content [OF ok(1)] by (simp add: mc_Write_def multi_WriteMultiBuffer_def)
  obtain hss where "mc_writes pool ps ?c = Inr (None, ?c\<lparr>mc_stream := (mc_stream ?c)\<lparr>mh_sent := mh_sent (mc_stream ?c) @ hss\<rparr>\<rparr>)"
    "list_all2 message_of ps hss" using Cons.IH [of ?c] Cons.prems by auto
  with w ok(2) show ?case by (intro exI [of _ "map content bs # hss"]) simp
qed (intro exI [of _ "[]"], simp)

lemma messages_bytes: "list_all2 message_of ps hss \<Longrightarrow> concat (map concat hss) = concat ps"
  by (induction rule: list_all2_induct) (simp_all add: message_of_def)

text \<open>
  C29. gRPC round trip in multi mode: every write to a connection becomes one message of non-empty pieces of at most 8192
  bytes, and a connection at the other end reads the bytes of non-empty writes back in order, with nothing lost, added or
  repeated, in reads of any positive sizes, whatever spare capacity the pieces arrive with and whatever the recycled
  buffers contain. Sending succeeds by assumption.
\<close>

theorem multi_roundtrip:
  assumes "\<not> mh_done h" and "mh_sent h = []" and "list_all (\<lambda>p. p \<noteq> []) ps"
    and "list_all (\<lambda>n. 0 < n) ns" and "sum_list ns \<le> length (concat ps)"
  shows "\<exists>hss. mc_writes pool ps (NewMultiHunkConn h) = Inr (None, NewMultiHunkConn (h\<lparr>mh_sent := hss\<rparr>))
    \<and> list_all2 message_of ps hss
    \<and> (\<forall>recv bs r. map (map fst) recv = hss \<longrightarrow>
        reads (mc_Read pool') ns (NewMultiHunkConn \<lparr>mh_recv = recv, mh_end = e, mh_done = False, mh_sent = []\<rparr>) = (bs, r) \<longrightarrow>
        concat ps = concat bs @ mb_content (mc_buffer r) @ multi_pending (mc_stream r) \<and> list_all2 (\<lambda>b n. b \<noteq> [] \<and> length b \<le> n) bs ns)"
proof -
  obtain hss where hss: "mc_writes pool ps (NewMultiHunkConn h) = Inr (None, NewMultiHunkConn (h\<lparr>mh_sent := hss\<rparr>))" "list_all2 message_of ps hss"
    using mc_writes_send [of "NewMultiHunkConn h" pool ps] assms(1,2) by (auto simp: NewMultiHunkConn_def)
  have "concat ps = concat bs @ mb_content (mc_buffer r) @ multi_pending (mc_stream r) \<and> list_all2 (\<lambda>b n. b \<noteq> [] \<and> length b \<le> n) bs ns"
    if recv: "map (map fst) recv = hss"
      and rd: "reads (mc_Read pool') ns (NewMultiHunkConn \<lparr>mh_recv = recv, mh_end = e, mh_done = False, mh_sent = []\<rparr>) = (bs, r)" for recv bs r
  proof -
    let ?r = "NewMultiHunkConn \<lparr>mh_recv = recv, mh_end = e, mh_done = False, mh_sent = []\<rparr>"
    have bytes: "map pieces_bytes recv = map concat hss" using recv by (auto simp: pieces_bytes_def)
    have "list_all (\<lambda>b. b \<noteq> []) (map concat hss)"
      using hss(2) assms(3) by (induction rule: list_all2_induct) (auto simp: message_of_def)
    then have "list_all (\<lambda>x. pieces_bytes x \<noteq> []) recv" unfolding bytes [symmetric] by (simp add: list_all_iff)
    then have "queue_ok (mc_buffer ?r) \<and> multi_ok (mc_stream ?r)" by (simp add: NewMultiHunkConn_def multi_ok_def)
    moreover have "mb_content (mc_buffer ?r) @ multi_pending (mc_stream ?r) = concat ps"
      using messages_bytes [OF hss(2)] bytes by (simp add: NewMultiHunkConn_def multi_pending_def)
    ultimately show ?thesis using multi_conn.reads_in_order [OF _ assms(4) _ rd] assms(5) by simp
  qed
  with hss show ?thesis by blast
qed

theorem multi_roundtrip_witness:
  "\<exists>hss. mc_writes (\<lambda>_. []) [[1, 2], [3]] (NewMultiHunkConn \<lparr>mh_recv = [], mh_end = EOF, mh_done = False, mh_sent = []\<rparr>)
       = Inr (None, NewMultiHunkConn \<lparr>mh_recv = [], mh_end = EOF, mh_done = False, mh_sent = hss\<rparr>) \<and> list_all2 message_of [[1, 2], [3]] hss"
  using multi_roundtrip [of "\<lparr>mh_recv = [], mh_end = EOF, mh_done = False, mh_sent = []\<rparr>" "[[1, 2], [3]]" "[1, 1]" "\<lambda>_. []" "\<lambda>_. []" EOF]
  by auto

text \<open>An empty write still sends a message, and its reader gets no bytes and no error.\<close>

lemma empty_multi_message:
  "multi_ok (h\<lparr>mh_recv := []\<rparr>) \<Longrightarrow> mh_recv h = [] # rest \<Longrightarrow>
   buffered_Read (multi_ReadMultiBuffer pool) n ([], h) = (Inr [], [], h\<lparr>mh_recv := rest\<rparr>)"
  by (simp add: multi_ok_def buffered_Read_def BufferedReader_Read_def multi_IsEmpty_def multi_ReadMultiBuffer_def multi_forceFetch_def)

end
