(* ===== verification/IPText.thy ===== *)
theory IPText
  imports GoNet
begin

section \<open>Printed IP addresses parse back\<close>

text \<open>
  \<open>net.IP.String\<close> and \<open>net.ParseIP\<close> are used in sequence wherever an address is printed into a SOCKS5
  or gRPC target and parsed again by the next component. This theory shows that nothing is lost on
  the way, for IPv4 and for IPv6 with its compressed run of zero groups.
\<close>

subsection \<open>Hexadecimal groups\<close>

definition group_bytes :: "nat \<Rightarrow> bytes" where
  "group_bytes g = [word_of_nat (g div 256), word_of_nat (g mod 256)]"

abbreviation groups_bytes :: "nat list \<Rightarrow> bytes" where
  "groups_bytes gs \<equiv> concat (map group_bytes gs)"

lemma length_group_bytes [simp]: "length (group_bytes g) = 2"
  by (simp add: group_bytes_def)

lemma length_groups_bytes [simp]: "length (groups_bytes gs) = 2 * length gs"
  by (induction gs) simp_all

lemma hex_digit:
  assumes "k < 16"
  shows "is_hex (hex_digit k)" and "hex_val (hex_digit k) = k"
  using assms by (auto simp: hex_digit_def is_hex_def hex_val_def Let_def)

lemma hex_num_snoc: "hex_num (s @ [c]) = hex_num s * 16 + hex_val c"
  by (simp add: hex_num_def)

lemma show_hex_is_hex: "list_all is_hex (show_hex n)"
proof (induction n rule: show_hex.induct)
  case (1 n)
  then show ?case using hex_digit(1) [of "n mod 16"] hex_digit(1) [of n]
    by (subst show_hex.simps) (simp add: Let_def)
qed

lemma hex_num_show_hex: "hex_num (show_hex n) = n"
proof (induction n rule: show_hex.induct)
  case (1 n)
  show ?case
  proof (cases "n < 16")
    case True
    then show ?thesis using hex_digit(2) [of n] by (subst show_hex.simps) (simp add: Let_def hex_num_def)
  next
    case False
    then have "hex_num (show_hex (n div 16)) = n div 16" using 1 by blast
    with False show ?thesis using hex_digit(2) [of "n mod 16"]
      by (subst show_hex.simps) (simp add: Let_def hex_num_snoc)
  qed
qed

lemma length_show_hex: "n < 16 ^ Suc k \<Longrightarrow> length (show_hex n) \<le> Suc k"
proof (induction k arbitrary: n)
  case 0
  then show ?case by (subst show_hex.simps) simp
next
  case (Suc k)
  show ?case
  proof (cases "n < 16")
    case True
    then show ?thesis by (subst show_hex.simps) (simp add: Let_def)
  next
    case False
    have "n div 16 < 16 ^ Suc k" using Suc.prems by (simp add: less_mult_imp_div_less)
    with False Suc.IH show ?thesis by (subst show_hex.simps) (simp add: Let_def)
  qed
qed

lemma show_hex_nonempty [simp]: "show_hex n \<noteq> []"
  by (subst show_hex.simps) (simp add: Let_def)

lemma show_hex_4: "n < 65536 \<Longrightarrow> length (show_hex n) \<le> 4"
  using length_show_hex [of n 3] by simp

lemma colon_not_hex [simp]: "\<not> is_hex CHR '':''"
  by (simp add: is_hex_def)

lemma take_hex:
  "\<not> is_hex c \<Longrightarrow> takeWhile is_hex (show_hex n @ c # r) = show_hex n \<and> dropWhile is_hex (show_hex n @ c # r) = c # r"
  "takeWhile is_hex (show_hex n) = show_hex n \<and> dropWhile is_hex (show_hex n) = []"
  using show_hex_is_hex [of n]
  by (auto simp: list_all_iff takeWhile_append2 dropWhile_append2 takeWhile_eq_all_conv dropWhile_eq_Nil_conv)

subsection \<open>Groups with and without an ellipsis\<close>

abbreviation groups_ok :: "nat list \<Rightarrow> bool" where
  "groups_ok gs \<equiv> list_all (\<lambda>g. g < 65536) gs"

lemma join_colon_Cons: "gs \<noteq> [] \<Longrightarrow> join_colon (g # gs) = show_hex g @ CHR '':'' # join_colon gs"
  by (cases gs) simp_all

lemma join_colon_nonempty: "gs \<noteq> [] \<Longrightarrow> join_colon gs \<noteq> []"
  by (cases gs rule: join_colon.cases) simp_all

lemma show_hex_hd [simp]: "is_hex (hd (show_hex n))"
  using show_hex_is_hex [of n] hd_in_set [OF show_hex_nonempty [of n]] by (simp only: list_all_iff)

lemma join_colon_hd: "gs \<noteq> [] \<Longrightarrow> is_hex (hd (join_colon gs))"
  by (cases gs rule: join_colon.cases) (simp_all add: hd_append)

lemma join_colon_hd_colon [simp]: "gs \<noteq> [] \<Longrightarrow> hd (join_colon gs) \<noteq> CHR '':''"
  using join_colon_hd [of gs] by (auto simp: is_hex_def)

lemma parse_group_end:
  "g < 65536 \<Longrightarrow> parse_v6_groups (Suc n) ip ell (show_hex g) = Some (ip @ group_bytes g, ell, [])"
  using show_hex_4 [of g] by (simp add: Let_def take_hex hex_num_show_hex group_bytes_def)

lemma parse_group_next:
  "g < 65536 \<Longrightarrow> r \<noteq> [] \<Longrightarrow> hd r \<noteq> CHR '':'' \<Longrightarrow>
   parse_v6_groups (Suc n) ip ell (show_hex g @ CHR '':'' # r) = parse_v6_groups n (ip @ group_bytes g) ell r"
  using show_hex_4 [of g] by (simp add: Let_def take_hex hex_num_show_hex group_bytes_def)

lemma parse_group_ellipsis:
  "g < 65536 \<Longrightarrow> parse_v6_groups (Suc n) ip None (show_hex g @ CHR '':'' # CHR '':'' # r) =
     (if r = [] then Some (ip @ group_bytes g, Some (length ip + 2), [])
      else parse_v6_groups n (ip @ group_bytes g) (Some (length ip + 2)) r)"
  using show_hex_4 [of g] by (simp add: Let_def take_hex hex_num_show_hex group_bytes_def)

declare parse_v6_groups.simps(2) [simp del]

lemma parse_groups:
  "gs \<noteq> [] \<Longrightarrow> groups_ok gs \<Longrightarrow> length gs \<le> n \<Longrightarrow>
   parse_v6_groups n ip ell (join_colon gs) = Some (ip @ groups_bytes gs, ell, [])"
proof (induction gs arbitrary: n ip)
  case (Cons g gs)
  then obtain m where n: "n = Suc m" by (cases n) auto
  show ?case
  proof (cases "gs = []")
    case True
    with Cons.prems n show ?thesis by (simp add: parse_group_end)
  next
    case False
    with Cons n show ?thesis
      by (simp add: join_colon_Cons parse_group_next join_colon_nonempty)
  qed
qed simp

lemma parse_groups_ellipsis:
  "gs \<noteq> [] \<Longrightarrow> groups_ok gs \<Longrightarrow> groups_ok hs \<Longrightarrow> length gs + length hs \<le> n \<Longrightarrow>
   parse_v6_groups n ip None (join_colon gs @ ''::'' @ join_colon hs)
     = Some (ip @ groups_bytes (gs @ hs), Some (length ip + 2 * length gs), [])"
proof (induction gs arbitrary: n ip)
  case (Cons g gs)
  then obtain m where n: "n = Suc m" by (cases n) auto
  show ?case
  proof (cases "gs = []")
    case True
    with Cons.prems n show ?thesis
      using parse_groups [of hs m "ip @ group_bytes g" "Some (length ip + 2)"]
      by (cases "hs = []") (auto simp: parse_group_ellipsis join_colon_nonempty)
  next
    case False
    have "parse_v6_groups m (ip @ group_bytes g) None (join_colon gs @ ''::'' @ join_colon hs)
       = Some ((ip @ group_bytes g) @ groups_bytes (gs @ hs), Some (length (ip @ group_bytes g) + 2 * length gs), [])"
      using Cons False n by simp
    with Cons.prems False n show ?thesis
      by (simp add: join_colon_Cons parse_group_next join_colon_nonempty hd_append)
  qed
qed simp


subsection \<open>The compressed run of zeros\<close>

lemma zero_run_zeros: "take (zero_run gs i) (drop i gs) = replicate (zero_run gs i) 0"
proof -
  have "takeWhile (\<lambda>g. g = 0) (drop i gs) = replicate (length (takeWhile (\<lambda>g. g = 0) (drop i gs))) (0 :: nat)"
    by (rule replicate_eqI) (auto dest: set_takeWhileD)
  then show ?thesis by (simp add: zero_run_def takeWhile_eq_take [symmetric])
qed

lemma zero_run_le: "i < length gs \<Longrightarrow> i + zero_run gs i \<le> length gs"
  using length_takeWhile_le [of "\<lambda>g. g = 0" "drop i gs"] by (simp add: zero_run_def)

definition is_run :: "nat list \<Rightarrow> nat \<times> nat \<Rightarrow> bool" where
  "is_run gs r = (case r of (a, l) \<Rightarrow> l = 0 \<or> 2 \<le> l \<and> a + l \<le> length gs \<and> take l (drop a gs) = replicate l 0)"

lemma best_run_is_run: "is_run gs (best_run gs)"
proof -
  have "is_run gs (foldl (\<lambda>(a, l) i. if zero_run gs i \<ge> 2 \<and> zero_run gs i > l then (i, zero_run gs i) else (a, l)) r is)"
    if "is_run gs r" "\<forall>i \<in> set is. i < length gs" for r "is"
    using that
  proof (induction "is" arbitrary: r)
    case (Cons i "is")
    then show ?case by (cases r) (simp add: is_run_def zero_run_zeros zero_run_le)
  qed simp
  then show ?thesis by (simp add: best_run_def is_run_def)
qed

lemma has_prefix_colons: "gs \<noteq> [] \<Longrightarrow> \<not> has_prefix (join_colon gs @ r) ''::''"
  using join_colon_hd_colon [of gs] join_colon_nonempty [of gs]
  by (cases "join_colon gs") (auto simp: has_prefix_def)

lemma insert_zero_groups:
  assumes "take l (drop a gs) = replicate l 0" and "a + l \<le> length gs"
  shows "take (2 * a) (groups_bytes (take a gs @ drop (a + l) gs)) @ replicate (2 * l) 0
           @ drop (2 * a) (groups_bytes (take a gs @ drop (a + l) gs)) = groups_bytes gs"
proof -
  have "gs = take a gs @ replicate l 0 @ drop (a + l) gs"
    using assms(1) append_take_drop_id [of l "drop a gs"] append_take_drop_id [of a gs] by (simp add: add.commute)
  then have "groups_bytes gs = groups_bytes (take a gs) @ groups_bytes (replicate l 0) @ groups_bytes (drop (a + l) gs)"
    by (metis concat_append map_append)
  moreover have "groups_bytes (replicate l 0) = replicate (2 * l) 0"
    by (induction l) (simp_all add: group_bytes_def)
  ultimately show ?thesis using assms(2) by simp
qed

lemma parse_v6_body_groups:
  assumes gs: "groups_ok gs" "length gs = 8" and r: "best_run gs = (a, l)"
  shows "parse_v6_body (if l = 0 then join_colon gs else join_colon (take a gs) @ ''::'' @ join_colon (drop (a + l) gs))
       = Some (groups_bytes gs)"
proof (cases "l = 0")
  case True
  have "gs \<noteq> []" using gs by auto
  moreover have "\<not> has_prefix (join_colon gs) ''::''" using has_prefix_colons [OF \<open>gs \<noteq> []\<close>, of "[]"] by simp
  ultimately show ?thesis
    using True gs by (simp add: parse_v6_body_def parse_groups Let_def)
next
  case False
  then have run: "2 \<le> l" "a + l \<le> length gs" "take l (drop a gs) = replicate l 0"
    using best_run_is_run [of gs] r by (simp_all add: is_run_def)
  let ?hs = "drop (a + l) gs"
  have ok: "groups_ok (take a gs)" "groups_ok ?hs" "length (take a gs) = a" "length ?hs = 8 - (a + l)"
    using gs run by (auto simp: list_all_iff dest: in_set_takeD in_set_dropD)
  note ins = insert_zero_groups [OF run(3) run(2)]
  show ?thesis
  proof (cases "a = 0")
    case True
    show ?thesis
    proof (cases "?hs = []")
      case True
      with ins run gs \<open>a = 0\<close> have "replicate 16 0 = groups_bytes gs" by simp
      with True False \<open>a = 0\<close> show ?thesis by (simp add: parse_v6_body_def has_prefix_def)
    next
      case hs: False
      then have "parse_v6_groups 8 [] (Some 0) (join_colon ?hs) = Some (groups_bytes ?hs, Some 0, [])"
        using ok parse_groups [OF hs ok(2), of 8 "[]" "Some 0"] by simp
      with hs False \<open>a = 0\<close> ins ok run gs show ?thesis
        by (simp add: parse_v6_body_def has_prefix_def join_colon_nonempty Let_def algebra_simps)
    qed
  next
    case a: False
    then have ne: "take a gs \<noteq> []" using gs by auto
    have "parse_v6_groups 8 [] None (join_colon (take a gs) @ ''::'' @ join_colon ?hs)
        = Some (groups_bytes (take a gs @ ?hs), Some (2 * a), [])"
      using parse_groups_ellipsis [OF ne ok(1,2), of 8 "[]"] ok(3,4) run gs by simp
    with False has_prefix_colons [OF ne] ins ok run gs show ?thesis
      by (simp add: parse_v6_body_def Let_def algebra_simps)
  qed
qed


subsection \<open>Round trips\<close>

lemma v6_groups_ok: "groups_ok (v6_groups b)" "length (v6_groups b) = 8"
proof -
  show "groups_ok (v6_groups b)"
    using unsigned_less [where 'a = nat and 'b = 16] by (simp add: v6_groups_def list_all_iff)
qed (simp add: v6_groups_def)

lemma group_bytes_get16: "group_bytes (unat (get16 x y)) = [x, y]"
  using unsigned_less [of y, where 'a = nat] by (simp add: group_bytes_def unat_get16)

lemma groups_bytes_v6:
  assumes "length b = 16"
  shows "groups_bytes (v6_groups b) = b"
proof -
  have "b = map ((!) b) [0..<16]" using map_nth [of b] assms by simp
  also have "\<dots> = concat (map (\<lambda>i. [b ! (2 * i), b ! (2 * i + 1)]) [0..<8])"
    by (simp add: upt_rec numeral_eq_Suc)
  finally show ?thesis by (simp add: v6_groups_def group_bytes_get16 comp_def)
qed

lemma parse_v6_body_v6_string: "length b = 16 \<Longrightarrow> parse_v6_body (v6_string b) = Some b"
  using parse_v6_body_groups [OF v6_groups_ok, of b "fst (best_run (v6_groups b))" "snd (best_run (v6_groups b))"]
  by (simp add: groups_bytes_v6 v6_string_def Let_def split_beta)

lemma join_colon_chars: "c \<in> set (join_colon gs) \<Longrightarrow> is_hex c \<or> c = CHR '':''"
  using show_hex_is_hex by (induction gs rule: join_colon.induct) (auto simp: list_all_iff)

lemma v6_string_chars: "c \<in> set (v6_string b) \<Longrightarrow> is_hex c \<or> c = CHR '':''"
  using join_colon_chars by (fastforce simp: v6_string_def Let_def split_beta split: if_splits)

lemma v6_string_sep: "CHR ''['' \<notin> set (v6_string b)" "CHR '']'' \<notin> set (v6_string b)" "CHR ''%'' \<notin> set (v6_string b)"
    "CHR ''.'' \<notin> set (v6_string b)"
  using v6_string_chars [of _ b] by (fastforce simp: is_hex_def)+

lemma v6_string_colon: "CHR '':'' \<in> set (v6_string b)"
proof -
  have "CHR '':'' \<in> set (join_colon (v6_groups b))"
    using v6_groups_ok(2) [of b] by (cases "v6_groups b" rule: join_colon.cases) auto
  then show ?thesis by (simp add: v6_string_def Let_def split_beta)
qed

lemma parse_addr_scan_v6:
  "CHR '':'' \<in> set t \<Longrightarrow> CHR ''.'' \<notin> set t \<Longrightarrow> CHR ''%'' \<notin> set t \<Longrightarrow> parse_addr_scan s t = parse_v6 s"
  by (induction t) auto

lemma parse_ip_v6_string: "length b = 16 \<Longrightarrow> parse_ip (v6_string b) = Some b"
  by (simp add: parse_ip_def parse_addr_def parse_addr_scan_v6 v6_string_sep v6_string_colon parse_v6_def
      index_of_None [THEN iffD2] parse_v6_body_v6_string)

text \<open>\<open>net.ParseIP(ip.String())\<close> gives the 16-byte form of every address, and that form prints the same.\<close>

lemma parse_ip_string:
  "length b = 4 \<Longrightarrow> parse_ip (ip_string b) = Some (v4_in_v6 @ b)"
  "length b = 16 \<Longrightarrow> parse_ip (ip_string b) = Some b"
proof -
  show "length b = 4 \<Longrightarrow> parse_ip (ip_string b) = Some (v4_in_v6 @ b)"
    by (simp add: ip_string_v4 parse_ip_v4_string)
  show "length b = 16 \<Longrightarrow> parse_ip (ip_string b) = Some b"
  proof (cases "take 12 b = v4_in_v6")
    case True
    assume "length b = 16"
    with True show ?thesis
      using append_take_drop_id [of 12 b] parse_ip_v4_string [of "drop 12 b"] by (simp add: ip_string_def to4_def)
  qed (simp add: ip_string_def to4_def parse_ip_v6_string)
qed

lemma host_ok_ip_string [simp]: "host_ok (ip_string b)"
  by (auto simp: ip_string_def host_ok_def v6_string_sep split: option.splits)
     (use host_ok_v4_string in \<open>auto simp: host_ok_def\<close>)

end
