(* ===== verification/XNet.thy ===== *)
theory XNet
  imports IPText
begin

section \<open>Addresses, ports and destinations of the vless transports\<close>

text \<open>
  \<open>xray_core/common/net\<close>: \<open>address.go\<close>, \<open>port.go\<close>, \<open>destination.go\<close> and \<open>network.go\<close>. An \<open>Address\<close> is one of three
  implementations of an interface; calling an accessor of the wrong family panics, which is an error
  value here. The typing discipline is the family: a well-formed address answers the accessors of its
  family and no others. Strings are trimmed the way \<open>strings.TrimSpace\<close> does it, on UTF-8.
\<close>

subsection \<open>strings.TrimSpace\<close>

text \<open>The UTF-8 encodings of the white space runes of \<open>unicode.IsSpace\<close>.\<close>

definition space_seqs :: "string list" where
  "space_seqs =
     map (map char_of) ([[9 :: nat], [10], [11], [12], [13], [32], [0xC2, 0x85], [0xC2, 0xA0], [0xE1, 0x9A, 0x80],
       [0xE2, 0x80, 0xA8], [0xE2, 0x80, 0xA9], [0xE2, 0x80, 0xAF], [0xE2, 0x81, 0x9F], [0xE3, 0x80, 0x80]]
       @ map (\<lambda>k. [0xE2, 0x80, 0x80 + k]) [0..<11])"

fun trim_with :: "string list \<Rightarrow> nat \<Rightarrow> string \<Rightarrow> string" where
  "trim_with seqs 0 s = s"
| "trim_with seqs (Suc n) s =
     (case filter (has_prefix s) seqs of [] \<Rightarrow> s | q # _ \<Rightarrow> trim_with seqs n (drop (length q) s))"

definition trim_left :: "string \<Rightarrow> string" where
  "trim_left s = trim_with space_seqs (length s) s"

definition trim_right :: "string \<Rightarrow> string" where
  "trim_right s = rev (trim_with (map rev space_seqs) (length s) (rev s))"

definition trim_space :: "string \<Rightarrow> string" where
  "trim_space s = trim_right (trim_left s)"

subsection \<open>address.go\<close>

datatype family = AddressFamilyIPv4 | AddressFamilyIPv6 | AddressFamilyDomain

definition IsIP :: "family \<Rightarrow> bool" where
  "IsIP af = (af = AddressFamilyIPv4 \<or> af = AddressFamilyIPv6)"

definition IsDomain :: "family \<Rightarrow> bool" where
  "IsDomain af = (af = AddressFamilyDomain)"

datatype address = Ipv4Address bytes | Ipv6Address bytes | DomainAddress string

fun addr_family :: "address \<Rightarrow> family" where
  "addr_family (Ipv4Address _) = AddressFamilyIPv4"
| "addr_family (Ipv6Address _) = AddressFamilyIPv6"
| "addr_family (DomainAddress _) = AddressFamilyDomain"

fun addr_ip :: "address \<Rightarrow> bytes res" where
  "addr_ip (Ipv4Address a) = Inr a"
| "addr_ip (Ipv6Address a) = Inr a"
| "addr_ip (DomainAddress _) = Inl (Panic ''Calling IP() on a DomainAddress.'')"

fun addr_domain :: "address \<Rightarrow> string res" where
  "addr_domain (Ipv4Address _) = Inl (Panic ''Calling Domain() on an IPv4Address.'')"
| "addr_domain (Ipv6Address _) = Inl (Panic ''Calling Domain() on an IPv6Address.'')"
| "addr_domain (DomainAddress a) = Inr a"

fun addr_String :: "address \<Rightarrow> string" where
  "addr_String (Ipv4Address a) = ip_string a"
| "addr_String (Ipv6Address a) = ''['' @ ip_string a @ '']''"
| "addr_String (DomainAddress a) = a"

definition isAlphaNum :: "char \<Rightarrow> bool" where
  "isAlphaNum c = (let n = (of_char c :: nat) in 48 \<le> n \<and> n \<le> 57 \<or> 97 \<le> n \<and> n \<le> 122 \<or> 65 \<le> n \<and> n \<le> 90)"

text \<open>\<open>None\<close> is the nil interface returned for a slice that is neither 4 nor 16 bytes long.\<close>

definition IPAddress :: "bytes \<Rightarrow> address option" where
  "IPAddress ip =
     (if length ip = 4 then Some (Ipv4Address ip)
      else if length ip = 16 then
        (if take 10 ip = replicate 10 0 \<and> ip ! 10 = 0xff \<and> ip ! 11 = 0xff then Some (Ipv4Address (drop 12 ip))
         else Some (Ipv6Address ip))
      else None)"

definition strip_brackets :: "string \<Rightarrow> string" where
  "strip_brackets addr =
     (if length addr > 0 \<and> addr ! 0 = CHR ''['' \<and> addr ! (length addr - 1) = CHR '']'' then take (length addr - 2) (drop 1 addr) else addr)"

definition trim_addr :: "string \<Rightarrow> string" where
  "trim_addr addr =
     (if length addr > 0 \<and> (\<not> isAlphaNum (addr ! 0) \<or> \<not> isAlphaNum (addr ! (length addr - 1))) then trim_space addr else addr)"

definition ParseAddress :: "string \<Rightarrow> address option" where
  "ParseAddress addr =
     (let addr' = trim_addr (strip_brackets addr) in
      case parse_ip addr' of Some ip \<Rightarrow> IPAddress ip | None \<Rightarrow> Some (DomainAddress addr'))"

text \<open>A protobuf \<open>IPOrDomain\<close>, a nil pointer or one whose oneof is unset.\<close>

datatype ip_or_domain = NilPtr | NoAddress | IPOrDomain_Ip bytes | IPOrDomain_Domain string

fun AsAddress :: "ip_or_domain \<Rightarrow> address option res" where
  "AsAddress NilPtr = Inr None"
| "AsAddress (IPOrDomain_Ip ip) = Inr (IPAddress ip)"
| "AsAddress (IPOrDomain_Domain d) = Inr (Some (DomainAddress d))"
| "AsAddress NoAddress = Inl (Panic ''Common|Net: Invalid address.'')"

subsection \<open>port.go, network.go and destination.go\<close>

definition PortFromInt :: "32 word \<Rightarrow> 16 word res" where
  "PortFromInt val = (if val > 65535 then Inl (Msg (''invalid port range: '' @ itoa (uint val))) else Inr (ucast val))"

text \<open>\<open>strconv.ParseUint(s, 10, 32)\<close>: decimal digits only, at least one, below $2^{32}$.\<close>

definition parse_uint32 :: "string \<Rightarrow> 32 word option" where
  "parse_uint32 s =
     (if s = [] then None
      else case read_digits 0 s of None \<Rightarrow> None | Some n \<Rightarrow> if n < 2 ^ 32 then Some (word_of_nat n) else None)"

definition PortFromString :: "string \<Rightarrow> 16 word res" where
  "PortFromString s = (case parse_uint32 s of None \<Rightarrow> Inl (Msg (''invalid port range: '' @ s)) | Some val \<Rightarrow> PortFromInt val)"

definition port_string :: "16 word \<Rightarrow> string" where
  "port_string p = itoa (uint p)"

datatype network = Network_Unknown | Network_TCP | Network_UDP | Network_UNIX

fun SystemString :: "network \<Rightarrow> string" where
  "SystemString Network_TCP = ''tcp''"
| "SystemString Network_UDP = ''udp''"
| "SystemString Network_UNIX = ''unix''"
| "SystemString Network_Unknown = ''unknown''"

record destination =
  ds_address :: "address option"
  ds_port :: "16 word"
  ds_network :: network

definition TCPDestination :: "address option \<Rightarrow> 16 word \<Rightarrow> destination" where
  "TCPDestination a p = \<lparr>ds_address = a, ds_port = p, ds_network = Network_TCP\<rparr>"

text \<open>Calling a method of the nil interface panics.\<close>

definition dest_addr_string :: "destination \<Rightarrow> string res" where
  "dest_addr_string d = (case ds_address d of None \<Rightarrow> Inl (Panic ''nil pointer dereference'') | Some a \<Rightarrow> Inr (addr_String a))"

definition NetAddr :: "destination \<Rightarrow> string res" where
  "NetAddr d =
     (if ds_network d = Network_TCP \<or> ds_network d = Network_UDP then
        and_then (dest_addr_string d) (\<lambda>a. Inr (a @ '':'' @ port_string (ds_port d)))
      else if ds_network d = Network_UNIX then dest_addr_string d
      else Inr [])"

definition dest_String :: "destination \<Rightarrow> string res" where
  "dest_String d =
     and_then (NetAddr d) (\<lambda>a. Inr (
       (case ds_network d of Network_TCP \<Rightarrow> ''tcp:'' | Network_UDP \<Rightarrow> ''udp:'' | Network_UNIX \<Rightarrow> ''unix:'' | _ \<Rightarrow> ''unknown:'') @ a))"

subsection \<open>Typing\<close>

text \<open>
  An IPv4 address has four bytes, an IPv6 address sixteen and is not a mapped IPv4 address, a domain
  is not the text of an IP address.
\<close>

fun addr_wf :: "address \<Rightarrow> bool" where
  "addr_wf (Ipv4Address b) = (length b = 4)"
| "addr_wf (Ipv6Address b) = (length b = 16 \<and> take 12 b \<noteq> v4_in_v6)"
| "addr_wf (DomainAddress d) = (parse_ip d = None)"

lemma mapped_prefix:
  "length ip = 16 \<Longrightarrow> (take 10 ip = replicate 10 0 \<and> ip ! 10 = 0xff \<and> ip ! 11 = 0xff) \<longleftrightarrow> take 12 ip = v4_in_v6"
  by (auto simp: v4_in_v6_def take_Suc_conv_app_nth numeral_eq_Suc)

lemma IPAddress_wf: "IPAddress ip = Some a \<Longrightarrow> addr_wf a"
  by (auto simp: IPAddress_def mapped_prefix split: if_splits)

lemma IPAddress_total: "length ip = 16 \<Longrightarrow> \<exists>a. IPAddress ip = Some a"
  by (auto simp: IPAddress_def)

lemma ParseAddress_wf: "\<exists>a. ParseAddress s = Some a \<and> addr_wf a"
proof (cases "parse_ip (trim_addr (strip_brackets s))")
  case None
  then show ?thesis by (simp add: ParseAddress_def)
next
  case (Some ip)
  then obtain a where "IPAddress ip = Some a" using IPAddress_total parse_ip_length by blast
  then show ?thesis using Some IPAddress_wf by (simp add: ParseAddress_def)
qed


subsection \<open>Trimming\<close>

text \<open>The fuel of \<open>trim_with\<close>, the length of the string, is enough: no white space is left at the trimmed end.\<close>

lemma trim_with_complete:
  assumes "list_all (\<lambda>q. q \<noteq> []) seqs" and "length s \<le> n"
  shows "filter (has_prefix (trim_with seqs n s)) seqs = []"
  using assms(2)
proof (induction n arbitrary: s)
  case 0
  then show ?case using assms(1) by (auto simp: has_prefix_def list_all_iff filter_empty_conv)
next
  case (Suc n)
  show ?case
  proof (cases "filter (has_prefix s) seqs")
    case (Cons q qs)
    then have "q \<in> set (filter (has_prefix s) seqs)" by simp
    then have "q \<noteq> []" using assms(1) by (auto simp: list_all_iff)
    then have "length (drop (length q) s) \<le> n" using Suc.prems by (cases q) auto
    then show ?thesis using Suc.IH Cons by simp
  qed simp
qed

lemma trim_left_complete: "filter (has_prefix (trim_left s)) space_seqs = []"
  unfolding trim_left_def by (rule trim_with_complete) (simp_all add: space_seqs_def list_all_iff)

definition visible :: "char \<Rightarrow> bool" where
  "visible c = (let n = (of_char c :: nat) in 33 \<le> n \<and> n < 127)"

lemma space_seqs_not_visible:
  "list_all (\<lambda>q. q \<noteq> [] \<and> \<not> visible (hd q)) space_seqs"
  "list_all (\<lambda>q. q \<noteq> [] \<and> \<not> visible (hd q)) (map rev space_seqs)"
  by code_simp+

lemma trim_with_visible:
  assumes "list_all (\<lambda>q. q \<noteq> [] \<and> \<not> visible (hd q)) seqs" and "list_all visible s"
  shows "trim_with seqs n s = s"
proof (cases n)
  case (Suc m)
  have "\<not> has_prefix s q" if "q \<in> set seqs" for q
    using assms that by (cases s; cases q) (auto simp: has_prefix_def list_all_iff)
  then have "filter (has_prefix s) seqs = []" by (simp add: filter_empty_conv)
  with Suc show ?thesis by simp
qed simp

lemma trim_space_visible: "list_all visible s \<Longrightarrow> trim_space s = s"
  by (simp add: trim_space_def trim_left_def trim_right_def trim_with_visible space_seqs_not_visible)

lemma trim_addr_visible: "list_all visible s \<Longrightarrow> trim_addr s = s"
  by (simp add: trim_addr_def trim_space_visible)

subsection \<open>Printing and parsing\<close>

lemma strip_brackets_plain: "host_ok s \<Longrightarrow> strip_brackets s = s"
  by (cases s) (auto simp: strip_brackets_def host_ok_def)

lemma strip_brackets_enclosed: "strip_brackets (CHR ''['' # s @ '']'') = s"
  by (simp add: strip_brackets_def nth_append)

lemma ip_string_visible: "length b = 4 \<or> length b = 16 \<Longrightarrow> list_all visible (ip_string b)"
proof -
  have digits: "list_all visible (show_nat n)" for n
    using show_nat_digits [of n] by (auto simp: list_all_iff is_digit_def visible_def Let_def)
  have "list_all visible (v6_string c)" for c
    using v6_string_chars [of _ c] by (fastforce simp: list_all_iff is_hex_def visible_def Let_def)
  moreover have "visible CHR ''.''" by code_simp
  ultimately show "length b = 4 \<or> length b = 16 \<Longrightarrow> list_all visible (ip_string b)"
    using digits by (auto simp: ip_string_def v4_string_def to4_def split: option.splits)
qed

lemma IPAddress_v6: "length b = 16 \<Longrightarrow> take 12 b \<noteq> v4_in_v6 \<Longrightarrow> IPAddress b = Some (Ipv6Address b)"
  by (simp add: IPAddress_def mapped_prefix)

lemma IPAddress_mapped: "length b = 4 \<Longrightarrow> IPAddress (v4_in_v6 @ b) = Some (Ipv4Address b)"
  by (simp add: IPAddress_def v4_in_v6_def nth_append numeral_eq_Suc)

text \<open>The domains a profile or a request can name: printable, without colons and brackets.\<close>

definition plain_domain :: "string \<Rightarrow> bool" where
  "plain_domain d \<longleftrightarrow> list_all visible d \<and> host_ok d \<and> CHR '':'' \<notin> set d"

fun addr_host :: "address \<Rightarrow> string" where
  "addr_host (Ipv4Address b) = ip_string b"
| "addr_host (Ipv6Address b) = ip_string b"
| "addr_host (DomainAddress d) = d"

definition nameable :: "address \<Rightarrow> bool" where
  "nameable a \<longleftrightarrow> addr_wf a \<and> (\<forall>d. a = DomainAddress d \<longrightarrow> plain_domain d)"

lemma addr_host_ok: "nameable a \<Longrightarrow> host_ok (addr_host a) \<and> list_all visible (addr_host a)"
  by (cases a) (auto simp: nameable_def plain_domain_def ip_string_visible)

lemma ParseAddress_host:
  assumes "nameable a"
  shows "ParseAddress (addr_host a) = Some a"
proof -
  have "ParseAddress (addr_host a) = (case parse_ip (addr_host a) of Some ip \<Rightarrow> IPAddress ip | None \<Rightarrow> Some (DomainAddress (addr_host a)))"
    using addr_host_ok [OF assms] by (simp add: ParseAddress_def Let_def strip_brackets_plain trim_addr_visible)
  then show ?thesis
    using assms by (cases a) (auto simp: nameable_def parse_ip_string IPAddress_mapped IPAddress_v6)
qed

lemma ParseAddress_string:
  assumes "nameable a"
  shows "ParseAddress (addr_String a) = Some a"
proof (cases a)
  case (Ipv6Address b)
  then have "ParseAddress (addr_String a) = ParseAddress (addr_host a)"
    using addr_host_ok [OF assms] by (simp add: ParseAddress_def strip_brackets_plain strip_brackets_enclosed)
  then show ?thesis using ParseAddress_host [OF assms] by simp
qed (use ParseAddress_host [OF assms] in simp_all)

lemma ip_string_v4_colon: "length b = 4 \<Longrightarrow> CHR '':'' \<notin> set (ip_string b)"
  by (simp add: ip_string_v4 v4_string_def show_nat_no_sep)

lemma ip_string_v6_colon: "length b = 16 \<Longrightarrow> take 12 b \<noteq> v4_in_v6 \<Longrightarrow> CHR '':'' \<in> set (ip_string b)"
  by (simp add: ip_string_def to4_def v6_string_colon)

lemma NetAddr_joins:
  "nameable a \<Longrightarrow> NetAddr (TCPDestination (Some a) p) = Inr (join_host_port (addr_host a) (port_string p))"
  by (cases a) (auto simp: nameable_def plain_domain_def NetAddr_def TCPDestination_def dest_addr_string_def join_host_port_def
      ip_string_v4_colon ip_string_v6_colon)

lemma port_string_nat: "port_string p = show_nat (unat p)"
  using itoa_nat [of "unat p"] by (simp add: port_string_def)

lemma PortFromInt_ucast: "PortFromInt (ucast p) = Inr p"
proof -
  have lt: "unat p < 65536" using unsigned_less [of p, where 'a = nat] by simp
  then have "unat (ucast p :: 32 word) = unat p" by (simp add: unsigned_ucast_eq take_bit_nat_eq_self)
  moreover have "(ucast (ucast p :: 32 word) :: 16 word) = p"
    by (rule ucast_up_ucast_id) (simp add: is_up)
  ultimately show ?thesis using lt by (simp add: PortFromInt_def word_less_nat_alt)
qed

lemma PortFromString_port: "PortFromString (port_string p) = Inr p"
proof -
  have "unat p < 65536" using unsigned_less [of p, where 'a = nat] by simp
  then show ?thesis
    by (simp add: port_string_nat PortFromString_def parse_uint32_def PortFromInt_ucast)
qed

text \<open>
  C24. An address that \<open>ParseAddress\<close> returns is never the nil interface and is well typed: it has the four
  or sixteen bytes of its family, a mapped IPv4 address is unmapped, a domain is not an IP address in
  text form, and its \<open>Family()\<close> says exactly which of \<open>IP()\<close> and \<open>Domain()\<close> may be called without a panic.
\<close>

theorem ParseAddress_typed:
  "\<exists>a. ParseAddress s = Some a \<and> addr_wf a
     \<and> (IsIP (addr_family a) \<longleftrightarrow> (\<exists>b. addr_ip a = Inr b)) \<and> (IsDomain (addr_family a) \<longleftrightarrow> (\<exists>d. addr_domain a = Inr d))
     \<and> (\<exists>n. NetAddr (TCPDestination (Some a) p) = Inr n)"
proof -
  obtain a where "ParseAddress s = Some a" "addr_wf a" using ParseAddress_wf by blast
  then show ?thesis
    by (cases a) (auto simp: IsIP_def IsDomain_def NetAddr_def TCPDestination_def dest_addr_string_def)
qed

text \<open>
  C25. A destination survives being printed and parsed again, for IPv4, IPv6 and domain names without
  colons: splitting \<open>NetAddr\<close> gives the host and the port, \<open>ParseAddress\<close> and \<open>PortFromString\<close> give back the
  address and the port, and \<open>ParseAddress\<close> also reads the bracketed form.
\<close>

theorem destination_roundtrip:
  assumes "nameable a"
  shows "\<exists>n h q. NetAddr (TCPDestination (Some a) p) = Inr n \<and> split_host_port n = Inr (h, q)
       \<and> ParseAddress h = Some a \<and> PortFromString q = Inr p \<and> ParseAddress (addr_String a) = Some a"
proof -
  have "split_host_port (join_host_port (addr_host a) (port_string p)) = Inr (addr_host a, port_string p)"
    using addr_host_ok [OF assms] by (simp add: split_join_host_port port_string_nat show_nat_no_sep)
  then show ?thesis
    using NetAddr_joins [OF assms] ParseAddress_host [OF assms] ParseAddress_string [OF assms] PortFromString_port by blast
qed

theorem destination_roundtrip_witness:
  "\<exists>n h q. NetAddr (TCPDestination (Some (Ipv6Address (replicate 15 0 @ [1]))) 443) = Inr n \<and> split_host_port n = Inr (h, q)
       \<and> ParseAddress h = Some (Ipv6Address (replicate 15 0 @ [1])) \<and> PortFromString q = Inr 443
       \<and> ParseAddress (addr_String (Ipv6Address (replicate 15 0 @ [1]))) = Some (Ipv6Address (replicate 15 0 @ [1]))"
  by (rule destination_roundtrip) (simp add: nameable_def del: addr_wf.simps, code_simp)

end
