(* ===== verification/Readv.thy ===== *)
theory Readv
  imports Transport XNet
begin

section \<open>Vectored reading and the choice of readers and writers\<close>

text \<open>
  \<open>buf/readv_reader.go\<close>, \<open>buf/readv_posix.go\<close>, \<open>buf/reader.go\<close> and the choices of \<open>buf/io.go\<close>. A reader that fills several buffers with one \<open>readv\<close>
  adapts their number to the traffic. The connection underneath is any byte stream in the sense of the
  locale \<open>stream_reader\<close>; one \<open>readv\<close> into \<open>k\<close> buffers of 8192 bytes is one read of up to \<open>k * 8192\<close> bytes, which the kernel
  stores into the buffers one after the other.
\<close>

subsection \<open>readv_reader.go\<close>

type_synonym alloc_strategy = "32 word"

definition Adjust :: "32 word \<Rightarrow> alloc_strategy \<Rightarrow> alloc_strategy" where
  "Adjust n cur =
     (let c = (if n \<ge> cur then cur * 2 else n); c = (if c > 8 then 8 else c) in if c = 0 then 1 else c)"

definition Alloc :: "(nat \<Rightarrow> bytes) \<Rightarrow> alloc_strategy \<Rightarrow> buffer list" where
  "Alloc pool cur = map (\<lambda>i. buf_New (pool i)) [0..<unat cur]"

text \<open>What \<open>readv\<close> leaves in the arrays of the buffers.\<close>

fun fill_vecs :: "buffer list \<Rightarrow> bytes \<Rightarrow> buffer list" where
  "fill_vecs [] data = []"
| "fill_vecs (b # bs) data = b\<lparr>bf_v := copy_at 0 (take buf_Size data) (bf_v b)\<rparr> # fill_vecs bs (drop buf_Size data)"

text \<open>The loop that sets the ends; the buffers that it does not reach are released.\<close>

fun set_ends :: "int \<Rightarrow> buffer list \<Rightarrow> multi_buffer" where
  "set_ends nBytes [] = []"
| "set_ends nBytes (b # bs) =
     (if nBytes \<le> 0 then []
      else (let e = (if nBytes > int buf_Size then int buf_Size else nBytes) in Some (b\<lparr>bf_end := e\<rparr>) # set_ends (nBytes - e) bs))"

definition readMulti :: "(nat \<Rightarrow> 's \<Rightarrow> bytes res \<times> 's) \<Rightarrow> (nat \<Rightarrow> bytes) \<Rightarrow> alloc_strategy \<Rightarrow> 's \<Rightarrow> multi_buffer \<times> goerr option \<times> 's" where
  "readMulti rd pool cur s =
     (let bs = Alloc pool cur in
      case rd (length bs * buf_Size) s of
        (Inl e, s') \<Rightarrow> ([], Some e, s')
      | (Inr data, s') \<Rightarrow>
          if length data = 0 then ([], Some EOF, s')
          else (set_ends (int (length data)) (fill_vecs bs data), None, s'))"

text \<open>A \<open>net.Conn\<close> as the reader of a buffer.\<close>

definition conn_reader :: "(nat \<Rightarrow> 's \<Rightarrow> bytes res \<times> 's) \<Rightarrow> 's reader" where
  "conn_reader rd n s = (case rd n s of (Inl e, s') \<Rightarrow> Inr ([], Some e, s') | (Inr b, s') \<Rightarrow> Inr (b, None, s'))"

definition ReadBuffer :: "'s reader \<Rightarrow> bytes \<Rightarrow> 's \<Rightarrow> (buffer option \<times> goerr option \<times> 's) res" where
  "ReadBuffer r pooled s =
     and_then (buf_ReadFrom r s (buf_New pooled)) (\<lambda>(n, err, s', b). Inr (if n > 0 then Some b else None, err, s'))"

definition SingleReader_ReadMultiBuffer :: "'s reader \<Rightarrow> bytes \<Rightarrow> 's \<Rightarrow> (multi_buffer \<times> goerr option \<times> 's) res" where
  "SingleReader_ReadMultiBuffer r pooled s = and_then (ReadBuffer r pooled s) (\<lambda>(b, err, s'). Inr ([b], err, s'))"

definition readv_ReadMultiBuffer ::
  "(nat \<Rightarrow> 's \<Rightarrow> bytes res \<times> 's) \<Rightarrow> (nat \<Rightarrow> bytes) \<Rightarrow> alloc_strategy \<times> 's \<Rightarrow> (multi_buffer \<times> goerr option \<times> alloc_strategy \<times> 's) res" where
  "readv_ReadMultiBuffer rd pool r =
     (let (cur, s) = r in
      if cur = 1 then
        and_then (ReadBuffer (conn_reader rd) (pool 0) s) (\<lambda>(b, err, s').
          Inr ([b], err, if buf_IsFull b then Adjust 1 cur else cur, s'))
      else
        (case readMulti rd pool cur s of
           (mb, Some e, s') \<Rightarrow> Inr ([], Some e, cur, s')
         | (mb, None, s') \<Rightarrow> Inr (mb, None, Adjust (word_of_nat (length mb)) cur, s')))"

subsection \<open>io.go\<close>

text \<open>What \<open>NewReader\<close> and \<open>NewWriter\<close> ask of the dynamic type of their argument.\<close>

record io_caps =
  ic_multi :: bool
  ic_file :: bool
  ic_packet :: bool
  ic_syscall :: bool
  ic_raw_err :: bool

datatype reader_kind = AsReader | ReadVReader | SingleReader
datatype writer_kind = AsWriter | SequentialWriter | BufferToBytesWriter

definition NewReader :: "bool \<Rightarrow> io_caps \<Rightarrow> reader_kind" where
  "NewReader useReadv c =
     (if ic_multi c then AsReader
      else if \<not> ic_file c \<and> useReadv \<and> ic_syscall c \<and> \<not> ic_raw_err c then ReadVReader
      else SingleReader)"

definition isPacketWriter :: "io_caps \<Rightarrow> bool" where
  "isPacketWriter c = (if ic_packet c then True else if \<not> ic_syscall c then True else False)"

definition NewWriter :: "io_caps \<Rightarrow> writer_kind" where
  "NewWriter c = (if ic_multi c then AsWriter else if isPacketWriter c then SequentialWriter else BufferToBytesWriter)"

text \<open>\<open>platform.EnvFlag\<close>: a variable by its name, or by the name in capitals with underscores for the dots.\<close>

definition NormalizeEnvName :: "string \<Rightarrow> string" where
  "NormalizeEnvName name = map (\<lambda>c. if c = CHR ''.'' then CHR ''_'' else c) (to_upper (trim_space name))"

definition env_GetValue :: "(string \<Rightarrow> string option) \<Rightarrow> string \<Rightarrow> string \<Rightarrow> string" where
  "env_GetValue env name defaultValue =
     (case env name of
        Some v \<Rightarrow> v
      | None \<Rightarrow>
          (case (if length (NormalizeEnvName name) > 0 then env (NormalizeEnvName name) else None) of
             Some v \<Rightarrow> v | None \<Rightarrow> defaultValue))"

definition useReadv :: "(string \<Rightarrow> string option) \<Rightarrow> bool" where
  "useReadv env = (let v = env_GetValue env ''xray.buf.readv'' ''NOT_DEFINED_AT_ALL'' in
     v = ''NOT_DEFINED_AT_ALL'' \<or> v = ''auto'' \<or> v = ''enable'')"

subsection \<open>The number of buffers\<close>

text \<open>
  Whatever the readings, the number of buffers stays between one and eight, also where the doubling wraps
  around to zero.
\<close>

lemma Adjust_bounds: "1 \<le> Adjust n cur \<and> Adjust n cur \<le> 8"
proof -
  have "(0 :: 32 word) < 8" by simp
  have "c \<noteq> 0 \<Longrightarrow> 1 \<le> c" for c :: "32 word" by (simp add: word_le_nat_alt unat_eq_0 Suc_le_eq unat_gt_0)
  then show ?thesis by (auto simp: Adjust_def Let_def not_less)
qed

lemma length_Alloc [simp]: "length (Alloc pool cur) = unat cur"
  by (simp add: Alloc_def)

subsection \<open>A vectored reader is a source of buffers\<close>

definition fresh :: "buffer \<Rightarrow> bool" where
  "fresh b \<longleftrightarrow> length (bf_v b) = buf_Size \<and> bf_start b = 0 \<and> bf_end b = 0"

lemma Alloc_fresh: "list_all fresh (Alloc pool cur)"
  by (simp add: Alloc_def list_all_iff fresh_def) (simp add: buf_New_def)

lemma fill_content:
  "list_all fresh bs \<Longrightarrow> length data \<le> length bs * buf_Size \<Longrightarrow>
   queue_ok (set_ends (int (length data)) (fill_vecs bs data)) \<and> mb_content (set_ends (int (length data)) (fill_vecs bs data)) = data
   \<and> length (set_ends (int (length data)) (fill_vecs bs data)) \<le> length bs"
proof (induction bs arbitrary: data)
  case (Cons b bs)
  show ?case
  proof (cases "data = []")
    case False
    let ?e = "min buf_Size (length data)"
    let ?b = "b\<lparr>bf_v := copy_at 0 (take buf_Size data) (bf_v b), bf_end := int ?e\<rparr>"
    have "buf_ok ?b" "content ?b = take buf_Size data"
      using Cons.prems(1) by (auto simp: fresh_def buf_ok_def content_def copy_at_def min_def)
    moreover have "set_ends (int (length data)) (fill_vecs (b # bs) data) = Some ?b # set_ends (int (length (drop buf_Size data))) (fill_vecs bs (drop buf_Size data))"
      using False by (auto simp: Let_def min_def)
    ultimately show ?thesis using Cons.IH [of "drop buf_Size data"] Cons.prems by simp
  qed simp
qed simp


lemma ReadBuffer_some:
  assumes "rd buf_Size s = (Inr b, s')" and "b \<noteq> []" and "length b \<le> buf_Size"
  shows "\<exists>x. ReadBuffer (conn_reader rd) pooled s = Inr (Some x, None, s') \<and> buf_ok x \<and> content x = b"
proof -
  let ?x = "(buf_New pooled)\<lparr>bf_v := copy_at (nat (bf_end (buf_New pooled))) b (bf_v (buf_New pooled)), bf_end := bf_end (buf_New pooled) + int (length b)\<rparr>"
  have "slice (bf_v (buf_New pooled)) (bf_end (buf_New pooled)) (int (length (bf_v (buf_New pooled)))) = Inr (bf_v (buf_New pooled))"
    by (simp add: slice_def) (simp add: buf_New_def)
  moreover have "conn_reader rd (length (bf_v (buf_New pooled))) s = Inr (b, None, s')" using assms(1) by (simp add: conn_reader_def)
  moreover have "buf_ok ?x \<and> content ?x = content (buf_New pooled) @ take (room (buf_New pooled)) b \<and> room ?x = room (buf_New pooled) - length b"
    by (rule append_window [OF New_ok(1) _ HOL.refl]) (simp add: New_ok assms(3))
  ultimately show ?thesis
    using New_ok [of pooled] assms(2,3) by (auto simp: ReadBuffer_def buf_ReadFrom_def)
qed

context stream_reader
begin

lemma readMulti_some:
  assumes "ok s" and "pending s \<noteq> []" and "1 \<le> unat cur"
  shows "\<exists>mb s'. readMulti rd pool cur s = (mb, None, s') \<and> queue_ok mb \<and> mb_content mb \<noteq> [] \<and> pending s = mb_content mb @ pending s' \<and> ok s'"
proof -
  have "0 < unat cur * buf_Size" using assms(3) by (simp add: buf_Size_def)
  then obtain b s' where "rd (unat cur * buf_Size) s = (Inr b, s')" "b \<noteq> []" "length b \<le> unat cur * buf_Size" "pending s = b @ pending s'" "ok s'"
    using read_some [OF assms(1) _ assms(2)] by blast
  with fill_content [OF Alloc_fresh, of b pool cur] show ?thesis by (simp add: readMulti_def Let_def)
qed

lemma single_some:
  assumes "ok s" and "pending s \<noteq> []"
  shows "\<exists>x s'. ReadBuffer (conn_reader rd) pooled s = Inr (Some x, None, s') \<and> buf_ok x \<and> content x \<noteq> [] \<and> pending s = content x @ pending s' \<and> ok s'"
proof -
  obtain b s' where r: "rd buf_Size s = (Inr b, s')" "b \<noteq> []" "length b \<le> buf_Size" "pending s = b @ pending s'" "ok s'"
    using read_some [OF assms(1) _ assms(2), of buf_Size] by (auto simp: buf_Size_def)
  from ReadBuffer_some [of rd s b s' pooled] r show ?thesis by auto
qed

lemma readv_some:
  assumes "ok s" and "pending s \<noteq> []" and "1 \<le> cur"
  shows "\<exists>mb cur' s'. readv_ReadMultiBuffer rd pool (cur, s) = Inr (mb, None, cur', s') \<and> queue_ok mb \<and> mb_content mb \<noteq> []
     \<and> pending s = mb_content mb @ pending s' \<and> ok s' \<and> 1 \<le> cur'"
proof (cases "cur = 1")
  case True
  obtain x s' where x: "ReadBuffer (conn_reader rd) (pool 0) s = Inr (Some x, None, s')" "buf_ok x" "content x \<noteq> []"
    "pending s = content x @ pending s'" "ok s'" using single_some [OF assms(1,2)] by blast
  then have "readv_ReadMultiBuffer rd pool (cur, s) = Inr ([Some x], None, if buf_IsFull (Some x) then Adjust 1 cur else cur, s')"
    using True by (simp add: readv_ReadMultiBuffer_def)
  moreover have "1 \<le> (if buf_IsFull (Some x) then Adjust 1 cur else cur)" using assms(3) Adjust_bounds by simp
  moreover have "queue_ok [Some x] \<and> mb_content [Some x] \<noteq> [] \<and> pending s = mb_content [Some x] @ pending s'" using x by simp
  ultimately show ?thesis using x(5) by blast
next
  case False
  have "1 \<le> unat cur" using assms(3) by (simp add: word_le_nat_alt)
  from readMulti_some [OF assms(1,2) this, of pool] False show ?thesis using Adjust_bounds by (auto simp: readv_ReadMultiBuffer_def)
qed

end

text \<open>A connection that both readers of this section can be put on.\<close>

locale raw_conn = stream_reader rd pending ok
  for rd :: "nat \<Rightarrow> 's \<Rightarrow> bytes res \<times> 's" and pending ok

sublocale raw_conn \<subseteq> readv: multi_source "readv_ReadMultiBuffer rd pool" "\<lambda>r. pending (snd r)" "\<lambda>r. ok (snd r) \<and> 1 \<le> fst r" for pool
  by unfold_locales (use readv_some in fastforce)

sublocale raw_conn \<subseteq> single: multi_source "SingleReader_ReadMultiBuffer (conn_reader rd) pooled" pending ok for pooled
  by unfold_locales (use single_some in \<open>fastforce simp: SingleReader_ReadMultiBuffer_def\<close>)


subsection \<open>TCP connections\<close>

text \<open>The segments that arrive on a TCP connection; a read returns bytes of the first one.\<close>

record tcp =
  tcp_segs :: "bytes list"
  tcp_end :: goerr

definition tcp_Read :: "nat \<Rightarrow> tcp \<Rightarrow> bytes res \<times> tcp" where
  "tcp_Read n c =
     (case tcp_segs c of
        [] \<Rightarrow> (Inl (tcp_end c), c)
      | seg # rest \<Rightarrow> (Inr (take n seg), c\<lparr>tcp_segs := (if length seg \<le> n then rest else drop n seg # rest)\<rparr>))"

definition tcp_ok :: "tcp \<Rightarrow> bool" where
  "tcp_ok c \<longleftrightarrow> list_all (\<lambda>seg. seg \<noteq> []) (tcp_segs c)"

definition tcp_pending :: "tcp \<Rightarrow> bytes" where
  "tcp_pending c = concat (tcp_segs c)"

interpretation tcp_conn: raw_conn tcp_Read tcp_pending tcp_ok
proof
  fix c :: tcp and n :: nat
  assume c: "tcp_ok c" "0 < n" "tcp_pending c \<noteq> []"
  then obtain seg rest where "tcp_segs c = seg # rest" "seg \<noteq> []" by (cases "tcp_segs c") (auto simp: tcp_ok_def tcp_pending_def)
  with c show "\<exists>b c'. tcp_Read n c = (Inr b, c') \<and> b \<noteq> [] \<and> length b \<le> n \<and> tcp_pending c = b @ tcp_pending c' \<and> tcp_ok c'"
    by (auto simp: tcp_Read_def tcp_ok_def tcp_pending_def)
qed

text \<open>
  C30. Vectored reading keeps the stream: a buffered reader over \<open>readv\<close>, started with one buffer and adapting their number
  between one and eight, returns the bytes of a TCP connection in order and completely, in reads of any positive
  sizes, whatever the segments and whatever the recycled buffers contain.
\<close>

theorem readv_stream:
  assumes "tcp_ok c" and "list_all (\<lambda>n. 0 < n) ns" and "sum_list ns \<le> length (tcp_pending c)"
    and "reads (buffered_Read (readv_ReadMultiBuffer tcp_Read pool)) ns ([], 1, c) = (bs, mb, cur, c')"
  shows "tcp_pending c = concat bs @ mb_content mb @ tcp_pending c' \<and> list_all2 (\<lambda>b n. b \<noteq> [] \<and> length b \<le> n) bs ns"
  using tcp_conn.readv.buffered.reads_in_order [OF _ assms(2) _ assms(4)] assms(1,3)
  by (simp add: tcp_conn.readv.buffered_ok_def tcp_conn.readv.buffered_pending_def)

theorem readv_stream_witness:
  "\<exists>bs mb cur c'. reads (buffered_Read (readv_ReadMultiBuffer tcp_Read (\<lambda>_. []))) [1, 2] ([], 1, \<lparr>tcp_segs = [[1, 2], [3]], tcp_end = EOF\<rparr>) = (bs, mb, cur, c')
     \<and> [1, 2, 3] = concat bs @ mb_content mb @ tcp_pending c'"
proof -
  obtain bs mb cur c' where
    r: "reads (buffered_Read (readv_ReadMultiBuffer tcp_Read (\<lambda>_. []))) [1, 2] ([], 1, \<lparr>tcp_segs = [[1, 2], [3]], tcp_end = EOF\<rparr>) = (bs, mb, cur, c')"
    by (metis prod_cases4)
  from readv_stream [OF _ _ _ r] have "[1, 2, 3] = concat bs @ mb_content mb @ tcp_pending c'" by (simp add: tcp_ok_def tcp_pending_def)
  with r show ?thesis by blast
qed

end
