(* ===== verification/VecReaders.thy ===== *)
theory VecReaders
  imports Readv
begin

section \<open>Vectored reads of the systems (buf/readv_posix.go, readv_unix.go, readv_windows.go) and the pools\<close>

text \<open>
  The three implementations of \<open>multiReader\<close> hand the arrays of the buffers to one system call and keep the vector of them for the next
  read. The locale \<open>multi_reader\<close> states what \<open>readMulti\<close> relies on; its lemmas say that every read of a sequence writes
  into the arrays of its own buffers, as \<open>fill_vecs\<close> in \<open>Readv\<close> has it. An array is its contents; a vector entry also has the length that the
  system may write.
\<close>

subsection \<open>The system call\<close>

record iovec =
  iv_base :: "bytes option"
  iv_len :: nat

text \<open>The kernel writes what it received into the arrays in order; a nil array is not written.\<close>

fun scatter :: "iovec list \<Rightarrow> bytes \<Rightarrow> bytes list" where
  "scatter [] data = []"
| "scatter (v # vs) data =
     (case iv_base v of
        None \<Rightarrow> [] # scatter vs data
      | Some a \<Rightarrow> copy_at 0 (take (iv_len v) data) a # scatter vs (drop (iv_len v) data))"

text \<open>
  \<open>rawConn.Read\<close> calls its function again when the connection is readable, until it returns true: a failed system call (a
  negative number) is a wait, and only a failed wait is an error.
\<close>

partial_function (option) raw_read :: "(nat \<Rightarrow> int) \<Rightarrow> (nat \<Rightarrow> goerr option) \<Rightarrow> nat \<Rightarrow> int res option" where
  "raw_read attempt wait i =
     (if attempt i < 0 then
        case wait i of Some e \<Rightarrow> Some (Inl e) | None \<Rightarrow> raw_read attempt wait (Suc i)
      else Some (Inr (attempt i)))"

subsection \<open>readv_posix.go\<close>

text \<open>The lengths are set by the position of the buffer, not by that of the entry just appended.\<close>

fun posix_append :: "nat \<Rightarrow> buffer list \<Rightarrow> iovec list \<Rightarrow> iovec list" where
  "posix_append idx [] iovecs = iovecs"
| "posix_append idx (b # bs) iovecs =
     (let iovecs = iovecs @ [\<lparr>iv_base = Some (bf_v b), iv_len = 0\<rparr>]
      in posix_append (idx + 1) bs (iovecs[idx := (iovecs ! idx)\<lparr>iv_len := buf_Size\<rparr>]))"

definition posix_Init :: "buffer list \<Rightarrow> iovec list \<Rightarrow> iovec list" where
  "posix_Init bs iovecs = posix_append 0 bs iovecs"

definition posix_Clear :: "iovec list \<Rightarrow> iovec list" where
  "posix_Clear iovecs = take 0 (map (\<lambda>v. v\<lparr>iv_base := None\<rparr>) iovecs)"

subsection \<open>readv_unix.go and readv_windows.go\<close>

definition unix_Init :: "buffer list \<Rightarrow> bytes list \<Rightarrow> bytes list" where
  "unix_Init bs iovs = fold (\<lambda>b iovs. iovs @ [bf_v b]) bs iovs"

definition unix_Clear :: "bytes list \<Rightarrow> bytes list" where
  "unix_Clear iovs = take 0 iovs"

definition windows_Init :: "buffer list \<Rightarrow> iovec list \<Rightarrow> iovec list" where
  "windows_Init bs bufs = fold (\<lambda>b bufs. bufs @ [\<lparr>iv_base = Some (bf_v b), iv_len = buf_Size\<rparr>]) bs bufs"

definition windows_Clear :: "iovec list \<Rightarrow> iovec list" where
  "windows_Clear bufs = take 0 (map (\<lambda>v. v\<lparr>iv_base := None\<rparr>) bufs)"

text \<open>What the system call is given: slices know their length.\<close>

definition slice_vec :: "bytes \<Rightarrow> iovec" where
  "slice_vec a = \<lparr>iv_base = Some a, iv_len = length a\<rparr>"

subsection \<open>The contract\<close>

text \<open>Buffers from the pool have arrays of the full size.\<close>

definition full_arrays :: "buffer list \<Rightarrow> bool" where
  "full_arrays bs \<longleftrightarrow> (\<forall>b \<in> set bs. length (bf_v b) = buf_Size)"

definition array_vec :: "buffer \<Rightarrow> iovec" where
  "array_vec b = \<lparr>iv_base = Some (bf_v b), iv_len = buf_Size\<rparr>"

locale multi_reader =
  fixes init :: "buffer list \<Rightarrow> 'r \<Rightarrow> 'r" and vecs :: "'r \<Rightarrow> iovec list" and clear :: "'r \<Rightarrow> 'r" and fresh :: 'r
  assumes fresh_empty: "vecs fresh = []"
    and init_vecs: "full_arrays bs \<Longrightarrow> vecs r = [] \<Longrightarrow> vecs (init bs r) = map array_vec bs"
    and clear_empty: "vecs (clear r) = []"
begin

text \<open>The vectors of a sequence of reads, each between its \<open>Init\<close> and its \<open>Clear\<close>.\<close>

primrec reads :: "buffer list list \<Rightarrow> 'r \<Rightarrow> iovec list list" where
  "reads [] r = []"
| "reads (bs # bss) r = (let r = init bs r in vecs r # reads bss (clear r))"

lemma reads_vecs: "\<forall>bs \<in> set bss. full_arrays bs \<Longrightarrow> vecs r = [] \<Longrightarrow> reads bss r = map (map array_vec) bss"
  by (induction bss arbitrary: r) (simp_all add: Let_def init_vecs clear_empty)

end

lemma Alloc_full: "full_arrays (Alloc pool cur)"
  by (auto simp: full_arrays_def Alloc_def buf_New_def)

lemma scatter_fills: "scatter (map array_vec bs) data = map bf_v (fill_vecs bs data)"
  by (induction bs arbitrary: data) (simp_all add: array_vec_def)

lemma posix_append_vecs: "posix_append (length vs) bs vs = vs @ map array_vec bs"
proof (induction bs arbitrary: vs)
  case (Cons b bs)
  have "(vs @ [\<lparr>iv_base = Some (bf_v b), iv_len = 0\<rparr>])[length vs := ((vs @ [\<lparr>iv_base = Some (bf_v b), iv_len = 0\<rparr>]) ! length vs)\<lparr>iv_len := buf_Size\<rparr>]
      = vs @ [array_vec b]" by (simp add: array_vec_def)
  then show ?case using Cons.IH [of "vs @ [array_vec b]"] by (simp add: Let_def)
qed simp

lemma fold_append: "fold (\<lambda>b vs. vs @ [f b]) bs vs = vs @ map f bs"
  by (induction bs arbitrary: vs) simp_all

interpretation posix: multi_reader posix_Init "\<lambda>r. r" posix_Clear "[]"
  using posix_append_vecs [of "[]"] by unfold_locales (simp_all add: posix_Init_def posix_Clear_def)

interpretation windows: multi_reader windows_Init "\<lambda>r. r" windows_Clear "[]"
  by unfold_locales (simp_all add: windows_Init_def windows_Clear_def fold_append array_vec_def)

interpretation illumos: multi_reader unix_Init "map slice_vec" unix_Clear "[]"
  by unfold_locales (auto simp: unix_Init_def unix_Clear_def fold_append slice_vec_def array_vec_def full_arrays_def)

text \<open>
  Every read of a sequence writes into its own buffers what \<open>Readv\<close> says, on each of the systems.
\<close>

lemma system_reads_fill:
  assumes "\<forall>bs \<in> set bss. full_arrays bs"
  shows "map (\<lambda>vs. scatter vs data) (posix.reads bss []) = map (\<lambda>bs. map bf_v (fill_vecs bs data)) bss"
    and "map (\<lambda>vs. scatter vs data) (windows.reads bss []) = map (\<lambda>bs. map bf_v (fill_vecs bs data)) bss"
    and "map (\<lambda>vs. scatter vs data) (illumos.reads bss []) = map (\<lambda>bs. map bf_v (fill_vecs bs data)) bss"
  using assms by (simp_all add: posix.reads_vecs windows.reads_vecs illumos.reads_vecs scatter_fills o_def)

text \<open>On POSIX the vector must be cleared: after a second \<open>Init\<close> the appended arrays have no length and nothing is written into them.\<close>

lemma posix_needs_clear:
  "map iv_len (posix_Init [b] (posix_Init [a] [])) = [buf_Size, 0]"
  by (simp add: posix_Init_def Let_def)

lemma raw_read_returns:
  assumes "\<And>j. i \<le> j \<Longrightarrow> j < i + k \<Longrightarrow> attempt j < 0 \<and> wait j = None" and "0 \<le> attempt (i + k)"
  shows "raw_read attempt wait i = Some (Inr (attempt (i + k)))"
  using assms
proof (induction k arbitrary: i)
  case 0
  then show ?case by (simp add: raw_read.simps [of attempt wait i])
next
  case (Suc k)
  have "raw_read attempt wait (Suc i) = Some (Inr (attempt (Suc i + k)))"
    using Suc.prems by (intro Suc.IH) auto
  with Suc.prems(1) [of i] show ?case by (simp add: raw_read.simps [of attempt wait i])
qed

subsection \<open>common/bytespool/pool.go\<close>

definition numPools :: nat where
  "numPools = 4"

definition sizeMulti :: int where
  "sizeMulti = 4"

fun pool_sizes :: "nat \<Rightarrow> int \<Rightarrow> int list" where
  "pool_sizes 0 n = []"
| "pool_sizes (Suc i) n = n # pool_sizes i (wrap32 (n * sizeMulti))"

definition poolSize :: "int list" where
  "poolSize = pool_sizes numPools 2048"

fun pool_loop :: "int \<Rightarrow> nat \<Rightarrow> int list \<Rightarrow> nat option" where
  "pool_loop n idx [] = None"
| "pool_loop n idx (ps # sizes) = (if n \<le> ps then Some idx else pool_loop n (idx + 1) sizes)"

definition GetPool :: "int \<Rightarrow> nat option" where
  "GetPool n = pool_loop n 0 poolSize"

lemma poolSize_eval: "poolSize = [2048, 8192, 32768, 131072]"
  by (simp add: poolSize_def numPools_def sizeMulti_def numeral_eq_Suc wrap32_def)

text \<open>The pool that is chosen is the one with the smallest arrays that are large enough; there is none exactly above 128 KB.\<close>

lemma GetPool_smallest:
  "GetPool n = Some i \<longleftrightarrow> i < numPools \<and> n \<le> poolSize ! i \<and> (\<forall>j < i. poolSize ! j < n)"
  "GetPool n = None \<longleftrightarrow> 131072 < n"
  by (auto simp: GetPool_def poolSize_eval numPools_def less_Suc_eq numeral_eq_Suc split: if_splits)

end
