(* ===== verification/Writers.thy ===== *)
theory Writers
  imports Readv
begin

section \<open>Writers (internal/xray_core/common/buf/writer.go and io.go)\<close>

text \<open>
  \<open>NewWriter\<close> puts one of two writers in front of an \<open>io.Writer\<close>: the sequential one, which writes buffer
  by buffer, and \<open>BufferToBytesWriter\<close>, which hands all slices at once to \<open>net.Buffers\<close>. The \<open>io.Writer\<close>
  underneath is any writer that keeps the contract of the interface, stated by the locale \<open>byte_writer\<close>; a
  writer with a vectored write (a TCP connection, for which \<open>net.Buffers\<close> calls \<open>writev\<close>) promises the same
  for a list of slices. Under the contract both writers return, deliver a prefix of the content and
  deliver all of it unless they report an error; without a vectored write they cannot be told apart.
\<close>

subsection \<open>io.go: WriteAllBytes\<close>

text \<open>
  A writer takes a slice and returns how many bytes it took, and an error. One that takes nothing and
  reports no error keeps \<open>WriteAllBytes\<close> going for ever, which is \<open>None\<close>.
\<close>

type_synonym 's writer = "bytes \<Rightarrow> 's \<Rightarrow> nat \<times> goerr option \<times> 's"

partial_function (option) WriteAllBytes :: "'s writer \<Rightarrow> bytes \<Rightarrow> 's \<Rightarrow> (goerr option \<times> 's) res option" where
  "WriteAllBytes wr payload s =
     (if payload = [] then Some (Inr (None, s))
      else case wr payload s of
        (n, Some e, s') \<Rightarrow> Some (Inr (Some e, s'))
      | (n, None, s') \<Rightarrow>
          if n > length payload then Some (Inl (Panic ''slice bounds out of range''))
          else WriteAllBytes wr (drop n payload) s')"

text \<open>It returns for a writer that always takes at least one byte or fails.\<close>

lemma WriteAllBytes_returns:
  assumes "\<And>p s n s'. p \<noteq> [] \<Longrightarrow> wr p s = (n, None, s') \<Longrightarrow> 0 < n"
  shows "\<exists>r. WriteAllBytes wr payload s = Some r"
proof (induction "length payload" arbitrary: payload s rule: less_induct)
  case less
  obtain n err s' where w: "wr payload s = (n, err, s')" by (cases "wr payload s") auto
  show ?case
  proof (cases "payload = [] \<or> err \<noteq> None")
    case True
    then show ?thesis using w by (auto simp: WriteAllBytes.simps [of wr payload])
  next
    case False
    then have "length (drop n payload) < length payload" using assms [of payload s n s'] w by auto
    with less.hyps [OF this, of s'] False w show ?thesis by (auto simp: WriteAllBytes.simps [of wr payload])
  qed
qed

subsection \<open>net.Buffers\<close>

text \<open>An \<open>io.Writer\<close>: its \<open>Write\<close>, and the vectored write of the types that \<open>net.Buffers\<close> recognises.\<close>

record 's io_writer =
  iw_write :: "'s writer"
  iw_writev :: "(bytes list \<Rightarrow> 's \<Rightarrow> nat \<times> goerr option \<times> bytes list \<times> 's) option"

text \<open>\<open>WriteTo\<close> of the standard library: the writes of the slices in order, and the slices left over.\<close>

fun write_slices :: "'s writer \<Rightarrow> bytes list \<Rightarrow> nat \<Rightarrow> 's \<Rightarrow> nat \<times> goerr option \<times> 's" where
  "write_slices wr [] n s = (n, None, s)"
| "write_slices wr (b # bs) n s =
     (case wr b s of (nb, err, s') \<Rightarrow> if err \<noteq> None then (n + nb, err, s') else write_slices wr bs (n + nb) s')"

fun consume :: "nat \<Rightarrow> bytes list \<Rightarrow> bytes list" where
  "consume n [] = []"
| "consume n (b # bs) = (if length b > n then drop n b # bs else consume (n - length b) bs)"

definition buffers_WriteTo :: "'s io_writer \<Rightarrow> bytes list \<Rightarrow> 's \<Rightarrow> nat \<times> goerr option \<times> bytes list \<times> 's" where
  "buffers_WriteTo w bs s =
     (case iw_writev w of
        Some writev \<Rightarrow> writev bs s
      | None \<Rightarrow> (case write_slices (iw_write w) bs 0 s of (n, err, s') \<Rightarrow> (n, err, consume n bs, s')))"

subsection \<open>writer.go\<close>

text \<open>The slices of the buffers; \<open>Bytes\<close> of a nil buffer panics.\<close>

fun all_bytes :: "multi_buffer \<Rightarrow> bytes list res" where
  "all_bytes [] = Inr []"
| "all_bytes (None # mb) = Inl (Panic ''nil pointer dereference'')"
| "all_bytes (Some b # mb) = and_then (buf_Bytes b) (\<lambda>block. and_then (all_bytes mb) (\<lambda>bs. Inr (block # bs)))"

partial_function (option) write_loop :: "'s io_writer \<Rightarrow> int \<Rightarrow> bytes list \<Rightarrow> 's \<Rightarrow> (goerr option \<times> 's) option" where
  "write_loop w todo nb s =
     (if todo > 0 then
        case buffers_WriteTo w nb s of
          (n, Some e, nb', s') \<Rightarrow> Some (Some e, s')
        | (n, None, nb', s') \<Rightarrow> write_loop w (wrap32 (todo - wrap32 (int n))) nb' s'
      else Some (None, s))"

definition BufferToBytes_WriteMultiBuffer :: "'s io_writer \<Rightarrow> multi_buffer \<Rightarrow> 's \<Rightarrow> (goerr option \<times> 's) res option" where
  "BufferToBytes_WriteMultiBuffer w mb s =
     (let size = multi_Len mb in
      if size = 0 then Some (Inr (None, s))
      else case all_bytes mb of
        Inl e \<Rightarrow> Some (Inl e)
      | Inr bs \<Rightarrow>
          if length mb = 1 then WriteAllBytes (iw_write w) (hd bs) s
          else map_option Inr (write_loop w size bs s))"

definition err_only :: "'s writer \<Rightarrow> bytes \<Rightarrow> 's \<Rightarrow> goerr option \<times> 's" where
  "err_only wr b s = (case wr b s of (n, err, s') \<Rightarrow> (err, s'))"

text \<open>
  The writer that \<open>NewWriter\<close> gives for an \<open>io.Writer\<close>; \<open>own\<close> is the \<open>WriteMultiBuffer\<close> of an argument
  that has one.
\<close>

definition writer_WriteMultiBuffer ::
  "(multi_buffer \<Rightarrow> 's \<Rightarrow> (goerr option \<times> 's) res) \<Rightarrow> io_caps \<Rightarrow> 's io_writer \<Rightarrow> multi_buffer \<Rightarrow> 's \<Rightarrow> (goerr option \<times> 's) res option" where
  "writer_WriteMultiBuffer own caps w mb s =
     (case NewWriter caps of
        AsWriter \<Rightarrow> Some (own mb s)
      | BufferToBytesWriter \<Rightarrow> BufferToBytes_WriteMultiBuffer w mb s
      | SequentialWriter \<Rightarrow> Some (SequentialWriter_WriteMultiBuffer (err_only (iw_write w)) mb s))"

subsection \<open>The contract of io.Writer\<close>

text \<open>\<open>Write\<close> takes a prefix of its argument, and reports an error when it takes less than all of it.\<close>

locale byte_writer =
  fixes wr :: "'s writer"
    and sent :: "'s \<Rightarrow> bytes"
  assumes write_law: "wr b s = (n, err, s') \<Longrightarrow>
    n \<le> length b \<and> (n < length b \<longrightarrow> err \<noteq> None) \<and> sent s' = sent s @ take n b"
begin

lemma WriteAllBytes_once:
  "WriteAllBytes wr b s = Some (Inr (if b = [] then (None, s) else err_only wr b s))"
proof -
  obtain n err s' where w: "wr b s = (n, err, s')" by (cases "wr b s") auto
  have "err = None \<Longrightarrow> n = length b" using write_law [OF w] by auto
  then show ?thesis
    using w by (cases err) (auto simp: WriteAllBytes.simps [of wr b] WriteAllBytes.simps [of wr "[]"] err_only_def)
qed

text \<open>What a sequence of writes has delivered.\<close>

lemma write_slices_law:
  "write_slices wr bs k s = (n, err, s') \<Longrightarrow>
   \<exists>m. n = k + m \<and> m \<le> length (concat bs) \<and> (m < length (concat bs) \<longrightarrow> err \<noteq> None) \<and> sent s' = sent s @ take m (concat bs)"
proof (induction bs arbitrary: k s)
  case Nil
  then show ?case by auto
next
  case (Cons b bs)
  obtain nb e s1 where w: "wr b s = (nb, e, s1)" by (cases "wr b s") auto
  note law = write_law [OF w]
  show ?case
  proof (cases e)
    case (Some x)
    with Cons.prems w law show ?thesis by (intro exI [of _ nb]) auto
  next
    case None
    with law have nb: "nb = length b" by auto
    obtain m where "n = k + nb + m" "m \<le> length (concat bs)" "m < length (concat bs) \<longrightarrow> err \<noteq> None" "sent s' = sent s1 @ take m (concat bs)"
      using Cons.IH [of "k + nb" s1] Cons.prems w None by auto
    then show ?thesis using law nb by (intro exI [of _ "nb + m"]) auto
  qed
qed

text \<open>Writing the slices one by one is what the sequential writer does.\<close>

lemma sequential_slices:
  assumes "queue_ok mb" and "write_slices wr (map (\<lambda>ob. content (the ob)) mb) k s = (n, err, s')"
  shows "SequentialWriter_WriteMultiBuffer (err_only wr) mb s = Inr (err, s')"
  using assms
proof (induction mb arbitrary: k s)
  case Nil
  then show ?case by (simp add: SequentialWriter_WriteMultiBuffer_def)
next
  case (Cons ob mb)
  then obtain b where b: "ob = Some b" "buf_ok b" "queue_ok mb" by (cases ob) auto
  obtain nb e s1 where w: "wr (content b) s = (nb, e, s1)" by (cases "wr (content b) s") auto
  show ?case
  proof (cases e)
    case (Some x)
    with Cons.prems b w show ?thesis
      by (auto simp: SequentialWriter_WriteMultiBuffer_def Bytes_content err_only_def)
  next
    case None
    then have "write_slices wr (map (\<lambda>ob. content (the ob)) mb) (k + nb) s1 = (n, err, s')" using Cons.prems b w by simp
    from Cons.IH [OF b(3) this] show ?thesis
      using b w None by (auto simp: SequentialWriter_WriteMultiBuffer_def Bytes_content err_only_def)
  qed
qed

end

text \<open>A vectored write promises the same for a list of slices.\<close>

locale lawful_writer = byte_writer "iw_write w" sent for w :: "'s io_writer" and sent :: "'s \<Rightarrow> bytes" +
  assumes writev_law: "iw_writev w = Some wv \<Longrightarrow> wv bs s = (n, err, rest, s') \<Longrightarrow>
    n \<le> length (concat bs) \<and> (n < length (concat bs) \<longrightarrow> err \<noteq> None) \<and> sent s' = sent s @ take n (concat bs)"
begin

lemma WriteTo_law:
  assumes "buffers_WriteTo w bs s = (n, err, rest, s')"
  shows "n \<le> length (concat bs) \<and> (n < length (concat bs) \<longrightarrow> err \<noteq> None) \<and> sent s' = sent s @ take n (concat bs)"
proof (cases "iw_writev w")
  case None
  with assms have "write_slices (iw_write w) bs 0 s = (n, err, s')" by (auto simp: buffers_WriteTo_def split: prod.splits)
  from write_slices_law [OF this] show ?thesis by auto
next
  case (Some wv)
  with assms writev_law [OF Some] show ?thesis by (simp add: buffers_WriteTo_def)
qed

lemma write_loop_once:
  assumes "todo = int (length (concat bs))" "0 < todo" "todo < 2 ^ 31" and "buffers_WriteTo w bs s = (n, err, rest, s')"
  shows "write_loop w todo bs s = Some (err, s')"
proof (cases err)
  case None
  then have "int n = todo" using WriteTo_law [OF assms(4)] assms(1) by auto
  then have "wrap32 (todo - wrap32 (int n)) = 0" using assms(2,3) by (simp add: wrap32_def)
  with None assms(2,4) show ?thesis
    unfolding write_loop.simps [of w todo bs s] by (simp add: write_loop.simps [of w 0])
qed (use assms(2,4) in \<open>simp add: write_loop.simps [of w todo]\<close>)

end

subsection \<open>Delivery\<close>

lemma multi_Len_fold:
  assumes "queue_ok mb" "0 \<le> k" "k + int (length (mb_content mb)) < 2 ^ 31"
  shows "fold (\<lambda>ob n. wrap32 (n + buf_Len ob)) mb k = k + int (length (mb_content mb))"
  using assms
proof (induction mb arbitrary: k)
  case (Cons ob mb)
  then obtain b where b: "ob = Some b" "buf_ok b" "queue_ok mb" by (cases ob) auto
  then have "wrap32 (k + buf_Len ob) = k + int (length (content b))"
    using Cons.prems by (simp add: Len_content wrap32_def)
  with Cons b show ?case by (simp add: add.assoc)
qed simp

lemma multi_Len_content:
  "queue_ok mb \<Longrightarrow> length (mb_content mb) < 2 ^ 31 \<Longrightarrow> multi_Len mb = int (length (mb_content mb))"
  using multi_Len_fold [of mb 0] by (simp add: multi_Len_def)

lemma all_bytes_content: "queue_ok mb \<Longrightarrow> all_bytes mb = Inr (map (\<lambda>ob. content (the ob)) mb)"
  by (induction mb rule: all_bytes.induct) (auto simp: Bytes_content)

lemma concat_contents: "queue_ok mb \<Longrightarrow> concat (map (\<lambda>ob. content (the ob)) mb) = mb_content mb"
proof (induction mb)
  case (Cons ob mb)
  then show ?case by (cases ob) auto
qed simp

context lawful_writer
begin

text \<open>\<open>BufferToBytesWriter\<close> on well-formed buffers makes one pass.\<close>

lemma BufferToBytes_once:
  assumes "queue_ok mb" "length (mb_content mb) < 2 ^ 31" "mb_content mb \<noteq> []"
    and "length mb \<noteq> 1" and "buffers_WriteTo w (map (\<lambda>ob. content (the ob)) mb) s = (n, err, rest, s')"
  shows "BufferToBytes_WriteMultiBuffer w mb s = Some (Inr (err, s'))"
proof -
  have "write_loop w (int (length (mb_content mb))) (map (\<lambda>ob. content (the ob)) mb) s = Some (err, s')"
    using assms by (intro write_loop_once) (auto simp: concat_contents)
  then show ?thesis
    using assms by (simp add: BufferToBytes_WriteMultiBuffer_def multi_Len_content all_bytes_content)
qed

text \<open>Each writer returns and delivers a prefix, all of it unless it reports an error.\<close>

lemma sequential_delivers:
  assumes "queue_ok mb"
  shows "\<exists>err s' m. SequentialWriter_WriteMultiBuffer (err_only (iw_write w)) mb s = Inr (err, s')
    \<and> sent s' = sent s @ take m (mb_content mb) \<and> (m < length (mb_content mb) \<longrightarrow> err \<noteq> None)"
proof -
  obtain n err s' where ws: "write_slices (iw_write w) (map (\<lambda>ob. content (the ob)) mb) 0 s = (n, err, s')"
    by (metis prod_cases3)
  from sequential_slices [OF assms ws] write_slices_law [OF ws] concat_contents [OF assms] show ?thesis by auto
qed

lemma buffer_to_bytes_delivers:
  assumes "queue_ok mb" "length (mb_content mb) < 2 ^ 31"
  shows "\<exists>err s' m. BufferToBytes_WriteMultiBuffer w mb s = Some (Inr (err, s'))
    \<and> sent s' = sent s @ take m (mb_content mb) \<and> (m < length (mb_content mb) \<longrightarrow> err \<noteq> None)"
proof (cases "mb_content mb = [] \<or> length mb \<noteq> 1")
  case True
  obtain n err rest s' where wt: "buffers_WriteTo w (map (\<lambda>ob. content (the ob)) mb) s = (n, err, rest, s')"
    by (metis prod_cases4)
  from True BufferToBytes_once [OF assms _ _ wt] WriteTo_law [OF wt] show ?thesis
    by (cases "mb_content mb = []") (auto simp: concat_contents assms BufferToBytes_WriteMultiBuffer_def multi_Len_content)
next
  case False
  then obtain b where mb: "mb = [Some b]" "content b \<noteq> []" using assms(1) by (cases mb; cases "hd mb") auto
  obtain n err s' where "iw_write w (content b) s = (n, err, s')" by (metis prod_cases3)
  with mb assms write_law [OF this] show ?thesis
    by (auto simp: BufferToBytes_WriteMultiBuffer_def multi_Len_content Bytes_content WriteAllBytes_once err_only_def)
qed

text \<open>Without a vectored write the two writers are the same function.\<close>

lemma writers_equal:
  assumes "queue_ok mb" "length (mb_content mb) < 2 ^ 31" "iw_writev w = None" "\<forall>ob \<in> set mb. content (the ob) \<noteq> []"
  shows "BufferToBytes_WriteMultiBuffer w mb s = Some (SequentialWriter_WriteMultiBuffer (err_only (iw_write w)) mb s)"
proof (cases "length mb = 1")
  case True
  then obtain b where mb: "mb = [Some b]" "buf_ok b" using assms(1) by (cases mb; cases "hd mb") auto
  with assms show ?thesis
    by (auto simp: BufferToBytes_WriteMultiBuffer_def multi_Len_content Bytes_content WriteAllBytes_once
        SequentialWriter_WriteMultiBuffer_def split: prod.splits option.splits)
next
  case False
  obtain n err s' where ws: "write_slices (iw_write w) (map (\<lambda>ob. content (the ob)) mb) 0 s = (n, err, s')"
    by (metis prod_cases3)
  then have wt: "buffers_WriteTo w (map (\<lambda>ob. content (the ob)) mb) s = (n, err, consume n (map (\<lambda>ob. content (the ob)) mb), s')"
    using assms(3) by (simp add: buffers_WriteTo_def)
  show ?thesis
  proof (cases mb)
    case Nil
    then show ?thesis by (simp add: BufferToBytes_WriteMultiBuffer_def multi_Len_def SequentialWriter_WriteMultiBuffer_def)
  next
    case (Cons ob mb')
    then have "mb_content mb \<noteq> []" using assms(1,4) by (cases ob) auto
    then show ?thesis using BufferToBytes_once [OF assms(1,2) _ False wt] sequential_slices [OF assms(1) ws] by simp
  qed
qed

end

text \<open>
  The messages of a gRPC stream as an \<open>io.Writer\<close> (\<open>HunkReaderWriter.Write\<close> returns the length of its argument, or
  nothing and an error), and a WebSocket connection.
\<close>

definition hunk_writer :: "goerr option \<Rightarrow> hunk_rw io_writer" where
  "hunk_writer serr =
     \<lparr>iw_write = (\<lambda>b h. case hunk_Write serr b h of (Some e, h') \<Rightarrow> (0, Some e, h') | (None, h') \<Rightarrow> (length b, None, h')),
      iw_writev = None\<rparr>"

definition xws_writer :: "goerr option \<Rightarrow> xws io_writer" where
  "xws_writer werr =
     \<lparr>iw_write = (\<lambda>b c. case xws_Write werr b c of (Some e, c') \<Rightarrow> (0, Some e, c') | (None, c') \<Rightarrow> (length b, None, c')),
      iw_writev = None\<rparr>"

interpretation hunk_writer: lawful_writer "hunk_writer serr" "\<lambda>h. concat (hk_sent h)" for serr
  by unfold_locales (auto simp: hunk_writer_def hunk_Write_def split: if_splits option.splits)

interpretation xws_writer: lawful_writer "xws_writer werr" "\<lambda>c. concat (xw_sent c)" for werr
  by unfold_locales (auto simp: xws_writer_def xws_Write_def split: option.splits)

lemma hunk_writer_sends:
  assumes "queue_ok mb"
  shows "\<exists>err h' m. SequentialWriter_WriteMultiBuffer (hunk_Write serr) mb h = Inr (err, h')
    \<and> concat (hk_sent h') = concat (hk_sent h) @ take m (mb_content mb) \<and> (m < length (mb_content mb) \<longrightarrow> err \<noteq> None)"
proof -
  have "err_only (iw_write (hunk_writer serr)) = hunk_Write serr"
    by (auto simp: fun_eq_iff err_only_def hunk_writer_def split: prod.splits option.splits)
  with hunk_writer.sequential_delivers [OF assms] show ?thesis by metis
qed

text \<open>
  C31. Whichever writer \<open>NewWriter\<close> puts in front of an \<open>io.Writer\<close> that keeps its contract, \<open>WriteMultiBuffer\<close>
  returns, the bytes that reach the connection are a prefix of the content of the buffers, and they
  are all of it unless an error is returned. When the connection has no vectored write and no buffer
  is empty, the two writers are the same function: they make the same writes and return the same error.
\<close>

theorem writers_agree:
  assumes "lawful_writer w sent" and "queue_ok mb" and "length (mb_content mb) < 2 ^ 31" and "\<not> ic_multi caps"
  shows "(\<exists>err s' m. writer_WriteMultiBuffer own caps w mb s = Some (Inr (err, s')) \<and> sent s' = sent s @ take m (mb_content mb)
      \<and> (m < length (mb_content mb) \<longrightarrow> err \<noteq> None))
    \<and> (iw_writev w = None \<and> (\<forall>ob \<in> set mb. content (the ob) \<noteq> []) \<longrightarrow>
        BufferToBytes_WriteMultiBuffer w mb s = Some (SequentialWriter_WriteMultiBuffer (err_only (iw_write w)) mb s))"
proof (intro conjI impI)
  note bounded = assms(2,3)
  show "\<exists>err s' m. writer_WriteMultiBuffer own caps w mb s = Some (Inr (err, s')) \<and> sent s' = sent s @ take m (mb_content mb)
      \<and> (m < length (mb_content mb) \<longrightarrow> err \<noteq> None)"
    using assms(4) lawful_writer.sequential_delivers [OF assms(1,2), of s]
      lawful_writer.buffer_to_bytes_delivers [OF assms(1) bounded, of s]
    by (cases "isPacketWriter caps") (simp_all add: writer_WriteMultiBuffer_def NewWriter_def)
next
  assume "iw_writev w = None \<and> (\<forall>ob \<in> set mb. content (the ob) \<noteq> [])"
  then show "BufferToBytes_WriteMultiBuffer w mb s = Some (SequentialWriter_WriteMultiBuffer (err_only (iw_write w)) mb s)"
    using lawful_writer.writers_equal [OF assms(1-3)] by simp
qed

text \<open>A disk with room for four bytes, and two buffers of three.\<close>

definition demo_disk :: "bytes io_writer" where
  "demo_disk =
     \<lparr>iw_write = (\<lambda>b s. let n = min (length b) (4 - length s) in
        (n, if n < length b then Some (Msg ''no space left on device'') else None, s @ take n b)),
      iw_writev = None\<rparr>"

definition demo_pieces :: multi_buffer where
  "demo_pieces = map (\<lambda>d. Some \<lparr>bf_v = d, bf_start = 0, bf_end = int (length d), bf_unmanaged = False\<rparr>) [[1, 2, 3], [4, 5, 6]]"

theorem writers_agree_witness:
  "(\<exists>err s' m. writer_WriteMultiBuffer (\<lambda>mb s. Inr (None, s)) \<lparr>ic_multi = False, ic_file = False, ic_packet = False, ic_syscall = True, ic_raw_err = False\<rparr>
      demo_disk demo_pieces [] = Some (Inr (err, s')) \<and> s' = [] @ take m (mb_content demo_pieces)
      \<and> (m < length (mb_content demo_pieces) \<longrightarrow> err \<noteq> None))
    \<and> BufferToBytes_WriteMultiBuffer demo_disk demo_pieces []
      = Some (SequentialWriter_WriteMultiBuffer (err_only (iw_write demo_disk)) demo_pieces [])
    \<and> SequentialWriter_WriteMultiBuffer (err_only (iw_write demo_disk)) demo_pieces []
      = Inr (Some (Msg ''no space left on device''), [1, 2, 3, 4])"
proof -
  have law: "lawful_writer demo_disk id"
    by unfold_locales (auto simp: demo_disk_def Let_def split: if_splits)
  have ok: "queue_ok demo_pieces" "mb_content demo_pieces = [1, 2, 3, 4, 5, 6]" "\<forall>ob \<in> set demo_pieces. content (the ob) \<noteq> []"
    by (simp_all add: demo_pieces_def buf_ok_def content_def)
  have sent: "SequentialWriter_WriteMultiBuffer (err_only (iw_write demo_disk)) demo_pieces []
      = Inr (Some (Msg ''no space left on device''), [1, 2, 3, 4])"
    by code_simp
  show ?thesis
    using writers_agree [OF law ok(1), of "\<lparr>ic_multi = False, ic_file = False, ic_packet = False, ic_syscall = True, ic_raw_err = False\<rparr>"
        "\<lambda>mb s. Inr (None, s)" "[]"] ok sent
    by (simp add: demo_disk_def)
qed

end
