(* ===== verification/ConnOptions.thy ===== *)
theory ConnOptions
  imports Readv
begin

section \<open>Making gRPC connections (cnc options, NewHunkConn, NewMultiHunkConn)\<close>

text \<open>
  How a \<open>cnc.connection\<close> is put together from options, and what the two constructors over gRPC streams put into one: the reader
  and the writer that \<open>Transport\<close> and \<open>MultiHunk\<close> work with, and the remote address, which a peer may override by a
  header.
\<close>

subsection \<open>cnc/connection.go: options\<close>

datatype net_addr = TcpAddr bytes int | PeerAddr string

record conn_fields =
  cf_writer :: "writer_kind option"
  cf_reader :: "reader_kind option"
  cf_closes :: bool
  cf_local :: net_addr
  cf_remote :: net_addr

type_synonym conn_option = "conn_fields \<Rightarrow> conn_fields"

definition ConnectionInput :: "io_caps \<Rightarrow> conn_option" where
  "ConnectionInput writer c = c\<lparr>cf_writer := Some (NewWriter writer)\<rparr>"

definition ConnectionInputMulti :: conn_option where
  "ConnectionInputMulti c = c\<lparr>cf_writer := Some AsWriter\<rparr>"

definition ConnectionOutput :: "bool \<Rightarrow> io_caps \<Rightarrow> conn_option" where
  "ConnectionOutput readv_on reader c = c\<lparr>cf_reader := Some (NewReader readv_on reader)\<rparr>"

definition ConnectionOutputMulti :: conn_option where
  "ConnectionOutputMulti c = c\<lparr>cf_reader := Some AsReader\<rparr>"

definition ConnectionRemoteAddr :: "net_addr \<Rightarrow> conn_option" where
  "ConnectionRemoteAddr a c = c\<lparr>cf_remote := a\<rparr>"

definition ConnectionOnClose :: conn_option where
  "ConnectionOnClose c = c\<lparr>cf_closes := True\<rparr>"

definition new_fields :: "conn_option list \<Rightarrow> conn_fields" where
  "new_fields opts =
     fold (\<lambda>opt c. opt c) opts
       \<lparr>cf_writer = None, cf_reader = None, cf_closes = False, cf_local = TcpAddr [0, 0, 0, 0] 0, cf_remote = TcpAddr [0, 0, 0, 0] 0\<rparr>"

subsection \<open>hunkconn.go and multiconn.go: constructors\<close>

text \<open>
  The remote address: that of the gRPC peer, if the context has one, unless the metadata have a header \<open>x-real-ip\<close> whose first
  value is an IP address.
\<close>

definition stream_remote :: "net_addr option \<Rightarrow> string list option \<Rightarrow> net_addr res" where
  "stream_remote peer real_ip =
     (let rAddr = (case peer of Some a \<Rightarrow> a | None \<Rightarrow> TcpAddr [0, 0, 0, 0] 0) in
      case real_ip of
        None \<Rightarrow> Inr rAddr
      | Some header \<Rightarrow>
          if length header > 0 then
            (case ParseAddress (hd header) of
               None \<Rightarrow> Inl (Panic ''nil pointer dereference'')
             | Some realip \<Rightarrow>
                 if IsIP (addr_family realip) then and_then (addr_ip realip) (\<lambda>ip. Inr (TcpAddr ip 0)) else Inr rAddr)
          else Inr rAddr)"

text \<open>A \<open>HunkReaderWriter\<close> has \<open>Read\<close>, \<open>ReadMultiBuffer\<close> and \<open>Write\<close>, and is no system connection.\<close>

definition hunk_reader_caps :: io_caps where
  "hunk_reader_caps = \<lparr>ic_multi = True, ic_file = False, ic_packet = False, ic_syscall = False, ic_raw_err = False\<rparr>"

definition hunk_writer_caps :: io_caps where
  "hunk_writer_caps = \<lparr>ic_multi = False, ic_file = False, ic_packet = False, ic_syscall = False, ic_raw_err = False\<rparr>"

definition NewHunkConn :: "bool \<Rightarrow> net_addr option \<Rightarrow> string list option \<Rightarrow> conn_fields res" where
  "NewHunkConn readv_on peer real_ip =
     and_then (stream_remote peer real_ip) (\<lambda>rAddr.
       Inr (new_fields [ConnectionInput hunk_writer_caps, ConnectionOutput readv_on hunk_reader_caps, ConnectionOnClose, ConnectionRemoteAddr rAddr]))"

definition NewMultiHunkConn_fields :: "net_addr option \<Rightarrow> string list option \<Rightarrow> conn_fields res" where
  "NewMultiHunkConn_fields peer real_ip =
     and_then (stream_remote peer real_ip) (\<lambda>rAddr.
       Inr (new_fields [ConnectionInputMulti, ConnectionOutputMulti, ConnectionOnClose, ConnectionRemoteAddr rAddr]))"

subsection \<open>What the connections are made of\<close>

lemma stream_remote_total: "\<exists>a. stream_remote peer real_ip = Inr a"
proof -
  obtain a where "ParseAddress (hd (the real_ip)) = Some a" using ParseAddress_wf by blast
  then show ?thesis by (cases a) (auto simp: stream_remote_def Let_def IsIP_def split: option.splits)
qed

text \<open>
  Both constructors succeed; with one piece per message the stream is read directly and written through the sequential writer, with many
  it is both reader and writer; closing reaches the stream.
\<close>

lemma hunk_conn_fields:
  "\<exists>a. stream_remote peer real_ip = Inr a
     \<and> NewHunkConn readv_on peer real_ip = Inr \<lparr>cf_writer = Some SequentialWriter, cf_reader = Some AsReader, cf_closes = True,
         cf_local = TcpAddr [0, 0, 0, 0] 0, cf_remote = a\<rparr>
     \<and> NewMultiHunkConn_fields peer real_ip = Inr \<lparr>cf_writer = Some AsWriter, cf_reader = Some AsReader, cf_closes = True,
         cf_local = TcpAddr [0, 0, 0, 0] 0, cf_remote = a\<rparr>"
proof -
  obtain a where "stream_remote peer real_ip = Inr a" using stream_remote_total by blast
  then show ?thesis
    by (simp add: NewHunkConn_def NewMultiHunkConn_fields_def new_fields_def ConnectionInput_def ConnectionOutput_def ConnectionInputMulti_def
        ConnectionOutputMulti_def ConnectionOnClose_def ConnectionRemoteAddr_def hunk_reader_caps_def hunk_writer_caps_def
        NewReader_def NewWriter_def isPacketWriter_def)
qed

text \<open>A printed IP address in the header is the one that the connection reports.\<close>

lemma real_ip_reported:
  assumes "addr_wf a" and "IsIP (addr_family a)" and "ParseAddress h = Some a"
  shows "\<exists>ip. addr_ip a = Inr ip \<and> stream_remote peer (Some (h # hs)) = Inr (TcpAddr ip 0)"
  using assms by (cases a) (simp_all add: stream_remote_def IsIP_def)

end
