(* ===== verification/Errors.thy ===== *)
theory Errors
  imports Prelude
begin

section \<open>Errors of xray_core (common/errors/errors.go, common/serial/string.go)\<close>

text \<open>
  The error objects of xray_core: a message, a path object that names a package, prefixes and the error underneath. The
  rest of the development needs of them only which error is wrapped in which, the type \<open>goerr\<close> of the prelude;
  \<open>err_of\<close> is the abstraction, and \<open>errors.Cause\<close>, which decides whether a reader has ended, commutes with it.
\<close>

subsection \<open>Values and their text\<close>

text \<open>
  The arguments of \<open>NewError\<close>: strings, nil, values with the text of their \<open>String\<close> or \<open>Error\<close> method (errors do not change
  once they are made), and others with the text that \<open>fmt\<close> gives them. An error is one of this package or a
  foreign one, which may wrap another. The path object is the package path of its type.
\<close>

datatype go_value = StringValue string | NilValue | StringerValue string | ErrorValue string | OtherValue string

datatype xerror =
    XError (xe_path: "string option") (xe_prefix: "go_value list") (xe_message: "go_value list") (xe_inner: "xerror option")
  | Foreign string "xerror option"

definition trim_length :: nat where
  "trim_length = length ''liuproxy_go/internal/xray_core/''"

definition pkgPath :: "string option \<Rightarrow> string" where
  "pkgPath obj =
     (case obj of
        None \<Rightarrow> ''''
      | Some path \<Rightarrow> if length path \<ge> trim_length then drop trim_length path else path)"

fun ToString :: "go_value \<Rightarrow> string" where
  "ToString NilValue = ''''"
| "ToString (StringValue s) = s"
| "ToString (StringerValue s) = s"
| "ToString (ErrorValue s) = s"
| "ToString (OtherValue s) = s"

definition serial_Concat :: "go_value list \<Rightarrow> string" where
  "serial_Concat vs = concat (map ToString vs)"

fun Error_text :: "xerror \<Rightarrow> string" where
  "Error_text (Foreign s inner) = s"
| "Error_text (XError obj pre msg inner) =
     concat (map (\<lambda>p. ''['' @ ToString p @ ''] '') pre)
     @ (if length (pkgPath obj) > 0 then pkgPath obj @ '': '' else '''')
     @ serial_Concat msg
     @ (case inner of None \<Rightarrow> '''' | Some e \<Rightarrow> '' > '' @ Error_text e)"

subsection \<open>Construction and unwrapping\<close>

definition New_error :: "go_value list \<Rightarrow> xerror" where
  "New_error msg = XError None [] msg None"

definition WithPathObj :: "string \<Rightarrow> xerror \<Rightarrow> xerror" where
  "WithPathObj obj e = (case e of XError p pre msg inner \<Rightarrow> XError (Some obj) pre msg inner | Foreign s i \<Rightarrow> Foreign s i)"

definition Base :: "xerror option \<Rightarrow> xerror \<Rightarrow> xerror" where
  "Base inner e = (case e of XError p pre msg i \<Rightarrow> XError p pre msg inner | Foreign s i \<Rightarrow> Foreign s i)"

text \<open>\<open>NewError\<close> is a function of the package errors, whose own path object it attaches.\<close>

definition NewError :: "go_value list \<Rightarrow> xerror" where
  "NewError values = WithPathObj ''liuproxy_go/internal/xray_core/common/errors'' (New_error values)"

fun Unwrap :: "xerror \<Rightarrow> xerror option" where
  "Unwrap (XError p pre msg inner) = (case inner of None \<Rightarrow> None | Some e \<Rightarrow> Some e)"
| "Unwrap (Foreign s inner) = inner"

function cause_loop :: "xerror \<Rightarrow> xerror" where
  "cause_loop err = (case Unwrap err of None \<Rightarrow> err | Some e \<Rightarrow> cause_loop e)"
  by pat_completeness auto
termination
proof (relation "measure size")
  show "Unwrap err = Some e \<Longrightarrow> (e, err) \<in> measure size" for err e
    by (cases err) (auto split: option.splits)
qed simp

declare cause_loop.simps [simp del]

definition errors_Cause :: "xerror option \<Rightarrow> xerror option" where
  "errors_Cause err = (case err of None \<Rightarrow> None | Some e \<Rightarrow> Some (cause_loop e))"

subsection \<open>The abstraction\<close>

text \<open>Foreign errors without an inner one are taken by their text: \<open>EOF\<close> is the error of package \<open>io\<close>.\<close>

definition eof_error :: xerror where
  "eof_error = Foreign ''EOF'' None"

fun err_of :: "xerror \<Rightarrow> goerr" where
  "err_of (Foreign s None) = (if s = ''EOF'' then EOF else OSErr s)"
| "err_of (Foreign s (Some e)) = Wrap s (err_of e)"
| "err_of (XError p pre msg None) = Msg (serial_Concat msg)"
| "err_of (XError p pre msg (Some e)) = Wrap (serial_Concat msg) (err_of e)"

lemma err_of_Cause: "err_of (cause_loop e) = Cause (err_of e)"
proof (induction e rule: err_of.induct)
qed (simp_all add: cause_loop.simps)

lemma Cause_is_root: "Unwrap (cause_loop e) = None"
proof (induction e rule: cause_loop.induct)
  case (1 err)
  then show ?case by (cases "Unwrap err") (simp_all add: cause_loop.simps [of err])
qed

lemma cause_is_EOF: "err_of (cause_loop e) = EOF \<longleftrightarrow> cause_loop e = eof_error"
  using Cause_is_root [of e] by (cases "cause_loop e" rule: err_of.cases) (auto simp: eof_error_def)

text \<open>
  Every message that the packages of xray_core build with \<open>NewError\<close> starts with the path of package errors, not with
  that of the package the error comes from.
\<close>

lemma NewError_text:
  "Error_text (Base (Some e) (NewError values)) = ''common/errors: '' @ serial_Concat values @ '' > '' @ Error_text e"
  "Error_text (NewError values) = ''common/errors: '' @ serial_Concat values"
proof -
  have "pkgPath (Some ''liuproxy_go/internal/xray_core/common/errors'') = ''common/errors''" by code_simp
  then show "Error_text (Base (Some e) (NewError values)) = ''common/errors: '' @ serial_Concat values @ '' > '' @ Error_text e"
    "Error_text (NewError values) = ''common/errors: '' @ serial_Concat values"
    by (simp_all add: Base_def NewError_def WithPathObj_def New_error_def)
qed

end
