(* ===== verification/Closing.thy ===== *)
theory Closing
  imports MultiHunk Errors
begin

section \<open>Closing connections (done.Instance, common.Close and Interrupt, cnc, hunkconn, multiconn, websocket)\<close>

text \<open>
  What \<open>Close\<close> does to a connection of the vless transports. A \<open>cnc.connection\<close> over a gRPC stream marks itself done and then
  closes the stream through its reader, its writer (where that has a \<open>Close\<close>) and its \<open>onClose\<close>; the stream cancels its
  context and, being a client stream, ends its sending side. The calls on the gRPC library are recorded in
  a log; what the library then delivers is a step of the environment.
\<close>

subsection \<open>signal/done/done.go\<close>

record done_instance =
  dn_closed :: bool
  dn_chan_closed :: bool

definition done_New :: done_instance where
  "done_New = \<lparr>dn_closed = False, dn_chan_closed = False\<rparr>"

definition done_Done :: "done_instance \<Rightarrow> bool" where
  "done_Done d = dn_chan_closed d"

definition done_Close :: "done_instance \<Rightarrow> done_instance res" where
  "done_Close d =
     (if dn_closed d then Inr d
      else if dn_chan_closed d then Inl (Panic ''close of closed channel'')
      else Inr (d\<lparr>dn_closed := True, dn_chan_closed := True\<rparr>))"

text \<open>
  The flag and the channel agree, so that \<open>Close\<close> never closes a channel twice, and the object is the boolean
  that the connections below keep in its place.
\<close>

definition done_ok :: "done_instance \<Rightarrow> bool" where
  "done_ok d \<longleftrightarrow> dn_closed d = dn_chan_closed d"

fun close_times :: "nat \<Rightarrow> done_instance \<Rightarrow> done_instance res" where
  "close_times 0 d = Inr d"
| "close_times (Suc n) d = and_then (done_Close d) (close_times n)"

lemma done_once: "done_ok d \<Longrightarrow> \<exists>d'. done_Close d = Inr d' \<and> done_ok d' \<and> done_Done d'"
  by (auto simp: done_ok_def done_Close_def done_Done_def)

lemma done_is_bool: "done_ok d \<Longrightarrow> \<exists>d'. close_times n d = Inr d' \<and> done_ok d' \<and> done_Done d' = (done_Done d \<or> 0 < n)"
proof (induction n arbitrary: d)
  case (Suc n)
  then obtain d1 where "done_Close d = Inr d1" "done_ok d1" "done_Done d1" using done_once by blast
  with Suc.IH [of d1] show ?case by auto
qed simp

subsection \<open>common/interfaces.go\<close>

text \<open>An object is the methods that its dynamic type has.\<close>

definition common_Close :: "('s \<Rightarrow> goerr option \<times> 's) option \<Rightarrow> 's \<Rightarrow> goerr option \<times> 's" where
  "common_Close close s = (case close of Some f \<Rightarrow> f s | None \<Rightarrow> (None, s))"

definition common_Interrupt :: "('s \<Rightarrow> 's) option \<Rightarrow> ('s \<Rightarrow> goerr option \<times> 's) option \<Rightarrow> 's \<Rightarrow> goerr option \<times> 's" where
  "common_Interrupt interrupt close s = (case interrupt of Some f \<Rightarrow> (None, f s) | None \<Rightarrow> common_Close close s)"

text \<open>\<open>BufferedReader.Interrupt\<close> interrupts the reader underneath.\<close>

definition BufferedReader_Interrupt :: "('s \<Rightarrow> 's) option \<Rightarrow> ('s \<Rightarrow> goerr option \<times> 's) option \<Rightarrow> 's \<Rightarrow> 's" where
  "BufferedReader_Interrupt interrupt close s = snd (common_Interrupt interrupt close s)"

subsection \<open>Closing a gRPC stream\<close>

text \<open>
  The cancel function may be nil; \<open>CloseSend\<close> exists on client streams and returns an error or nil.
\<close>

datatype stream_call = CancelContext | CloseSend

record stream_closers =
  sc_cancel :: bool
  sc_close_send :: "goerr option option"

definition HunkReaderWriter_Close :: "stream_closers \<Rightarrow> stream_call list \<times> hunk_rw \<Rightarrow> goerr option \<times> stream_call list \<times> hunk_rw" where
  "HunkReaderWriter_Close sc s =
     (let (calls, h) = s; calls = calls @ (if sc_cancel sc then [CancelContext] else []) in
      case sc_close_send sc of
        Some err \<Rightarrow> (err, calls @ [CloseSend], h)
      | None \<Rightarrow> (None, calls, h\<lparr>hk_done := True\<rparr>))"

definition MultiHunk_Close :: "stream_closers \<Rightarrow> stream_call list \<times> multi_rw \<Rightarrow> goerr option \<times> stream_call list \<times> multi_rw" where
  "MultiHunk_Close sc s =
     (let (calls, h) = s; calls = calls @ (if sc_cancel sc then [CancelContext] else []) in
      case sc_close_send sc of
        Some err \<Rightarrow> (err, calls @ [CloseSend], h)
      | None \<Rightarrow> (None, calls, h\<lparr>mh_done := True\<rparr>))"

subsection \<open>cnc/connection.go: Close\<close>

text \<open>
  The connection is its done flag and the objects behind it, with what interrupts its reader and closes its
  writer and itself.
\<close>

definition connection_Close ::
  "('s \<Rightarrow> 's) \<Rightarrow> ('s \<Rightarrow> goerr option \<times> 's) option \<Rightarrow> ('s \<Rightarrow> goerr option \<times> 's) option \<Rightarrow> bool \<times> 's \<Rightarrow> goerr option \<times> bool \<times> 's" where
  "connection_Close interrupt writer_close onClose c =
     (let (isdone, s) = c;
          (_, s1) = common_Interrupt (Some interrupt) None s;
          (_, s2) = common_Close writer_close s1
      in case onClose of
           Some f \<Rightarrow> (let (err, s3) = f s2 in (err, True, s3))
         | None \<Rightarrow> (None, True, s2))"

text \<open>\<open>NewHunkConn\<close>: the writer is a sequential one, which has no \<open>Close\<close>; reader and \<open>onClose\<close> are the stream.\<close>

definition cnc_Close :: "stream_closers \<Rightarrow> stream_call list \<times> cnc \<Rightarrow> goerr option \<times> stream_call list \<times> cnc" where
  "cnc_Close sc c =
     (let (err, isdone, calls, h) =
        connection_Close (BufferedReader_Interrupt None (Some (HunkReaderWriter_Close sc))) None (Some (HunkReaderWriter_Close sc))
          (cn_done (snd c), fst c, cn_stream (snd c))
      in (err, calls, (snd c)\<lparr>cn_done := isdone, cn_stream := h\<rparr>))"

text \<open>\<open>NewMultiHunkConn\<close>: reader, writer and \<open>onClose\<close> are the stream.\<close>

definition mc_Close :: "stream_closers \<Rightarrow> stream_call list \<times> multi_cnc \<Rightarrow> goerr option \<times> stream_call list \<times> multi_cnc" where
  "mc_Close sc c =
     (let (err, isdone, calls, h) =
        connection_Close (BufferedReader_Interrupt None (Some (MultiHunk_Close sc))) (Some (MultiHunk_Close sc)) (Some (MultiHunk_Close sc))
          (mc_done (snd c), fst c, mc_stream (snd c))
      in (err, calls, (snd c)\<lparr>mc_done := isdone, mc_stream := h\<rparr>))"

text \<open>\<open>websocket/connection.go\<close>: both the close message and the close of the socket are tried.\<close>

definition xws_Close :: "goerr option \<Rightarrow> goerr option \<Rightarrow> xerror option" where
  "xws_Close control_err close_err =
     (let errorss = (case control_err of None \<Rightarrow> [] | Some e \<Rightarrow> [ErrorValue (err_text e)])
                  @ (case close_err of None \<Rightarrow> [] | Some e \<Rightarrow> [ErrorValue (err_text e)])
      in if errorss \<noteq> [] then
           Some (Base (Some (NewError [StringValue (serial_Concat errorss)])) (NewError [StringValue ''failed to close connection'']))
         else None)"

lemma xws_Close_iff: "xws_Close c s = None \<longleftrightarrow> c = None \<and> s = None"
  by (cases c; cases s) (simp_all add: xws_Close_def)

subsection \<open>Sequences of operations\<close>

text \<open>
  What may happen to a connection: the program reads, writes and closes, with the outcomes of the calls on the gRPC library as
  arguments; the library delivers other messages and another end than before (as it does once the context is cancelled).
\<close>

datatype 'm conn_op =
    OpRead "nat \<Rightarrow> bytes" nat
  | OpWrite "nat \<Rightarrow> bytes" "goerr option" bytes
  | OpClose stream_closers
  | OpDeliver "'m list" goerr

datatype op_result =
    ReadResult "bytes res"
  | WriteResult "goerr option res"
  | CloseResult "goerr option"
  | NoResult

fun cnc_step :: "(bytes \<times> bytes) conn_op \<Rightarrow> stream_call list \<times> cnc \<Rightarrow> op_result \<times> stream_call list \<times> cnc" where
  "cnc_step (OpRead pool n) (calls, c) = (case cnc_Read (pool 0) n c of (r, c') \<Rightarrow> (ReadResult r, calls, c'))"
| "cnc_step (OpWrite pool serr b) (calls, c) =
     (case cnc_Write pool serr b c of
        Inl e \<Rightarrow> (WriteResult (Inl e), calls, c)
      | Inr (err, c') \<Rightarrow> (WriteResult (Inr err), calls, c'))"
| "cnc_step (OpClose sc) (calls, c) = (case cnc_Close sc (calls, c) of (err, s') \<Rightarrow> (CloseResult err, s'))"
| "cnc_step (OpDeliver ms e) (calls, c) = (NoResult, calls, c\<lparr>cn_stream := (cn_stream c)\<lparr>hk_recv := ms, hk_end := e\<rparr>\<rparr>)"

fun mc_step :: "piece list conn_op \<Rightarrow> stream_call list \<times> multi_cnc \<Rightarrow> op_result \<times> stream_call list \<times> multi_cnc" where
  "mc_step (OpRead pool n) (calls, c) = (case mc_Read pool n c of (r, c') \<Rightarrow> (ReadResult r, calls, c'))"
| "mc_step (OpWrite pool serr b) (calls, c) =
     (case mc_Write pool serr b c of
        Inl e \<Rightarrow> (WriteResult (Inl e), calls, c)
      | Inr (err, c') \<Rightarrow> (WriteResult (Inr err), calls, c'))"
| "mc_step (OpClose sc) (calls, c) = (case mc_Close sc (calls, c) of (err, s') \<Rightarrow> (CloseResult err, s'))"
| "mc_step (OpDeliver ms e) (calls, c) = (NoResult, calls, c\<lparr>mc_stream := (mc_stream c)\<lparr>mh_recv := ms, mh_end := e\<rparr>\<rparr>)"

fun run_ops :: "('o \<Rightarrow> 's \<Rightarrow> 'r \<times> 's) \<Rightarrow> 'o list \<Rightarrow> 's \<Rightarrow> 'r list \<times> 's" where
  "run_ops step [] s = ([], s)"
| "run_ops step (op # ops) s = (case step op s of (r, s1) \<Rightarrow> (case run_ops step ops s1 of (rs, s2) \<Rightarrow> (r # rs, s2)))"

text \<open>How a closed connection answers.\<close>

fun refused :: "'m conn_op \<Rightarrow> op_result \<Rightarrow> bool" where
  "refused (OpWrite pool serr b) r \<longleftrightarrow> r = WriteResult (Inr (Some ClosedPipe))"
| "refused _ r \<longleftrightarrow> True"

text \<open>
  The contract of a connection that can be closed: \<open>Close\<close> closes it, it stays closed, and what it does
  while closed sends nothing and refuses writes.
\<close>

locale closable =
  fixes step :: "'m conn_op \<Rightarrow> 's \<Rightarrow> op_result \<times> 's"
    and closed :: "'s \<Rightarrow> bool"
    and sent :: "'s \<Rightarrow> 'a"
  assumes close_closes: "step (OpClose sc) s = (r, s') \<Longrightarrow> closed s' \<and> sent s' = sent s"
    and closed_step: "closed s \<Longrightarrow> step op s = (r, s') \<Longrightarrow> closed s' \<and> sent s' = sent s \<and> refused op r"
begin

lemma closed_run:
  assumes "closed s" and "run_ops step ops s = (rs, s')"
  shows "closed s' \<and> sent s' = sent s \<and> list_all2 refused ops rs"
  using assms
proof (induction ops arbitrary: s rs s')
  case (Cons op ops)
  obtain r s1 where st: "step op s = (r, s1)" by (cases "step op s")
  obtain rs1 s2 where run: "run_ops step ops s1 = (rs1, s2)" by (cases "run_ops step ops s1")
  from closed_step [OF Cons.prems(1) st] Cons.IH [OF _ run] Cons.prems(2) st run show ?case by auto
qed simp

lemma silent_after_close:
  assumes "run_ops step (OpClose sc # ops) s = (r # rs, s')"
  shows "sent s' = sent s \<and> list_all2 refused ops rs"
proof -
  obtain r1 s1 where st: "step (OpClose sc) s = (r1, s1)" by (cases "step (OpClose sc) s")
  then have "run_ops step ops s1 = (rs, s')" using assms by (auto split: prod.splits)
  from closed_run [OF _ this] close_closes [OF st] show ?thesis by simp
qed

end

text \<open>Reading does not send.\<close>

lemma hunk_Read_sent: "hunk_Read n h = Inr (data, err, h') \<Longrightarrow> hk_sent h' = hk_sent h"
  by (auto simp: hunk_Read_def fetch_if_def forceFetch_def Let_def split: if_splits list.splits option.splits prod.splits)

lemma fetch_if_sent: "fetch_if h = (err, h') \<Longrightarrow> hk_sent h' = hk_sent h"
  by (auto simp: fetch_if_def forceFetch_def split: if_splits list.splits)

lemma hunk_ReadMultiBuffer_sent: "hunk_ReadMultiBuffer pooled h = Inr (mb, err, h') \<Longrightarrow> hk_sent h' = hk_sent h"
  by (auto simp: hunk_ReadMultiBuffer_def buf_ReadFrom_def dest!: hunk_Read_sent fetch_if_sent
      split: if_splits option.splits prod.splits)

lemma multi_ReadMultiBuffer_sent: "multi_ReadMultiBuffer pool h = Inr (mb, err, h') \<Longrightarrow> mh_sent h' = mh_sent h"
  by (auto simp: multi_ReadMultiBuffer_def multi_forceFetch_def split: if_splits list.splits prod.splits sum.splits)

lemma buffered_Read_frame:
  assumes "\<And>s mb err s'. src s = Inr (mb, err, s') \<Longrightarrow> g s' = g s" and "buffered_Read src n (buffer, s) = (r, buffer', s')"
  shows "g s' = g s"
  using assms(2)
  by (auto simp: buffered_Read_def BufferedReader_Read_def dest: assms(1) split: if_splits sum.splits option.splits prod.splits)

lemma cnc_Read_frame: "cnc_Read pooled n c = (r, c') \<Longrightarrow> cn_done c' = cn_done c \<and> hk_sent (cn_stream c') = hk_sent (cn_stream c)"
  by (auto simp: cnc_Read_def split: prod.splits dest!: buffered_Read_frame [where g = hk_sent, rotated] hunk_ReadMultiBuffer_sent)

lemma mc_Read_frame: "mc_Read pool n c = (r, c') \<Longrightarrow> mc_done c' = mc_done c \<and> mh_sent (mc_stream c') = mh_sent (mc_stream c)"
  by (auto simp: mc_Read_def split: prod.splits dest!: buffered_Read_frame [where g = mh_sent, rotated] multi_ReadMultiBuffer_sent)

lemmas close_defs = cnc_Close_def mc_Close_def connection_Close_def common_Interrupt_def common_Close_def
  BufferedReader_Interrupt_def HunkReaderWriter_Close_def MultiHunk_Close_def Let_def

lemma cnc_Close_frame: "cnc_Close sc s = (err, s') \<Longrightarrow> cn_done (snd s') \<and> hk_sent (cn_stream (snd s')) = hk_sent (cn_stream (snd s))"
  by (auto simp: close_defs split: prod.splits option.splits)

lemma mc_Close_frame: "mc_Close sc s = (err, s') \<Longrightarrow> mc_done (snd s') \<and> mh_sent (mc_stream (snd s')) = mh_sent (mc_stream (snd s))"
  by (auto simp: close_defs split: prod.splits option.splits)

interpretation cnc: closable cnc_step "\<lambda>(calls, c). cn_done c" "\<lambda>(calls, c). hk_sent (cn_stream c)"
proof unfold_locales
  fix op s r s'
  assume "case s of (calls, c) \<Rightarrow> cn_done c" "cnc_step op s = (r, s')"
  then show "(case s' of (calls, c) \<Rightarrow> cn_done c)
    \<and> (case s' of (calls, c) \<Rightarrow> hk_sent (cn_stream c)) = (case s of (calls, c) \<Rightarrow> hk_sent (cn_stream c)) \<and> refused op r"
    by (cases op; cases s) (auto simp: cnc_Write_def dest: cnc_Read_frame cnc_Close_frame split: prod.splits sum.splits)
next
  fix sc s r s'
  assume "cnc_step (OpClose sc) s = (r, s')"
  then show "(case s' of (calls, c) \<Rightarrow> cn_done c)
    \<and> (case s' of (calls, c) \<Rightarrow> hk_sent (cn_stream c)) = (case s of (calls, c) \<Rightarrow> hk_sent (cn_stream c))"
    using cnc_Close_frame [of sc s] by (cases s) (auto split: prod.splits)
qed

interpretation mc: closable mc_step "\<lambda>(calls, c). mc_done c" "\<lambda>(calls, c). mh_sent (mc_stream c)"
proof unfold_locales
  fix op s r s'
  assume "case s of (calls, c) \<Rightarrow> mc_done c" "mc_step op s = (r, s')"
  then show "(case s' of (calls, c) \<Rightarrow> mc_done c)
    \<and> (case s' of (calls, c) \<Rightarrow> mh_sent (mc_stream c)) = (case s of (calls, c) \<Rightarrow> mh_sent (mc_stream c)) \<and> refused op r"
    by (cases op; cases s) (auto simp: mc_Write_def dest: mc_Read_frame mc_Close_frame split: prod.splits sum.splits)
next
  fix sc s r s'
  assume "mc_step (OpClose sc) s = (r, s')"
  then show "(case s' of (calls, c) \<Rightarrow> mc_done c)
    \<and> (case s' of (calls, c) \<Rightarrow> mh_sent (mc_stream c)) = (case s of (calls, c) \<Rightarrow> mh_sent (mc_stream c))"
    using mc_Close_frame [of sc s] by (cases s) (auto split: prod.splits)
qed

subsection \<open>What Close calls\<close>

text \<open>
  \<open>dialgRPC\<close> gives no cancel function, and its stream has a \<open>CloseSend\<close>: closing ends the sending side of the stream, twice
  for one piece per message and three times for many. The stream is neither cancelled nor marked done, only the flag of the
  connection stops later writes; a read that waits for the peer goes on waiting.
\<close>

lemma cnc_Close_calls:
  "cnc_Close \<lparr>sc_cancel = False, sc_close_send = Some err\<rparr> (calls, c) = (err, calls @ [CloseSend, CloseSend], c\<lparr>cn_done := True\<rparr>)"
  by (simp add: close_defs)

lemma mc_Close_calls:
  "mc_Close \<lparr>sc_cancel = False, sc_close_send = Some err\<rparr> (calls, c) = (err, calls @ [CloseSend, CloseSend, CloseSend], c\<lparr>mc_done := True\<rparr>)"
  by (simp add: close_defs)

text \<open>
  Once \<open>Close\<close> has been called on a connection over a gRPC stream, with one piece per message or with many, whatever is done
  with it afterwards (reads, writes, further closes) and whatever the gRPC library delivers meanwhile: nothing more is sent on the
  stream, and every write returns \<open>io.ErrClosedPipe\<close>.
\<close>

lemma closed_connections_silent:
  assumes "run_ops cnc_step (OpClose sc # ops) (calls, c) = (r # rs, calls', c')"
    and "run_ops mc_step (OpClose msc # mops) (mcalls, m) = (mr # mrs, mcalls', m')"
  shows "hk_sent (cn_stream c') = hk_sent (cn_stream c) \<and> list_all2 refused ops rs
    \<and> mh_sent (mc_stream m') = mh_sent (mc_stream m) \<and> list_all2 refused mops mrs"
  using cnc.silent_after_close [OF assms(1)] mc.silent_after_close [OF assms(2)] by simp

definition demo_hunk :: hunk_rw where
  "demo_hunk = \<lparr>hk_buf = ([], []), hk_index = 0, hk_recv = [([1, 2], [])], hk_end = EOF, hk_done = False, hk_sent = [[7]]\<rparr>"

definition demo_multi :: multi_rw where
  "demo_multi = \<lparr>mh_recv = [[([1], []), ([2], [])]], mh_end = EOF, mh_done = False, mh_sent = [[[7]]]\<rparr>"

lemma closed_connections_silent_witness:
  "\<exists>r rs calls c mr mrs mcalls m.
     run_ops cnc_step [OpClose \<lparr>sc_cancel = True, sc_close_send = Some None\<rparr>, OpWrite (\<lambda>_. []) None [9], OpRead (\<lambda>_. []) 4] ([], NewConnection demo_hunk)
       = (r # rs, calls, c)
     \<and> run_ops mc_step [OpClose \<lparr>sc_cancel = False, sc_close_send = None\<rparr>, OpWrite (\<lambda>_. []) None [9]] ([], NewMultiHunkConn demo_multi) = (mr # mrs, mcalls, m)
     \<and> hk_sent (cn_stream c) = [[7]] \<and> hd rs = WriteResult (Inr (Some ClosedPipe))
     \<and> mh_sent (mc_stream m) = [[[7]]] \<and> hd mrs = WriteResult (Inr (Some ClosedPipe))"
proof -
  let ?o = "OpClose \<lparr>sc_cancel = True, sc_close_send = Some None\<rparr>" and ?m = "OpClose \<lparr>sc_cancel = False, sc_close_send = None\<rparr>"
  have first: "\<exists>r rs s'. run_ops step (op # ops) s = (r # rs, s')" for step op ops s
    by (simp split: prod.splits)
  obtain r rs calls c where run: "run_ops cnc_step [?o, OpWrite (\<lambda>_. []) None [9], OpRead (\<lambda>_. []) 4] ([], NewConnection demo_hunk) = (r # rs, calls, c)"
    using first [of cnc_step] by (metis surj_pair)
  obtain mr mrs mcalls m where mrun: "run_ops mc_step [?m, OpWrite (\<lambda>_. []) None [9]] ([], NewMultiHunkConn demo_multi) = (mr # mrs, mcalls, m)"
    using first [of mc_step] by (metis surj_pair)
  have "hk_sent (cn_stream (NewConnection demo_hunk)) = [[7]]" "mh_sent (mc_stream (NewMultiHunkConn demo_multi)) = [[[7]]]"
    by (simp_all add: NewConnection_def NewMultiHunkConn_def demo_hunk_def demo_multi_def)
  with closed_connections_silent [OF run mrun] run mrun show ?thesis by (auto simp: list_all2_Cons1)
qed

end
