(* ===== verification/WebApi.thy ===== *)
theory WebApi
  imports AppPublish Settings
begin

section \<open>The management API (internal/service/web)\<close>

text \<open>
  The handlers reach the application through the interface \<open>ServerController\<close>, which is the record
  \<open>controller\<close> here, over any type of states; the application server is plugged in as
  \<open>app_controller\<close>. A request holds what the handlers look at: the outcomes of reading and of
  decoding the body are fields, since JSON decoding gives the handlers nothing but a value or
  an error. The locale \<open>lawful_controller\<close> is the contract of the interface: its operations are
  steps of the application, and one that fails changes nothing.
\<close>

subsection \<open>Requests, responses and the controller\<close>

record request =
  rq_method :: string
  rq_path :: string
  rq_query :: "string gomap"
  rq_auth :: "(string \<times> string) option"
  rq_read :: "goerr option"
  rq_json :: json_msg
  rq_profile :: "server_profile res"

record status_response =
  st_global :: string
  st_runtime :: "(string \<times> listener_info option) list"
  st_health :: "(string \<times> health_status) list"
  st_metrics :: "(string \<times> metrics option) list"

datatype payload = PNone | PText string | PProfiles "server_profile list" | PSettings "gateway_settings \<times> routing_settings"
  | PClients "string list" | PStatus status_response | PFile string

record response =
  rp_status :: nat
  rp_payload :: payload

record 'a controller =
  ct_states :: "'a \<Rightarrow> server_states"
  ct_set_active :: "string \<Rightarrow> bool \<Rightarrow> 'a \<Rightarrow> unit res \<times> 'a"
  ct_profiles :: "'a \<Rightarrow> server_profile list"
  ct_add :: "server_profile \<Rightarrow> 'a \<Rightarrow> unit res \<times> 'a"
  ct_update :: "string \<Rightarrow> server_profile \<Rightarrow> 'a \<Rightarrow> unit res \<times> 'a"
  ct_delete :: "string \<Rightarrow> 'a \<Rightarrow> unit res \<times> 'a"
  ct_recent :: "'a \<Rightarrow> string list"

text \<open>The state behind the handlers: the application and the settings manager.\<close>

type_synonym 'a web = "'a \<times> settings_manager"

definition http_error :: "nat \<Rightarrow> string \<Rightarrow> response" where
  "http_error code msg = \<lparr>rp_status = code, rp_payload = PText msg\<rparr>"

definition ok_with :: "payload \<Rightarrow> response" where
  "ok_with p = \<lparr>rp_status = 200, rp_payload = p\<rparr>"

definition query_get :: "string \<Rightarrow> request \<Rightarrow> string" where
  "query_get k rq = (case gm_get (rq_query rq) k of None \<Rightarrow> [] | Some v \<Rightarrow> v)"

text \<open>\<open>strconv.ParseBool\<close>.\<close>

definition parse_bool :: "string \<Rightarrow> bool option" where
  "parse_bool s =
     (if s \<in> {''1'', ''t'', ''T'', ''true'', ''TRUE'', ''True''} then Some True
      else if s \<in> {''0'', ''f'', ''F'', ''false'', ''FALSE'', ''False''} then Some False
      else None)"

subsection \<open>handler.go\<close>

definition getServers :: "'a controller \<Rightarrow> 'a \<Rightarrow> response" where
  "getServers ct a = ok_with (PProfiles (ct_profiles ct a))"

text \<open>\<open>uid\<close> is the UUID drawn for the new profile.\<close>

definition addServer :: "'a controller \<Rightarrow> string \<Rightarrow> request \<Rightarrow> 'a \<Rightarrow> response \<times> 'a" where
  "addServer ct uid rq a =
     (case rq_profile rq of
        Inl e \<Rightarrow> (http_error 400 ''Invalid JSON format'', a)
      | Inr newProfile \<Rightarrow>
          (case ct_add ct (newProfile\<lparr>pf_id := uid, pf_active := False\<rparr>) a of
             (Inl e, a') \<Rightarrow> (http_error 500 (''Failed to add server: '' @ err_text e), a')
           | (Inr _, a') \<Rightarrow> (\<lparr>rp_status = 201, rp_payload = PNone\<rparr>, a')))"

definition updateServer :: "'a controller \<Rightarrow> request \<Rightarrow> 'a \<Rightarrow> response \<times> 'a" where
  "updateServer ct rq a =
     (let sid = query_get ''id'' rq in
      if sid = [] then (http_error 400 ''Missing server ID'', a)
      else case rq_profile rq of
        Inl e \<Rightarrow> (http_error 400 ''Invalid JSON format'', a)
      | Inr updatedProfile \<Rightarrow>
          (case ct_update ct sid (updatedProfile\<lparr>pf_id := sid\<rparr>) a of
             (Inl e, a') \<Rightarrow> (http_error 500 (''Failed to update server: '' @ err_text e), a')
           | (Inr _, a') \<Rightarrow> (ok_with PNone, a')))"

definition deleteServer :: "'a controller \<Rightarrow> request \<Rightarrow> 'a \<Rightarrow> response \<times> 'a" where
  "deleteServer ct rq a =
     (let sid = query_get ''id'' rq in
      if sid = [] then (http_error 400 ''Missing server ID'', a)
      else case ct_delete ct sid a of
        (Inl e, a') \<Rightarrow> (http_error 500 (''Failed to delete server: '' @ err_text e), a')
      | (Inr _, a') \<Rightarrow> (ok_with PNone, a'))"

definition HandleServers :: "'a controller \<Rightarrow> string \<Rightarrow> request \<Rightarrow> 'a \<Rightarrow> response \<times> 'a" where
  "HandleServers ct uid rq a =
     (if rq_method rq = ''GET'' then (getServers ct a, a)
      else if rq_method rq = ''POST'' then addServer ct uid rq a
      else if rq_method rq = ''PUT'' then updateServer ct rq a
      else if rq_method rq = ''DELETE'' then deleteServer ct rq a
      else (http_error 405 ''Method not allowed'', a))"

definition HandleSetServerActiveState :: "'a controller \<Rightarrow> request \<Rightarrow> 'a \<Rightarrow> response \<times> 'a" where
  "HandleSetServerActiveState ct rq a =
     (if rq_method rq \<noteq> ''POST'' then (http_error 405 ''Method not allowed'', a)
      else case parse_bool (query_get ''active'' rq) of
        None \<Rightarrow> (http_error 400 ''Invalid parameters'', a)
      | Some active \<Rightarrow>
          if query_get ''id'' rq = [] then (http_error 400 ''Invalid parameters'', a)
          else case ct_set_active ct (query_get ''id'' rq) active a of
            (Inl e, a') \<Rightarrow> (http_error 500 (''Failed to update server active state: '' @ err_text e), a')
          | (Inr _, a') \<Rightarrow> (ok_with PNone, a'))"

text \<open>\<open>global\<close> is the status line of \<open>globalstate\<close>.\<close>

definition HandleStatus :: "'a controller \<Rightarrow> string \<Rightarrow> 'a \<Rightarrow> response" where
  "HandleStatus ct global a =
     (let states = ct_states ct a in
      ok_with (PStatus
        \<lparr>st_global = global,
         st_runtime = List.map_filter (\<lambda>(sid, s). map_option (\<lambda>li. (sid, li)) (ss_instance s)) states,
         st_health = map (\<lambda>(sid, s). (sid, ss_health s)) states,
         st_metrics = map (\<lambda>(sid, s). (sid, ss_metrics s)) states\<rparr>))"

definition HandleGetSettings :: "request \<Rightarrow> settings_manager \<Rightarrow> response" where
  "HandleGetSettings rq m =
     (if rq_method rq \<noteq> ''GET'' then http_error 405 ''Method not allowed'' else ok_with (PSettings (settings_view m)))"

text \<open>\<open>wres\<close> is the outcome of writing the settings file.\<close>

definition HandleUpdateSettings :: "write_result \<Rightarrow> request \<Rightarrow> settings_manager \<Rightarrow> response \<times> settings_manager" where
  "HandleUpdateSettings wres rq m =
     (if rq_method rq \<noteq> ''POST'' then (http_error 405 ''Method not allowed'', m)
      else
        (let moduleKey = trim_prefix (rq_path rq) ''/api/settings/'' in
         if moduleKey = [] then (http_error 400 ''Module key is missing in URL path'', m)
         else case rq_read rq of
           Some e \<Rightarrow> (http_error 500 ''Failed to read request body'', m)
         | None \<Rightarrow>
             (case settings_update wres moduleKey (rq_json rq) m of
                (Inl e, m') \<Rightarrow>
                  (http_error (if contains_str (err_text e) ''unknown settings module'' then 404
                               else if contains_str (err_text e) ''failed to parse JSON'' then 400 else 500) (err_text e), m')
              | (Inr _, m') \<Rightarrow> (ok_with (PText ''{\"message\": \"Settings updated successfully\"}''), m'))))"

definition configured_ips :: "routing_settings \<Rightarrow> string set" where
  "configured_ips r = (\<Union>rule \<in> set (filter (\<lambda>rule. ru_type rule = ''source_ip'') (rt_rules r)). set (ru_value rule))"

definition HandleGetClients :: "'a controller \<Rightarrow> request \<Rightarrow> 'a web \<Rightarrow> response" where
  "HandleGetClients ct rq w =
     (if rq_method rq \<noteq> ''GET'' then http_error 405 ''Method not allowed''
      else ok_with (PClients (filter (\<lambda>ip. ip \<notin> configured_ips (snd (settings_view (snd w)))) (ct_recent ct (fst w)))))"

subsection \<open>server.go\<close>

definition basicAuthMiddleware :: "string \<Rightarrow> string \<Rightarrow> (request \<Rightarrow> 's \<Rightarrow> response \<times> 's) \<Rightarrow> request \<Rightarrow> 's \<Rightarrow> response \<times> 's" where
  "basicAuthMiddleware user pass handler rq s =
     (if user = [] \<or> pass = [] then handler rq s
      else case rq_auth rq of
        None \<Rightarrow> (\<lparr>rp_status = 401, rp_payload = PText ''Unauthorized.\<newline>''\<rparr>, s)
      | Some (u, p) \<Rightarrow>
          if u \<noteq> user \<or> p \<noteq> pass then (\<lparr>rp_status = 401, rp_payload = PText ''Unauthorized.\<newline>''\<rparr>, s)
          else handler rq s)"

text \<open>What the server is configured with, and what it reads from outside for one request.\<close>

record web_env =
  we_user :: string
  we_pass :: string
  we_uid :: string
  we_global :: string
  we_wres :: write_result
  we_static :: "string \<Rightarrow> response"
  we_index :: "string res"

definition rootHandler :: "web_env \<Rightarrow> request \<Rightarrow> response" where
  "rootHandler env rq =
     (if rq_path rq = ''/'' \<or> has_prefix (rq_path rq) ''/settings'' then
        (case we_index env of
           Inl e \<Rightarrow> http_error 500 ''Could not load index.html''
         | Inr index \<Rightarrow> ok_with (PFile index))
      else http_error 404 ''404 page not found'')"

text \<open>The routes of the mux, for a clean path: an exact pattern, or the longest one that ends in a slash.\<close>

definition serve :: "'a controller \<Rightarrow> web_env \<Rightarrow> request \<Rightarrow> 'a web \<Rightarrow> response \<times> 'a web" where
  "serve ct env rq w =
     (let auth = basicAuthMiddleware (we_user env) (we_pass env) in
      if rq_path rq = ''/api/servers'' then
        auth (\<lambda>rq (a, m). let (r, a') = HandleServers ct (we_uid env) rq a in (r, (a', m))) rq w
      else if rq_path rq = ''/api/servers/set_active_state'' then
        auth (\<lambda>rq (a, m). let (r, a') = HandleSetServerActiveState ct rq a in (r, (a', m))) rq w
      else if rq_path rq = ''/api/settings'' then
        auth (\<lambda>rq (a, m). (HandleGetSettings rq m, (a, m))) rq w
      else if has_prefix (rq_path rq) ''/api/settings/'' then
        auth (\<lambda>rq (a, m). let (r, m') = HandleUpdateSettings (we_wres env) rq m in (r, (a, m'))) rq w
      else if rq_path rq = ''/api/clients'' then
        auth (\<lambda>rq w. (HandleGetClients ct rq w, w)) rq w
      else if rq_path rq = ''/api/status'' then (HandleStatus ct (we_global env) (fst w), w)
      else if has_prefix (rq_path rq) ''/static/'' then (we_static env (drop 8 (rq_path rq)), w)
      else auth (\<lambda>rq w. (rootHandler env rq, w)) rq w)"

text \<open>
  \<open>StartServer\<close> gives the address on which requests are served, if any: a port that is not positive disables the web interface, and a
  failure to listen is only logged. The credentials are those of the configuration.
\<close>

definition StartServer :: "(string \<Rightarrow> goerr option) \<Rightarrow> app_config \<Rightarrow> string option" where
  "StartServer listen cfg =
     (if cf_web_port cfg \<le> 0 then None
      else let addr = ''0.0.0.0:'' @ itoa (cf_web_port cfg) in
        case listen addr of Some err \<Rightarrow> None | None \<Rightarrow> Some addr)"

definition web_request :: "(string \<Rightarrow> goerr option) \<Rightarrow> app_config \<Rightarrow> 'a controller \<Rightarrow> web_env \<Rightarrow> request \<Rightarrow> 'a web \<Rightarrow> (response \<times> 'a web) option" where
  "web_request listen cfg ct env rq w =
     (case StartServer listen cfg of
        None \<Rightarrow> None
      | Some addr \<Rightarrow> Some (serve ct (env\<lparr>we_user := cf_web_user cfg, we_pass := cf_web_password cfg\<rparr>) rq w))"

lemma web_request_served:
  "web_request listen cfg ct env rq w = Some r \<Longrightarrow>
     0 < cf_web_port cfg \<and> r = serve ct (env\<lparr>we_user := cf_web_user cfg, we_pass := cf_web_password cfg\<rparr>) rq w"
  by (auto simp: web_request_def StartServer_def split: if_splits option.splits)

subsection \<open>globalstate/state_manager.go\<close>

text \<open>The status text of the process, which \<open>HandleStatus\<close> returns (\<open>we_global\<close>).\<close>

type_synonym status_manager = string

definition GlobalStatus :: status_manager where
  "GlobalStatus = ''Initializing...''"

definition status_Set :: "string \<Rightarrow> status_manager \<Rightarrow> status_manager" where
  "status_Set newStatus sm = newStatus"

definition status_Get :: "status_manager \<Rightarrow> string" where
  "status_Get sm = sm"

subsection \<open>What the handlers do to the application\<close>

lemma addServer_snd: "snd (addServer ct uid rq a) =
    (case rq_profile rq of Inl e \<Rightarrow> a | Inr p \<Rightarrow> snd (ct_add ct (p\<lparr>pf_id := uid, pf_active := False\<rparr>) a))"
  by (auto simp: addServer_def split: sum.splits prod.splits)

lemma updateServer_snd: "snd (updateServer ct rq a) =
    (if query_get ''id'' rq = [] then a
     else case rq_profile rq of Inl e \<Rightarrow> a | Inr p \<Rightarrow> snd (ct_update ct (query_get ''id'' rq) (p\<lparr>pf_id := query_get ''id'' rq\<rparr>) a))"
  by (auto simp: updateServer_def Let_def split: sum.splits prod.splits)

lemma deleteServer_snd: "snd (deleteServer ct rq a) =
    (if query_get ''id'' rq = [] then a else snd (ct_delete ct (query_get ''id'' rq) a))"
  by (auto simp: deleteServer_def Let_def split: sum.splits prod.splits)

lemma set_active_snd: "snd (HandleSetServerActiveState ct rq a) =
    (if rq_method rq \<noteq> ''POST'' \<or> query_get ''id'' rq = [] then a
     else case parse_bool (query_get ''active'' rq) of
       None \<Rightarrow> a | Some b \<Rightarrow> snd (ct_set_active ct (query_get ''id'' rq) b a))"
  by (auto simp: HandleSetServerActiveState_def split: sum.splits prod.splits option.splits)

lemma basicAuth_cases:
  "basicAuthMiddleware user pass h rq s =
     (if user = [] \<or> pass = [] \<or> rq_auth rq = Some (user, pass) then h rq s
      else (\<lparr>rp_status = 401, rp_payload = PText ''Unauthorized.\<newline>''\<rparr>, s))"
  by (auto simp: basicAuthMiddleware_def split: option.splits)

lemma serve_fst_cases:
  "fst (snd (serve ct env rq (a, m))) = a
   \<or> snd (serve ct env rq (a, m)) = (snd (HandleServers ct (we_uid env) rq a), m) \<and> fst (serve ct env rq (a, m)) = fst (HandleServers ct (we_uid env) rq a)
   \<or> snd (serve ct env rq (a, m)) = (snd (HandleSetServerActiveState ct rq a), m) \<and> fst (serve ct env rq (a, m)) = fst (HandleSetServerActiveState ct rq a)"
  unfolding serve_def Let_def basicAuth_cases by (simp add: case_prod_beta)

subsection \<open>The contract of the controller\<close>

locale lawful_controller =
  fixes ct :: "'a controller"
    and reach :: "'a \<Rightarrow> 'a \<Rightarrow> bool"
  assumes reach_refl: "reach a a"
    and set_active_step: "reach a (snd (ct_set_active ct k b a))"
    and add_step: "reach a (snd (ct_add ct p a))"
    and update_step: "pf_id p = k \<Longrightarrow> reach a (snd (ct_update ct k p a))"
    and delete_step: "reach a (snd (ct_delete ct k a))"
    and set_active_atomic: "ct_set_active ct k b a = (Inl e, a') \<Longrightarrow> a' = a"
    and add_atomic: "ct_add ct p a = (Inl e, a') \<Longrightarrow> a' = a"
    and update_atomic: "ct_update ct k p a = (Inl e, a') \<Longrightarrow> a' = a"
    and delete_atomic: "ct_delete ct k a = (Inl e, a') \<Longrightarrow> a' = a"
begin

lemma HandleServers_step: "reach a (snd (HandleServers ct uid rq a))"
  by (simp add: HandleServers_def addServer_snd updateServer_snd deleteServer_snd add_step update_step delete_step reach_refl split: sum.split)

lemma set_active_handler_step: "reach a (snd (HandleSetServerActiveState ct rq a))"
  by (simp add: set_active_snd set_active_step reach_refl split: option.split)

lemma serve_step: "reach a (fst (snd (serve ct env rq (a, m))))"
  using serve_fst_cases [of ct env rq a m] HandleServers_step [of a "we_uid env" rq] set_active_handler_step [of a rq] reach_refl [of a] by auto

lemma HandleServers_rejects: "400 \<le> rp_status (fst (HandleServers ct uid rq a)) \<Longrightarrow> snd (HandleServers ct uid rq a) = a"
  by (auto simp: HandleServers_def addServer_def updateServer_def deleteServer_def ok_with_def Let_def
      split: if_splits sum.splits prod.splits dest: add_atomic update_atomic delete_atomic)

lemma set_active_rejects: "400 \<le> rp_status (fst (HandleSetServerActiveState ct rq a)) \<Longrightarrow> snd (HandleSetServerActiveState ct rq a) = a"
  by (auto simp: HandleSetServerActiveState_def ok_with_def split: if_splits sum.splits prod.splits option.splits dest: set_active_atomic)

lemma serve_rejects: "400 \<le> rp_status (fst (serve ct env rq (a, m))) \<Longrightarrow> fst (snd (serve ct env rq (a, m))) = a"
  using serve_fst_cases [of ct env rq a m] HandleServers_rejects [of "we_uid env" rq a] set_active_rejects [of rq a] by auto

end

subsection \<open>The application server as the controller\<close>

text \<open>
  \<open>srt\<close> is the sort by remarks and \<open>recent\<close> the dispatcher's list of client addresses.
\<close>

definition app_controller :: "env \<Rightarrow> (server_profile list \<Rightarrow> server_profile list) \<Rightarrow> string list \<Rightarrow> app controller" where
  "app_controller env srt recent =
     \<lparr>ct_states = GetServerStates, ct_set_active = UpdateServerActiveState env, ct_profiles = GetAllServerProfilesSorted srt,
      ct_add = AddServerProfile, ct_update = UpdateServerProfile env, ct_delete = DeleteServerProfile, ct_recent = (\<lambda>_. recent)\<rparr>"

interpretation app_web: lawful_controller "app_controller env srt recent" "app_steps env" for env srt recent
proof (unfold_locales, goal_cases)
  case (1 a)
  show ?case by (rule app_steps.refl)
next
  case (2 a k b)
  show ?case by (simp add: app_controller_def app_steps.step [OF app_steps.refl app_step.activate])
next
  case (3 a p)
  show ?case by (simp add: app_controller_def app_steps.step [OF app_steps.refl app_step.add])
next
  case (4 p k a)
  then show ?case by (simp add: app_controller_def app_steps.step [OF app_steps.refl app_step.update])
next
  case (5 a k)
  show ?case by (simp add: app_controller_def app_steps.step [OF app_steps.refl app_step.delete])
next
  case (6 k b a e a')
  then show ?case by (auto simp: app_controller_def UpdateServerActiveState_def split: option.splits if_splits)
next
  case (7 p a e a')
  then show ?case by (auto simp: app_controller_def AddServerProfile_def split: if_splits)
next
  case (8 k p a e a')
  then show ?case by (auto simp: app_controller_def UpdateServerProfile_def Let_def split: option.splits if_splits)
next
  case (9 k a e a')
  then show ?case by (auto simp: app_controller_def DeleteServerProfile_def Let_def split: option.splits)
qed




subsection \<open>Adding a server\<close>

lemma add_loaded_profiles:
  assumes "zone_ok a" and "gm_get (ap_config a) (pf_id p) = None"
  shows "(\<lambda>(sid, z). prof (add_loaded p a) z) ` set (ap_config (add_loaded p a)) = insert p ((\<lambda>(sid, z). prof a z) ` set (ap_config a))"
proof -
  have keys: "pf_id p \<notin> fst ` set (ap_config a)" using assms(2) by (simp add: map_of_eq_None_iff)
  then have cfg: "ap_config (add_loaded p a) = ap_config a @ [(pf_id p, new_state (length (ap_profiles a)))]"
    by (simp add: add_loaded_def Let_def put_state_def gm_put_new)
  have "zs_profile z < length (ap_profiles a)" if "(k, z) \<in> set (ap_config a)" for k z
    using zone_profile [OF assms(1), of k z] that zone_keys [OF assms(1)] by (simp add: map_of_is_SomeI)
  then have "(\<lambda>(sid, z). prof (add_loaded p a) z) ` set (ap_config a) = (\<lambda>(sid, z). prof a z) ` set (ap_config a)"
    by (intro image_cong) (auto simp: add_loaded_def Let_def put_state_def nth_append)
  moreover have "prof (add_loaded p a) (new_state (length (ap_profiles a))) = p"
    by (simp add: add_loaded_def Let_def put_state_def new_state_def)
  ultimately show ?thesis by (simp add: cfg)
qed

definition listed :: "payload \<Rightarrow> server_profile set" where
  "listed p = (case p of PProfiles ps \<Rightarrow> set ps | _ \<Rightarrow> {})"

text \<open>
  Adding a server through the API: a POST with a decodable profile is answered 201 and a GET
  that follows lists exactly the profiles listed before and the new one, under the UUID drawn
  for it and inactive, whatever id and state the client sent; the settings are untouched.
\<close>

lemma added_server_listed:
  assumes "loadConfigAndBootstrap env fresh path loaded (new_app file) = (Inr (), a0)" and "app_steps env a0 a"
    and "we_uid wenv \<noteq> []" and "gm_get (ap_config a) (we_uid wenv) = None"
    and "rq_auth post = Some (we_user wenv, we_pass wenv)" and "rq_path post = ''/api/servers''" and "rq_method post = ''POST''"
    and "rq_profile post = Inr p" and "get = post\<lparr>rq_method := ''GET''\<rparr>" and "\<And>xs. set (srt xs) = set xs"
    and "ct = app_controller env srt recent"
  shows "\<exists>a'. serve ct wenv post (a, m) = (\<lparr>rp_status = 201, rp_payload = PNone\<rparr>, (a', m))
       \<and> listed (rp_payload (fst (serve ct wenv get (a', m))))
         = insert (p\<lparr>pf_id := we_uid wenv, pf_active := False\<rparr>) (listed (rp_payload (fst (serve ct wenv get (a, m)))))"
proof -
  let ?p = "p\<lparr>pf_id := we_uid wenv, pf_active := False\<rparr>"
  let ?a = "start_job JPublishSave (add_loaded ?p a)"
  have zo: "zone_ok a" using reachable_good [OF assms(1,2)] by (simp add: good_def app_ok_def)
  have post: "serve ct wenv post (a, m) = (\<lparr>rp_status = 201, rp_payload = PNone\<rparr>, (?a, m))"
    using assms(3-8,11) by (simp add: serve_def basicAuth_cases HandleServers_def addServer_def app_controller_def AddServerProfile_def)
  have get: "listed (rp_payload (fst (serve ct wenv get (b, m)))) = (\<lambda>(sid, z). prof b z) ` set (ap_config b)" for b
    using assms(5-7,9-11) by (simp add: serve_def basicAuth_cases HandleServers_def getServers_def ok_with_def app_controller_def
        GetAllServerProfilesSorted_def listed_def)
  have "(\<lambda>(sid, z). prof ?a z) ` set (ap_config ?a) = insert ?p ((\<lambda>(sid, z). prof a z) ` set (ap_config a))"
    using add_loaded_profiles [OF zo, of ?p] assms(4) by (simp add: start_job_def)
  with post show ?thesis unfolding get by blast
qed

definition demo_request :: request where
  "demo_request = \<lparr>rq_method = ''POST'', rq_path = ''/api/servers'', rq_query = [], rq_auth = Some (''admin'', ''secret''), rq_read = None,
     rq_json = JMalformed, rq_profile = Inr blank_profile\<rparr>"

definition demo_web_env :: web_env where
  "demo_web_env = \<lparr>we_user = ''admin'', we_pass = ''secret'', we_uid = ''u7'', we_global = ''Connected'', we_wres = WriteOk,
     we_static = (\<lambda>_. http_error 404 ''404 page not found''), we_index = Inr ''<html>''\<rparr>"

lemma added_server_listed_witness:
  "\<exists>a'. serve (app_controller demo_env id []) demo_web_env demo_request (demo_app, demo_settings) = (\<lparr>rp_status = 201, rp_payload = PNone\<rparr>, (a', demo_settings))
     \<and> listed (rp_payload (fst (serve (app_controller demo_env id []) demo_web_env (demo_request\<lparr>rq_method := ''GET''\<rparr>) (a', demo_settings))))
       = insert (blank_profile\<lparr>pf_id := ''u7'', pf_active := False\<rparr>)
           (listed (rp_payload (fst (serve (app_controller demo_env id []) demo_web_env (demo_request\<lparr>rq_method := ''GET''\<rparr>) (demo_app, demo_settings)))))"
  using added_server_listed [OF demo_boot app_steps.refl, of demo_web_env demo_request blank_profile _ id _ "[]" demo_settings, OF _ _ _ _ _ _ HOL.refl _ HOL.refl]
  by (simp add: demo_web_env_def demo_request_def demo_app_eval)



end
