(* ===== verification/Listener.thy ===== *)
theory Listener
  imports Sticky
begin

section \<open>Listeners of the three strategies: accepting, counting and closing\<close>

text \<open>
  The strategies accept connections in a loop, count them for the metrics and wait for their
  goroutines when they are closed; the worker and the vless strategy also register every accepted
  connection in \<open>activeConns\<close>, the goremote agent only those that have become a session. The state
  holds what these goroutines share; a connection is a number. The accept loop holds an accepted
  connection (\<open>ls_pending\<close>) before it has registered it. The worker and goremote count a connection
  when they start its goroutine, vless when the goroutine runs: \<open>ls_counted\<close> are the connections counted
  and not yet discounted. The locale \<open>conn_counter\<close> is what counting and waiting rely on, its extension
  \<open>conn_tracker\<close> what closing the registered connections relies on.
\<close>

record lsn =
  ls_listening :: bool
  ls_loop :: bool
  ls_pending :: "nat option"
  ls_conns :: "nat list"
  ls_running :: "nat list"
  ls_counted :: "nat list"
  ls_open :: "nat list"
  ls_active :: "64 word"
  ls_wg :: int
  ls_next :: nat

definition new_lsn :: lsn where
  "new_lsn = \<lparr>ls_listening = False, ls_loop = False, ls_pending = None, ls_conns = [], ls_running = [], ls_counted = [],
     ls_open = [], ls_active = 0, ls_wg = 0, ls_next = 0\<rparr>"

subsection \<open>worker/strategy.go\<close>

definition worker_Initialize :: "goerr option \<Rightarrow> server_profile \<Rightarrow> lsn \<Rightarrow> unit res \<times> lsn" where
  "worker_Initialize listen profile s =
     (case listen of
        Some e \<Rightarrow> (Inl (Wrap (''worker strategy failed to listen on 127.0.0.1:'' @ itoa (pf_local_port profile)) e), s)
      | None \<Rightarrow> (Inr (), s\<lparr>ls_listening := True, ls_wg := ls_wg s + 1, ls_loop := True\<rparr>))"

definition worker_register :: "nat \<Rightarrow> lsn \<Rightarrow> lsn" where
  "worker_register c s =
     s\<lparr>ls_pending := None, ls_conns := List.insert c (ls_conns s), ls_active := ls_active s + 1, ls_counted := c # ls_counted s,
       ls_wg := ls_wg s + 1, ls_running := c # ls_running s\<rparr>"

definition worker_finish :: "nat \<Rightarrow> lsn \<Rightarrow> lsn" where
  "worker_finish c s =
     s\<lparr>ls_open := removeAll c (ls_open s), ls_active := ls_active s - 1, ls_counted := removeAll c (ls_counted s),
       ls_conns := removeAll c (ls_conns s), ls_wg := ls_wg s - 1, ls_running := removeAll c (ls_running s)\<rparr>"

subsection \<open>vless/strategy.go\<close>

definition vless_Initialize :: "goerr option \<Rightarrow> server_profile \<Rightarrow> lsn \<Rightarrow> unit res \<times> lsn" where
  "vless_Initialize listen profile s =
     (case listen of
        Some e \<Rightarrow> (Inl (Wrap (''native vless: failed to listen on 127.0.0.1:'' @ itoa (pf_local_port profile)) e), s)
      | None \<Rightarrow> (Inr (), s\<lparr>ls_listening := True, ls_wg := ls_wg s + 1, ls_loop := True\<rparr>))"

definition vless_register :: "nat \<Rightarrow> lsn \<Rightarrow> lsn" where
  "vless_register c s =
     s\<lparr>ls_pending := None, ls_conns := List.insert c (ls_conns s), ls_wg := ls_wg s + 1, ls_running := c # ls_running s\<rparr>"

definition vless_begin :: "nat \<Rightarrow> lsn \<Rightarrow> lsn" where
  "vless_begin c s = s\<lparr>ls_active := ls_active s + 1, ls_counted := c # ls_counted s\<rparr>"

text \<open>The handler has closed the client connection; the deferred calls run in reverse order.\<close>

definition vless_finish :: "nat \<Rightarrow> lsn \<Rightarrow> lsn" where
  "vless_finish c s =
     s\<lparr>ls_open := removeAll c (ls_open s), ls_active := ls_active s - 1, ls_counted := removeAll c (ls_counted s),
       ls_wg := ls_wg s - 1, ls_running := removeAll c (ls_running s), ls_conns := removeAll c (ls_conns s)\<rparr>"

subsection \<open>goremote/agent.go\<close>

text \<open>
  \<open>ls_conns\<close> holds the connections of the sessions. A session stays filed when its handler ends; the
  pre-connection of the tunnel (\<open>dial\<close>) fails after the accept loop has been started.
\<close>

definition goremote_Start :: "goerr option \<Rightarrow> goerr option \<Rightarrow> server_profile \<Rightarrow> lsn \<Rightarrow> unit res \<times> lsn" where
  "goremote_Start dial listen profile s =
     (case listen of
        Some e \<Rightarrow> (Inl (Wrap (''goremote agent failed to listen on 127.0.0.1:'' @ itoa (pf_local_port profile)) e), s)
      | None \<Rightarrow> (case dial of Some e \<Rightarrow> Inl e | None \<Rightarrow> Inr (), s\<lparr>ls_listening := True, ls_wg := ls_wg s + 1, ls_loop := True\<rparr>))"

definition goremote_register :: "nat \<Rightarrow> lsn \<Rightarrow> lsn" where
  "goremote_register c s =
     s\<lparr>ls_pending := None, ls_active := ls_active s + 1, ls_counted := c # ls_counted s, ls_wg := ls_wg s + 1,
       ls_running := c # ls_running s\<rparr>"

definition goremote_session :: "nat \<Rightarrow> lsn \<Rightarrow> lsn" where
  "goremote_session c s = s\<lparr>ls_conns := List.insert c (ls_conns s)\<rparr>"

definition goremote_finish :: "nat \<Rightarrow> lsn \<Rightarrow> lsn" where
  "goremote_finish c s =
     s\<lparr>ls_open := removeAll c (ls_open s), ls_active := ls_active s - 1, ls_counted := removeAll c (ls_counted s),
       ls_wg := ls_wg s - 1, ls_running := removeAll c (ls_running s)\<rparr>"

subsection \<open>Common to all: the accept loop, closing and waiting\<close>

definition accept_conn :: "lsn \<Rightarrow> lsn" where
  "accept_conn s = s\<lparr>ls_pending := Some (ls_next s), ls_open := ls_next s # ls_open s, ls_next := Suc (ls_next s)\<rparr>"

definition accept_fails :: "lsn \<Rightarrow> lsn" where
  "accept_fails s = s\<lparr>ls_loop := False, ls_wg := ls_wg s - 1\<rparr>"

definition close_listener :: "lsn \<Rightarrow> lsn" where
  "close_listener s = s\<lparr>ls_listening := False\<rparr>"

definition close_conns :: "lsn \<Rightarrow> lsn" where
  "close_conns s = s\<lparr>ls_open := filter (\<lambda>c. c \<notin> set (ls_conns s)) (ls_open s)\<rparr>"

text \<open>\<open>waitGroup.Wait()\<close> returns.\<close>

definition wait_returns :: "lsn \<Rightarrow> bool" where
  "wait_returns s \<longleftrightarrow> ls_wg s = 0"

definition strategy_GetMetrics :: "lsn \<Rightarrow> metrics" where
  "strategy_GetMetrics s = \<lparr>mt_active = sint (ls_active s), mt_latency = 0\<rparr>"

text \<open>
  The interleavings of one listener's goroutines and of the caller of \<open>CloseTunnel\<close>. \<open>Accept\<close>
  may fail at any moment, and every failure ends the loop.
\<close>

inductive lsn_reach ::
  "(goerr option \<Rightarrow> server_profile \<Rightarrow> lsn \<Rightarrow> unit res \<times> lsn) \<Rightarrow> (nat \<Rightarrow> lsn \<Rightarrow> lsn) \<Rightarrow> (nat \<Rightarrow> lsn \<Rightarrow> lsn) \<Rightarrow> (nat \<Rightarrow> lsn \<Rightarrow> lsn) \<Rightarrow> (nat \<Rightarrow> lsn \<Rightarrow> lsn)
   \<Rightarrow> lsn \<Rightarrow> bool"
  for initialize register start session finish where
  Init: "initialize listen profile new_lsn = (r, s) \<Longrightarrow> lsn_reach initialize register start session finish s"
| Accept: "lsn_reach initialize register start session finish s \<Longrightarrow> ls_listening s \<Longrightarrow> ls_loop s \<Longrightarrow> ls_pending s = None \<Longrightarrow> lsn_reach initialize register start session finish (accept_conn s)"
| Register: "lsn_reach initialize register start session finish s \<Longrightarrow> ls_pending s = Some c \<Longrightarrow> lsn_reach initialize register start session finish (register c s)"
| Start: "lsn_reach initialize register start session finish s \<Longrightarrow> c \<in> set (ls_running s) \<Longrightarrow> c \<notin> set (ls_counted s) \<Longrightarrow>
    lsn_reach initialize register start session finish (start c s)"
| Session: "lsn_reach initialize register start session finish s \<Longrightarrow> c \<in> set (ls_running s) \<Longrightarrow>
    lsn_reach initialize register start session finish (session c s)"
| Finish: "lsn_reach initialize register start session finish s \<Longrightarrow> c \<in> set (ls_counted s) \<Longrightarrow> lsn_reach initialize register start session finish (finish c s)"
| LoopEnds: "lsn_reach initialize register start session finish s \<Longrightarrow> ls_loop s \<Longrightarrow> ls_pending s = None \<Longrightarrow> lsn_reach initialize register start session finish (accept_fails s)"
| CloseListener: "lsn_reach initialize register start session finish s \<Longrightarrow> lsn_reach initialize register start session finish (close_listener s)"
| CloseConns: "lsn_reach initialize register start session finish s \<Longrightarrow> \<not> ls_listening s \<Longrightarrow> lsn_reach initialize register start session finish (close_conns s)"

subsection \<open>Invariant and contract\<close>

definition lsn_inv :: "lsn \<Rightarrow> bool" where
  "lsn_inv s \<longleftrightarrow>
     distinct (ls_running s) \<and> distinct (ls_counted s) \<and> set (ls_counted s) \<subseteq> set (ls_running s)
   \<and> (\<forall>c \<in> set (ls_running s). c < ls_next s)
   \<and> (\<forall>c. ls_pending s = Some c \<longrightarrow> c < ls_next s \<and> c \<notin> set (ls_running s) \<and> ls_loop s)
   \<and> set (ls_open s) \<subseteq> set (ls_running s) \<union> set_option (ls_pending s)
   \<and> ls_active s = word_of_nat (length (ls_counted s))
   \<and> ls_wg s = int (length (ls_running s)) + (if ls_loop s then 1 else 0)"

definition registered :: "lsn \<Rightarrow> bool" where
  "registered s \<longleftrightarrow> set (ls_conns s) = set (ls_running s)"

locale conn_counter =
  fixes initialize :: "goerr option \<Rightarrow> server_profile \<Rightarrow> lsn \<Rightarrow> unit res \<times> lsn"
    and register start session finish :: "nat \<Rightarrow> lsn \<Rightarrow> lsn"
  assumes initialize_inv: "initialize listen profile new_lsn = (r, s) \<Longrightarrow> lsn_inv s"
    and register_inv: "lsn_inv s \<Longrightarrow> ls_pending s = Some c \<Longrightarrow> lsn_inv (register c s)"
    and start_inv: "lsn_inv s \<Longrightarrow> c \<in> set (ls_running s) \<Longrightarrow> c \<notin> set (ls_counted s) \<Longrightarrow> lsn_inv (start c s)"
    and session_inv: "lsn_inv s \<Longrightarrow> c \<in> set (ls_running s) \<Longrightarrow> lsn_inv (session c s)"
    and finish_inv: "lsn_inv s \<Longrightarrow> c \<in> set (ls_counted s) \<Longrightarrow> lsn_inv (finish c s)"
begin

lemma reach_inv: "lsn_reach initialize register start session finish s \<Longrightarrow> lsn_inv s"
proof (induction rule: lsn_reach.induct)
  case (Accept s)
  then show ?case by (auto simp: lsn_inv_def accept_conn_def less_Suc_eq)
next
  case (LoopEnds s)
  then show ?case by (auto simp: lsn_inv_def accept_fails_def)
next
  case (CloseConns s)
  then show ?case by (auto simp: lsn_inv_def close_conns_def)
qed (auto simp: initialize_inv register_inv start_inv session_inv finish_inv, auto simp: lsn_inv_def close_listener_def)

end

locale conn_tracker = conn_counter +
  assumes initialize_reg: "initialize listen profile new_lsn = (r, s) \<Longrightarrow> registered s"
    and register_reg: "registered s \<Longrightarrow> registered (register c s)"
    and start_reg: "registered s \<Longrightarrow> registered (start c s)"
    and session_reg: "registered s \<Longrightarrow> registered (session c s)"
    and finish_reg: "registered s \<Longrightarrow> registered (finish c s)"
begin

lemma reach_registered: "lsn_reach initialize register start session finish s \<Longrightarrow> registered s"
proof (induction rule: lsn_reach.induct)
  case (Init listen profile r s)
  then show ?case by (rule initialize_reg)
qed (simp_all add: register_reg start_reg session_reg finish_reg,
     simp_all add: registered_def accept_conn_def accept_fails_def close_listener_def close_conns_def)

lemma closing_leaves_pending:
  assumes "lsn_reach initialize register start session finish s"
  shows "set (ls_open (close_conns s)) \<subseteq> set_option (ls_pending s)"
  using reach_inv [OF assms] reach_registered [OF assms] by (auto simp: lsn_inv_def registered_def close_conns_def)

end

lemma sint_of_nat_small: "n < 2 ^ 63 \<Longrightarrow> sint (word_of_nat n :: 64 word) = int n"
  using int_word_sint [of "int n", where 'a = 64] by simp

lemma Suc_length_removeAll: "distinct xs \<Longrightarrow> c \<in> set xs \<Longrightarrow> length xs = Suc (length (removeAll c xs))"
  using length_pos_if_in_set [of c xs] by (simp add: distinct_remove1_removeAll [symmetric] length_remove1)

lemma removeAll_lengths:
  assumes "distinct xs" and "c \<in> set xs"
  shows "int (length (removeAll c xs)) = int (length xs) - 1"
    and "(word_of_nat (length (removeAll c xs)) :: 64 word) = word_of_nat (length xs) - 1"
  using Suc_length_removeAll [OF assms] by simp_all

lemma finish_keeps_inv:
  assumes inv: "lsn_inv s" and c: "c \<in> set (ls_counted s)"
  shows "lsn_inv (goremote_finish c s)"
proof -
  have "c \<in> set (ls_running s)" using inv c by (auto simp: lsn_inv_def)
  moreover have "distinct (ls_running s)" "distinct (ls_counted s)" using inv by (simp_all add: lsn_inv_def)
  ultimately have "int (length (removeAll c (ls_running s))) = int (length (ls_running s)) - 1"
    and "(word_of_nat (length (removeAll c (ls_counted s))) :: 64 word) = word_of_nat (length (ls_counted s)) - 1"
    using c by (simp_all only: removeAll_lengths)
  then show ?thesis
    using inv by (auto simp: lsn_inv_def goremote_finish_def distinct_removeAll)
qed

text \<open>The other two strategies also drop the connection from \<open>activeConns\<close>.\<close>

lemma finish_eq:
  "worker_finish c s = goremote_finish c s\<lparr>ls_conns := removeAll c (ls_conns s)\<rparr>"
  "vless_finish c s = goremote_finish c s\<lparr>ls_conns := removeAll c (ls_conns s)\<rparr>"
  by (simp_all add: vless_finish_def worker_finish_def goremote_finish_def)

lemma lsn_inv_conns [simp]: "lsn_inv (s\<lparr>ls_conns := cs\<rparr>) = lsn_inv s"
  by (simp add: lsn_inv_def)

lemmas lsn_ops = worker_Initialize_def worker_register_def vless_Initialize_def vless_register_def vless_begin_def
  goremote_Start_def goremote_register_def goremote_session_def new_lsn_def

interpretation worker_conns: conn_tracker worker_Initialize worker_register "\<lambda>c s. s" "\<lambda>c s. s" worker_finish
  by unfold_locales
    (auto simp: finish_eq finish_keeps_inv, auto simp: lsn_inv_def registered_def lsn_ops goremote_finish_def split: option.splits)

interpretation vless_conns: conn_tracker vless_Initialize vless_register vless_begin "\<lambda>c s. s" vless_finish
  by unfold_locales
    (auto simp: finish_eq finish_keeps_inv, auto simp: lsn_inv_def registered_def lsn_ops goremote_finish_def split: option.splits)

interpretation goremote_conns: conn_counter "goremote_Start dial" goremote_register "\<lambda>c s. s" goremote_session goremote_finish
  by unfold_locales
    (auto simp: finish_keeps_inv, auto simp: lsn_inv_def lsn_ops split: option.splits)

lemma lsn_inv_active: "lsn_inv s \<Longrightarrow> length (ls_counted s) < 2 ^ 63 \<Longrightarrow> mt_active (strategy_GetMetrics s) = int (length (ls_counted s))"
  by (simp add: lsn_inv_def strategy_GetMetrics_def sint_of_nat_small)

lemma lsn_inv_wait: "lsn_inv s \<Longrightarrow> wait_returns s \<longleftrightarrow> \<not> ls_loop s \<and> ls_running s = []"
  by (auto simp: lsn_inv_def wait_returns_def)

lemma lsn_inv_idle: "lsn_inv s \<Longrightarrow> wait_returns s \<Longrightarrow> ls_open s = [] \<and> ls_active s = 0"
  unfolding lsn_inv_wait by (cases "ls_pending s") (auto simp: lsn_inv_def)

abbreviation worker_reach :: "lsn \<Rightarrow> bool" where
  "worker_reach \<equiv> lsn_reach worker_Initialize worker_register (\<lambda>c s. s) (\<lambda>c s. s) worker_finish"

abbreviation vless_reach :: "lsn \<Rightarrow> bool" where
  "vless_reach \<equiv> lsn_reach vless_Initialize vless_register vless_begin (\<lambda>c s. s) vless_finish"

abbreviation goremote_reach :: "goerr option \<Rightarrow> lsn \<Rightarrow> bool" where
  "goremote_reach dial \<equiv> lsn_reach (goremote_Start dial) goremote_register (\<lambda>c s. s) goremote_session goremote_finish"

text \<open>
  C26. The listeners of the three strategies keep count of their connections under every
  interleaving of the accept loop, the handlers and \<open>CloseTunnel\<close>: the counter behind \<open>GetMetrics\<close> is
  the number of connections counted and not yet discounted (below $2^{63}$ of them); and
  \<open>waitGroup.Wait()\<close>, on which \<open>CloseTunnel\<close> blocks, returns exactly when the accept loop and every
  handler have ended, when no accepted connection is open any more. Closing the registered connections
  of the worker and the vless strategy leaves open at most the one connection that the accept loop
  has accepted and not yet registered.
\<close>

theorem tracked_connections:
  assumes "worker_reach s \<or> vless_reach s \<or> goremote_reach dial s"
  shows "(length (ls_counted s) < 2 ^ 63 \<longrightarrow> mt_active (strategy_GetMetrics s) = int (length (ls_counted s)))
       \<and> (wait_returns s \<longleftrightarrow> \<not> ls_loop s \<and> ls_running s = [])
       \<and> (wait_returns s \<longrightarrow> ls_open s = [] \<and> ls_active s = 0)
       \<and> (worker_reach s \<or> vless_reach s \<longrightarrow> set (ls_open (close_conns s)) \<subseteq> set_option (ls_pending s))"
proof -
  have "lsn_inv s" using assms worker_conns.reach_inv vless_conns.reach_inv goremote_conns.reach_inv by blast
  then show ?thesis
    using lsn_inv_idle lsn_inv_active lsn_inv_wait worker_conns.closing_leaves_pending vless_conns.closing_leaves_pending by blast
qed

text \<open>One connection in its handler and the next one accepted when \<open>CloseTunnel\<close> closes the connections.\<close>

definition closing_lsn :: lsn where
  "closing_lsn = close_listener (accept_conn (worker_register 0 (accept_conn (snd (worker_Initialize None demo_profile new_lsn)))))"

lemma closing_lsn_reach: "worker_reach closing_lsn"
  unfolding closing_lsn_def
  by (intro lsn_reach.CloseListener lsn_reach.Accept lsn_reach.Register lsn_reach.Init [where listen = None and profile = demo_profile and r = "Inr ()"])
    (simp_all add: accept_conn_def lsn_ops)

theorem tracked_connections_witness:
  "ls_open closing_lsn = [1, 0] \<and> set (ls_open (close_conns closing_lsn)) = {1} \<and> mt_active (strategy_GetMetrics closing_lsn) = 1
   \<and> \<not> wait_returns closing_lsn"
  using tracked_connections [of closing_lsn] closing_lsn_reach
  by (simp add: closing_lsn_def close_conns_def accept_conn_def lsn_ops close_listener_def)

text \<open>
  The race of \<open>CloseTunnel\<close>: a connection accepted before the listener was closed and registered
  after the tracked ones were closed stays open with its handler running, and \<open>CloseTunnel\<close>
  blocks on that handler until the client hangs up.
\<close>

lemma close_misses_late_connection:
  assumes "worker_reach s" and "ls_pending s = Some c" and "c \<in> set (ls_open s)"
  shows "c \<in> set (ls_open (worker_register c (close_conns s))) \<and> c \<in> set (ls_running (worker_register c (close_conns s)))
       \<and> \<not> wait_returns (accept_fails (worker_register c (close_conns s)))"
  using assms worker_conns.reach_inv [OF assms(1)] worker_conns.reach_registered [OF assms(1)]
  by (auto simp: registered_def close_conns_def worker_register_def lsn_inv_def wait_returns_def accept_fails_def)

text \<open>
  The goremote agent has no register of connections: one that is still in its handshake or is the
  control connection of a UDP association stays open, and \<open>Close\<close> blocks on its handler.
\<close>

lemma goremote_close_blocks:
  assumes "goremote_reach dial s" and "c \<in> set (ls_running s)" and "c \<in> set (ls_open s)" and "c \<notin> set (ls_conns s)"
  shows "c \<in> set (ls_open (close_conns s)) \<and> \<not> wait_returns (close_conns s)"
proof -
  have "lsn_inv (close_conns s)"
    using goremote_conns.reach_inv [OF assms(1)] by (auto simp: lsn_inv_def close_conns_def)
  then show ?thesis using assms(2-4) by (auto simp: lsn_inv_wait) (auto simp: close_conns_def)
qed

end
