(* ===== verification/StreamConfig.thy ===== *)
theory StreamConfig
  imports XNet Types
begin

section \<open>Stream settings and TLS settings of the vless transports\<close>

text \<open>
  \<open>xray_core/transport/internet\<close>: how a \<open>StreamConfig\<close> of serialised settings becomes a
  \<open>MemoryStreamConfig\<close> (\<open>config.go\<close>, \<open>memory_settings.go\<close>), the registries that the \<open>init\<close> functions of the
  transports fill, the TLS settings (\<open>tls/config.go\<close>, \<open>tls/config_other.go\<close>, \<open>tls/tls.go\<close>), and the
  settings of the WebSocket and gRPC transports (\<open>websocket/config.go\<close>, \<open>grpc/config.go\<close>).

  Protocol buffers are a parameter: \<open>pr_marshal\<close>, the type registry \<open>pr_find\<close> (a new message of the named
  type) and \<open>pr_unmarshal\<close>. \<open>codec_ok\<close> states what their documentation promises for one message. The
  system's root certificates, the certificate parser, the standard library's cipher suites and the
  files of a key log are parameters of \<open>GetTLSConfig\<close>.
\<close>

subsection \<open>Messages\<close>

record ws_config =
  ws_path :: string
  ws_header :: "(string \<times> string) list"
  ws_accept_proxy :: bool
  ws_ed :: "32 word"

record grpc_config =
  gc_authority :: string
  gc_service :: string
  gc_multi :: bool
  gc_idle :: int
  gc_health :: int
  gc_permit :: bool
  gc_window :: int
  gc_agent :: string

record tls_config =
  tc_insecure :: bool
  tc_certs :: "bytes list"
  tc_server_name :: string
  tc_next :: "string list"
  tc_resume :: bool
  tc_no_system :: bool
  tc_min :: string
  tc_max :: string
  tc_ciphers :: string
  tc_prefer :: bool
  tc_fingerprint :: string
  tc_reject_sni :: bool
  tc_key_log :: string

text \<open>A message of any other type is known by its name only.\<close>

datatype message = WsMsg ws_config | GrpcMsg grpc_config | TlsMsg tls_config | OtherMsg string

definition zero_ws :: ws_config where
  "zero_ws = \<lparr>ws_path = '''', ws_header = [], ws_accept_proxy = False, ws_ed = 0\<rparr>"

definition zero_grpc :: grpc_config where
  "zero_grpc = \<lparr>gc_authority = '''', gc_service = '''', gc_multi = False, gc_idle = 0, gc_health = 0, gc_permit = False, gc_window = 0,
     gc_agent = ''''\<rparr>"

definition zero_tls :: tls_config where
  "zero_tls = \<lparr>tc_insecure = False, tc_certs = [], tc_server_name = '''', tc_next = [], tc_resume = False, tc_no_system = False,
     tc_min = '''', tc_max = '''', tc_ciphers = '''', tc_prefer = False, tc_fingerprint = '''', tc_reject_sni = False, tc_key_log = ''''\<rparr>"

fun GetMessageType :: "message \<Rightarrow> string" where
  "GetMessageType (WsMsg _) = ''xray.transport.internet.websocket.Config''"
| "GetMessageType (GrpcMsg _) = ''xray.transport.internet.grpc.encoding.Config''"
| "GetMessageType (TlsMsg _) = ''xray.transport.internet.tls.Config''"
| "GetMessageType (OtherMsg t) = t"

record codec =
  pr_marshal :: "message \<Rightarrow> bytes res"
  pr_find :: "string \<Rightarrow> message res"
  pr_unmarshal :: "bytes \<Rightarrow> message \<Rightarrow> message res"

definition codec_ok :: "codec \<Rightarrow> message \<Rightarrow> bool" where
  "codec_ok pr m \<longleftrightarrow> (\<exists>b z. pr_marshal pr m = Inr b \<and> pr_find pr (GetMessageType m) = Inr z \<and> pr_unmarshal pr b z = Inr m)"

record typed_message =
  tm_type :: string
  tm_value :: bytes

text \<open>The error of \<open>proto.Marshal\<close> is dropped.\<close>

definition ToTypedMessage :: "codec \<Rightarrow> message \<Rightarrow> typed_message" where
  "ToTypedMessage pr m = \<lparr>tm_type = GetMessageType m, tm_value = (case pr_marshal pr m of Inl _ \<Rightarrow> [] | Inr b \<Rightarrow> b)\<rparr>"

definition typed_GetInstance :: "codec \<Rightarrow> typed_message \<Rightarrow> message res" where
  "typed_GetInstance pr v = and_then (pr_find pr (tm_type v)) (\<lambda>z. pr_unmarshal pr (tm_value v) z)"

lemma typed_roundtrip: "codec_ok pr m \<Longrightarrow> typed_GetInstance pr (ToTypedMessage pr m) = Inr m"
  by (auto simp: codec_ok_def typed_GetInstance_def ToTypedMessage_def)

subsection \<open>Registries\<close>

datatype dialer = WsDialer | GrpcDialer

record registry =
  rg_creators :: "message gomap"
  rg_dialers :: "dialer gomap"

definition RegisterProtocolConfigCreator :: "string \<Rightarrow> message \<Rightarrow> registry \<Rightarrow> registry res" where
  "RegisterProtocolConfigCreator name creator r =
     (if gm_get (rg_creators r) name \<noteq> None then Inl (Msg (''protocol '' @ name @ '' is already registered''))
      else Inr (r\<lparr>rg_creators := gm_put name creator (rg_creators r)\<rparr>))"

definition RegisterTransportDialer :: "string \<Rightarrow> dialer \<Rightarrow> registry \<Rightarrow> registry res" where
  "RegisterTransportDialer protocol d r =
     (if gm_get (rg_dialers r) protocol \<noteq> None then Inl (Msg (protocol @ '' dialer already registered''))
      else Inr (r\<lparr>rg_dialers := gm_put protocol d (rg_dialers r)\<rparr>))"

text \<open>The \<open>init\<close> functions of the two transports; \<open>common.Must\<close> panics on an error.\<close>

definition ws_init :: "registry \<Rightarrow> registry res" where
  "ws_init r = and_then (RegisterProtocolConfigCreator ''websocket'' (WsMsg zero_ws) r) (RegisterTransportDialer ''websocket'' WsDialer)"

definition grpc_init :: "registry \<Rightarrow> registry res" where
  "grpc_init r = and_then (RegisterProtocolConfigCreator ''grpc'' (GrpcMsg zero_grpc) r) (RegisterTransportDialer ''grpc'' GrpcDialer)"

definition initialised :: "registry \<Rightarrow> bool" where
  "initialised r \<longleftrightarrow> gm_get (rg_dialers r) ''websocket'' = Some WsDialer \<and> gm_get (rg_dialers r) ''grpc'' = Some GrpcDialer"

definition empty_registry :: registry where
  "empty_registry = \<lparr>rg_creators = [], rg_dialers = []\<rparr>"

text \<open>Whatever the order of the \<open>init\<close> functions, none panics and both dialers are found.\<close>

lemma init_registry:
  "\<exists>r. and_then (ws_init empty_registry) grpc_init = Inr r \<and> initialised r"
  "\<exists>r. and_then (grpc_init empty_registry) ws_init = Inr r \<and> initialised r"
  by (simp_all add: ws_init_def grpc_init_def RegisterProtocolConfigCreator_def RegisterTransportDialer_def empty_registry_def initialised_def)

definition CreateTransportConfig :: "registry \<Rightarrow> string \<Rightarrow> message res" where
  "CreateTransportConfig r name =
     (case gm_get (rg_creators r) name of None \<Rightarrow> Inl (Msg (''unknown transport protocol: '' @ name)) | Some m \<Rightarrow> Inr m)"

subsection \<open>Stream settings\<close>

datatype transport_protocol = Protocol_TCP | Protocol_UDP | Protocol_MKCP | Protocol_WebSocket | Protocol_HTTP | Protocol_DomainSocket

definition transportProtocolToString :: "transport_protocol \<Rightarrow> string" where
  "transportProtocolToString p = (case p of Protocol_TCP \<Rightarrow> ''tcp'' | Protocol_WebSocket \<Rightarrow> ''websocket'' | _ \<Rightarrow> ''unknown'')"

record transport_config =
  tr_protocol :: transport_protocol
  tr_name :: string
  tr_settings :: typed_message

record socket_config =
  so_mptcp :: bool
  so_keep_interval :: int
  so_keep_idle :: int
  so_bind_address :: bytes
  so_bind_port :: "32 word"
  so_tfo :: int
  so_mark :: int
  so_interface :: string
  so_congestion :: string
  so_window_clamp :: int
  so_user_timeout :: int
  so_max_seg :: int
  so_no_delay :: bool

record stream_config =
  sc_protocol :: transport_protocol
  sc_name :: string
  sc_transports :: "transport_config list"
  sc_security_type :: string
  sc_security :: "typed_message list"
  sc_socket :: "socket_config option"

definition GetUnifiedProtocolName :: "transport_config \<Rightarrow> string" where
  "GetUnifiedProtocolName c = (if length (tr_name c) > 0 then tr_name c else transportProtocolToString (tr_protocol c))"

definition GetEffectiveProtocol :: "stream_config option \<Rightarrow> string" where
  "GetEffectiveProtocol c =
     (case c of None \<Rightarrow> ''tcp''
      | Some c \<Rightarrow> if length (sc_name c) > 0 then sc_name c else transportProtocolToString (sc_protocol c))"

definition GetTransportSettingsFor :: "codec \<Rightarrow> registry \<Rightarrow> stream_config option \<Rightarrow> string \<Rightarrow> message res" where
  "GetTransportSettingsFor pr r c protocol =
     (case (case c of None \<Rightarrow> None | Some c \<Rightarrow> find (\<lambda>s. GetUnifiedProtocolName s = protocol) (sc_transports c)) of
        Some settings \<Rightarrow> typed_GetInstance pr (tr_settings settings)
      | None \<Rightarrow> CreateTransportConfig r protocol)"

definition GetEffectiveTransportSettings :: "codec \<Rightarrow> registry \<Rightarrow> stream_config option \<Rightarrow> message res" where
  "GetEffectiveTransportSettings pr r c = GetTransportSettingsFor pr r c (GetEffectiveProtocol c)"

definition GetEffectiveSecuritySettings :: "codec \<Rightarrow> stream_config \<Rightarrow> message res" where
  "GetEffectiveSecuritySettings pr c =
     (case find (\<lambda>s. tm_type s = sc_security_type c) (sc_security c) of
        Some settings \<Rightarrow> typed_GetInstance pr settings
      | None \<Rightarrow> pr_find pr (sc_security_type c))"

definition HasSecuritySettings :: "stream_config \<Rightarrow> bool" where
  "HasSecuritySettings c = (length (sc_security_type c) > 0)"

record memory_stream_config =
  ms_name :: string
  ms_settings :: message
  ms_security_type :: string
  ms_security :: "message option"
  ms_socket :: "socket_config option"

definition ToMemoryStreamConfig :: "codec \<Rightarrow> registry \<Rightarrow> stream_config option \<Rightarrow> memory_stream_config res" where
  "ToMemoryStreamConfig pr r s =
     and_then (GetEffectiveTransportSettings pr r s) (\<lambda>ets.
       let mss = \<lparr>ms_name = GetEffectiveProtocol s, ms_settings = ets, ms_security_type = '''', ms_security = None,
                  ms_socket = Option.bind s sc_socket\<rparr>
       in case s of
            None \<Rightarrow> Inr mss
          | Some c \<Rightarrow>
              if HasSecuritySettings c then
                and_then (GetEffectiveSecuritySettings pr c) (\<lambda>ess.
                  Inr (mss\<lparr>ms_security_type := sc_security_type c, ms_security := Some ess\<rparr>))
              else Inr mss)"

end
