(* ===== verification/TlsConfig.thy ===== *)
theory TlsConfig
  imports StreamConfig
begin

section \<open>TLS settings, fingerprints and the settings of the transports\<close>

text \<open>
  \<open>tls/config.go\<close>, \<open>tls/config_other.go\<close> and \<open>tls/tls.go\<close>: how the settings of a profile become a Go
  \<open>tls.Config\<close>; \<open>websocket/config.go\<close> and \<open>grpc/config.go\<close>: request path and headers, service and stream
  names. A root pool is the list of the certificates it holds, \<open>None\<close> the nil pool, with which Go
  verifies against the system's roots.
\<close>

subsection \<open>Root certificates\<close>

record tls_env =
  te_system :: "bytes list res"
  te_pem_ok :: "bytes \<Rightarrow> bool"
  te_suites :: "(string \<times> 16 word) list"
  te_open :: "string \<Rightarrow> goerr option"

fun append_certs :: "(bytes \<Rightarrow> bool) \<Rightarrow> bytes list \<Rightarrow> bytes list \<Rightarrow> bytes list option" where
  "append_certs ok pool [] = Some pool"
| "append_certs ok pool (c # cs) = (if ok c then append_certs ok (pool @ [c]) cs else None)"

definition loadSelfCertPool :: "tls_env \<Rightarrow> tls_config \<Rightarrow> bytes list res" where
  "loadSelfCertPool e c =
     (case append_certs (te_pem_ok e) [] (tc_certs c) of None \<Rightarrow> Inl (Msg ''failed to append cert'') | Some p \<Rightarrow> Inr p)"

definition getCertPool :: "tls_env \<Rightarrow> tls_config \<Rightarrow> bytes list res" where
  "getCertPool e c =
     (if tc_no_system c then loadSelfCertPool e c
      else if tc_certs c = [] then te_system e
      else case te_system e of
        Inl err \<Rightarrow> Inl (Wrap ''system root'' err)
      | Inr pool \<Rightarrow>
          (case append_certs (te_pem_ok e) pool (tc_certs c) of None \<Rightarrow> Inl (Msg ''append cert to root'') | Some p \<Rightarrow> Inr p))"

subsection \<open>GetTLSConfig\<close>

record go_tls =
  gt_roots :: "bytes list option"
  gt_insecure :: bool
  gt_next :: "string list"
  gt_no_tickets :: bool
  gt_server_name :: string
  gt_min :: "16 word"
  gt_max :: "16 word"
  gt_suites :: "16 word list"
  gt_prefer :: bool
  gt_key_log :: "string option"

definition tls_version :: "string \<Rightarrow> 16 word" where
  "tls_version v =
     (if v = ''1.0'' then 0x0301 else if v = ''1.1'' then 0x0302 else if v = ''1.2'' then 0x0303 else if v = ''1.3'' then 0x0304 else 0)"

fun split_on :: "char \<Rightarrow> string \<Rightarrow> string list" where
  "split_on c [] = [[]]"
| "split_on c (x # xs) = (if x = c then [] # split_on c xs else (case split_on c xs of w # ws \<Rightarrow> (x # w) # ws | [] \<Rightarrow> [[x]]))"

definition cipher_ids :: "(string \<times> 16 word) list \<Rightarrow> string \<Rightarrow> 16 word list" where
  "cipher_ids suites s =
     (if length s > 0 then
        List.map_filter (\<lambda>n. case map_of (rev suites) n of Some i \<Rightarrow> if i \<noteq> 0 then Some i else None | None \<Rightarrow> None) (split_on CHR '':'' s)
      else [])"

type_synonym tls_option = "go_tls \<Rightarrow> go_tls res"

definition WithDestination :: "destination \<Rightarrow> tls_option" where
  "WithDestination dest config =
     (if gt_server_name config = '''' then and_then (dest_addr_string dest) (\<lambda>a. Inr (config\<lparr>gt_server_name := a\<rparr>)) else Inr config)"

definition WithNextProto :: "string list \<Rightarrow> tls_option" where
  "WithNextProto protocol config = Inr (if length (gt_next config) = 0 then config\<lparr>gt_next := protocol\<rparr> else config)"

fun apply_options :: "tls_option list \<Rightarrow> go_tls \<Rightarrow> go_tls res" where
  "apply_options [] config = Inr config"
| "apply_options (opt # opts) config = and_then (opt config) (apply_options opts)"

text \<open>The configuration is not nil; an error of the certificate pool is logged and the nil pool is used.\<close>

definition GetTLSConfig :: "tls_env \<Rightarrow> tls_config \<Rightarrow> tls_option list \<Rightarrow> go_tls res" where
  "GetTLSConfig e c opts =
     (let root = (case getCertPool e c of Inl _ \<Rightarrow> None | Inr p \<Rightarrow> Some p);
          config = \<lparr>gt_roots = root, gt_insecure = tc_insecure c, gt_next = tc_next c, gt_no_tickets = \<not> tc_resume c, gt_server_name = '''',
                    gt_min = 0, gt_max = 0, gt_suites = [], gt_prefer = False, gt_key_log = None\<rparr>
      in and_then (apply_options opts config) (\<lambda>config.
         let config = (if length (tc_server_name c) > 0 then config\<lparr>gt_server_name := tc_server_name c\<rparr> else config);
             config = (if length (gt_next config) = 0 then config\<lparr>gt_next := [''h2'', ''http/1.1'']\<rparr> else config)
         in Inr (config\<lparr>gt_min := tls_version (tc_min c), gt_max := tls_version (tc_max c),
                  gt_suites := gt_suites config @ cipher_ids (te_suites e) (tc_ciphers c), gt_prefer := tc_prefer c,
                  gt_key_log := (if length (tc_key_log c) > 0 \<and> tc_key_log c \<noteq> ''none'' \<and> te_open e (tc_key_log c) = None
                                 then Some (tc_key_log c) else None)\<rparr>)))"

definition tls_ConfigFromStreamSettings :: "memory_stream_config option \<Rightarrow> tls_config option" where
  "tls_ConfigFromStreamSettings settings =
     (case settings of None \<Rightarrow> None | Some s \<Rightarrow> (case ms_security s of Some (TlsMsg c) \<Rightarrow> Some c | _ \<Rightarrow> None))"

text \<open>The REALITY settings of a stream are messages of the type named here.\<close>

definition reality_ConfigFromStreamSettings :: "memory_stream_config option \<Rightarrow> message option" where
  "reality_ConfigFromStreamSettings settings =
     (case settings of None \<Rightarrow> None
      | Some s \<Rightarrow> (case ms_security s of
          Some (OtherMsg t) \<Rightarrow> if t = ''xray.transport.internet.reality.Config'' then Some (OtherMsg t) else None
        | _ \<Rightarrow> None))"

subsection \<open>Fingerprints\<close>

text \<open>
  A \<open>utls.ClientHelloID\<close> is named by its variable. \<open>random\<close> is the one of the modern fingerprints that the
  \<open>init\<close> function drew.
\<close>

definition ModernFingerprints :: "string gomap" where
  "ModernFingerprints =
     [(''hellofirefox_99'', ''HelloFirefox_99''), (''hellofirefox_102'', ''HelloFirefox_102''), (''hellofirefox_105'', ''HelloFirefox_105''),
      (''hellochrome_83'', ''HelloChrome_83''), (''hellochrome_87'', ''HelloChrome_87''), (''hellochrome_96'', ''HelloChrome_96''),
      (''hellochrome_100'', ''HelloChrome_100''), (''hellochrome_102'', ''HelloChrome_102''), (''hellochrome_106_shuffle'', ''HelloChrome_106_Shuffle''),
      (''helloios_13'', ''HelloIOS_13''), (''helloios_14'', ''HelloIOS_14''), (''helloedge_85'', ''HelloEdge_85''), (''helloedge_106'', ''HelloEdge_106''),
      (''hellosafari_16_0'', ''HelloSafari_16_0''), (''hello360_11_0'', ''Hello360_11_0''), (''helloqq_11_1'', ''HelloQQ_11_1'')]"

definition OtherFingerprints :: "string gomap" where
  "OtherFingerprints =
     [(''hellogolang'', ''HelloGolang''), (''hellorandomized'', ''HelloRandomized''), (''hellorandomizedalpn'', ''HelloRandomizedALPN''),
      (''hellorandomizednoalpn'', ''HelloRandomizedNoALPN''), (''hellofirefox_auto'', ''HelloFirefox_Auto''), (''hellofirefox_55'', ''HelloFirefox_55''),
      (''hellofirefox_56'', ''HelloFirefox_56''), (''hellofirefox_63'', ''HelloFirefox_63''), (''hellofirefox_65'', ''HelloFirefox_65''),
      (''hellochrome_auto'', ''HelloChrome_Auto''), (''hellochrome_58'', ''HelloChrome_58''), (''hellochrome_62'', ''HelloChrome_62''),
      (''hellochrome_70'', ''HelloChrome_70''), (''hellochrome_72'', ''HelloChrome_72''), (''helloios_auto'', ''HelloIOS_Auto''),
      (''helloios_11_1'', ''HelloIOS_11_1''), (''helloios_12_1'', ''HelloIOS_12_1''), (''helloandroid_11_okhttp'', ''HelloAndroid_11_OkHttp''),
      (''helloedge_auto'', ''HelloEdge_Auto''), (''hellosafari_auto'', ''HelloSafari_Auto''), (''hello360_auto'', ''Hello360_Auto''),
      (''hello360_7_5'', ''Hello360_7_5''), (''helloqq_auto'', ''HelloQQ_Auto'')]"

definition PresetFingerprints :: "nat \<Rightarrow> string gomap" where
  "PresetFingerprints stopAt =
     [(''chrome'', ''HelloChrome_Auto''), (''firefox'', ''HelloFirefox_Auto''), (''safari'', ''HelloSafari_Auto''), (''ios'', ''HelloIOS_Auto''),
      (''android'', ''HelloAndroid_11_OkHttp''), (''edge'', ''HelloEdge_Auto''), (''360'', ''Hello360_Auto''), (''qq'', ''HelloQQ_Auto''),
      (''random'', snd (ModernFingerprints ! stopAt)), (''randomized'', ''HelloRandomized with weights'')]"

definition GetFingerprint :: "nat \<Rightarrow> string \<Rightarrow> string option" where
  "GetFingerprint stopAt name =
     (if name = '''' then None
      else case gm_get (PresetFingerprints stopAt) name of
        Some f \<Rightarrow> Some f
      | None \<Rightarrow> (case gm_get ModernFingerprints name of Some f \<Rightarrow> Some f | None \<Rightarrow> gm_get OtherFingerprints name))"

subsection \<open>websocket/config.go\<close>

definition GetNormalizedPath :: "ws_config \<Rightarrow> string" where
  "GetNormalizedPath c =
     (if ws_path c = '''' then ''/'' else if ws_path c ! 0 \<noteq> CHR ''/'' then ''/'' @ ws_path c else ws_path c)"

text \<open>\<open>http.Header.Add\<close> with \<open>textproto.CanonicalMIMEHeaderKey\<close>: a key that is no token is kept as it is.\<close>

definition token_char :: "char \<Rightarrow> bool" where
  "token_char c = (let n = (of_char c :: nat) in
     48 \<le> n \<and> n \<le> 57 \<or> 65 \<le> n \<and> n \<le> 90 \<or> 97 \<le> n \<and> n \<le> 122
     \<or> c \<in> set [CHR ''!'', CHR ''#'', CHR ''$'', CHR ''%'', CHR ''&'', CHR 0x27, CHR ''*'', CHR ''+'', CHR ''-'', CHR ''.'', CHR ''^'',
                CHR ''_'', CHR 0x60, CHR ''|'', CHR ''~''])"

fun canonical_loop :: "bool \<Rightarrow> string \<Rightarrow> string" where
  "canonical_loop up [] = []"
| "canonical_loop up (c # cs) = (if up then upper_char c else lower_char c) # canonical_loop (c = CHR ''-'') cs"

definition canonical_key :: "string \<Rightarrow> string" where
  "canonical_key k = (if list_all token_char k then canonical_loop True k else k)"

definition header_add :: "string \<Rightarrow> string \<Rightarrow> string list gomap \<Rightarrow> string list gomap" where
  "header_add k v h =
     (let k' = canonical_key k in gm_put k' ((case gm_get h k' of None \<Rightarrow> [] | Some vs \<Rightarrow> vs) @ [v]) h)"

definition GetRequestHeader :: "ws_config \<Rightarrow> string list gomap" where
  "GetRequestHeader c = foldl (\<lambda>h (k, v). header_add k v h) [] (ws_header c)"

subsection \<open>grpc/config.go\<close>

text \<open>\<open>url.PathEscape\<close>.\<close>

definition path_plain :: "char \<Rightarrow> bool" where
  "path_plain c = (let n = (of_char c :: nat) in
     48 \<le> n \<and> n \<le> 57 \<or> 65 \<le> n \<and> n \<le> 90 \<or> 97 \<le> n \<and> n \<le> 122
     \<or> c \<in> set [CHR ''-'', CHR ''_'', CHR ''.'', CHR ''~'', CHR ''$'', CHR ''&'', CHR ''+'', CHR '':'', CHR ''='', CHR ''@''])"

definition hex_upper :: "nat \<Rightarrow> char" where
  "hex_upper k = (if k < 10 then char_of (48 + k) else char_of (55 + k))"

definition PathEscape :: "string \<Rightarrow> string" where
  "PathEscape s = concat (map (\<lambda>c. if path_plain c then [c]
     else [CHR ''%'', hex_upper ((of_char c :: nat) div 16), hex_upper ((of_char c :: nat) mod 16)]) s)"

fun join_with :: "string \<Rightarrow> string list \<Rightarrow> string" where
  "join_with sep [] = []"
| "join_with sep [s] = s"
| "join_with sep (s # ss) = s @ sep @ join_with sep ss"

definition last_slash :: "string \<Rightarrow> nat" where
  "last_slash s = (case last_index_of CHR ''/'' s of None \<Rightarrow> 0 | Some i \<Rightarrow> i)"

definition getServiceName :: "grpc_config \<Rightarrow> string" where
  "getServiceName c =
     (if \<not> has_prefix (gc_service c) ''/'' then PathEscape (gc_service c)
      else
        (let lastIndex = max 1 (last_slash (gc_service c));
             rawServiceName = take (lastIndex - 1) (drop 1 (gc_service c))
         in join_with ''/'' (map PathEscape (split_on CHR ''/'' rawServiceName))))"

definition getTunStreamName :: "grpc_config \<Rightarrow> string" where
  "getTunStreamName c =
     (if \<not> has_prefix (gc_service c) ''/'' then ''Tun''
      else PathEscape (hd (split_on CHR ''|'' (drop (Suc (last_slash (gc_service c))) (gc_service c)))))"

definition getTunMultiStreamName :: "grpc_config \<Rightarrow> string" where
  "getTunMultiStreamName c =
     (if \<not> has_prefix (gc_service c) ''/'' then ''TunMulti''
      else
        (let streamNames = split_on CHR ''|'' (drop (Suc (last_slash (gc_service c))) (gc_service c)) in
         if length streamNames = 1 then PathEscape (streamNames ! 0) else PathEscape (streamNames ! 1)))"

end
