(* ===== verification/SockOpts.thy ===== *)
theory SockOpts
  imports StreamConfig
begin

section \<open>Socket options (transport/internet/sockopt.go, sockopt_linux.go, _freebsd.go, _darwin.go, _windows.go)\<close>

text \<open>
  What the system dialer asks of the operating system before it connects. A system call is a value; the function
  \<open>os\<close> is the kernel, which answers a call with an error or not; a computation gives the first error and the calls
  that were made. Constants of the system are named, not numbered.
\<close>

datatype sock_level = SOL_SOCKET | SOL_TCP | IPPROTO_TCP | IPPROTO_IP | IPPROTO_IPV6

datatype sock_name =
    SO_MARK | SO_KEEPALIVE | SO_REUSEADDR | SO_REUSEPORT | SO_USER_COOKIE
  | TCP_FASTOPEN | TCP_FASTOPEN_CONNECT | TCP_KEEPINTVL | TCP_KEEPIDLE | TCP_KEEPALIVE | TCP_CONGESTION
  | TCP_WINDOW_CLAMP | TCP_USER_TIMEOUT | TCP_MAXSEG | TCP_NODELAY
  | IP_BOUND_IF | IP_UNICAST_IF | IPV6_UNICAST_IF

datatype sys_call =
    SetsockoptInt sock_level sock_name int
  | SetsockoptString sock_level sock_name string
  | BindToDevice string
  | BindInet4 int bytes
  | BindInet6 int bytes

type_synonym kernel = "sys_call \<Rightarrow> goerr option"
type_synonym sys = "goerr option \<times> sys_call list"

subsection \<open>Sequences of calls\<close>

definition sys_return :: sys where
  "sys_return = (None, [])"

definition sys_then :: "sys \<Rightarrow> sys \<Rightarrow> sys" where
  "sys_then m k = (case fst m of Some e \<Rightarrow> m | None \<Rightarrow> (fst k, snd m @ snd k))"

definition sys_when :: "bool \<Rightarrow> sys \<Rightarrow> sys" where
  "sys_when b m = (if b then m else sys_return)"

definition sys_do :: "kernel \<Rightarrow> (goerr \<Rightarrow> goerr) \<Rightarrow> sys_call \<Rightarrow> sys" where
  "sys_do os wrap c = (map_option wrap (os c), [c])"

text \<open>\<open>NewError(text).Base(err)\<close> and \<open>NewError(text, err)\<close>.\<close>

definition msg_err :: "string \<Rightarrow> goerr \<Rightarrow> goerr" where
  "msg_err text err = Msg (text @ err_text err)"

subsection \<open>sockopt.go\<close>

definition isTCPSocket :: "string \<Rightarrow> bool" where
  "isTCPSocket network \<longleftrightarrow> (if network = ''tcp'' \<or> network = ''tcp4'' \<or> network = ''tcp6'' then True else False)"

definition ParseTFOValue :: "socket_config \<Rightarrow> int" where
  "ParseTFOValue v = (if so_tfo v = 0 then - 1 else let tfo = so_tfo v in if tfo < 0 then 0 else tfo)"

subsection \<open>sockopt_linux.go\<close>

definition setReuseAddr :: "kernel \<Rightarrow> sys" where
  "setReuseAddr os = sys_do os (Wrap ''failed to set SO_REUSEADDR'') (SetsockoptInt SOL_SOCKET SO_REUSEADDR 1)"

definition setReusePort :: "kernel \<Rightarrow> sys" where
  "setReusePort os = sys_do os (Wrap ''failed to set SO_REUSEPORT'') (SetsockoptInt SOL_SOCKET SO_REUSEPORT 1)"

text \<open>The results of the first two calls are not looked at.\<close>

definition bindAddr :: "kernel \<Rightarrow> bytes \<Rightarrow> 32 word \<Rightarrow> sys" where
  "bindAddr os ip port =
     (let before = snd (setReuseAddr os) @ snd (setReusePort os) in
      if length ip = 4 then (os (BindInet4 (uint port) ip), before @ [BindInet4 (uint port) ip])
      else if length ip = 16 then (os (BindInet6 (uint port) ip), before @ [BindInet6 (uint port) ip])
      else (Some (Msg ''unexpected length of ip''), before))"

text \<open>
  The keep-alive part, which Linux and FreeBSD share up to the order of the first two calls; \<open>idle_first\<close> is
  that order.
\<close>

definition keepalive_interval :: "kernel \<Rightarrow> socket_config \<Rightarrow> sys" where
  "keepalive_interval os config = sys_when (so_keep_interval config > 0)
     (sys_do os (msg_err ''failed to set TCP_KEEPINTVL'') (SetsockoptInt IPPROTO_TCP TCP_KEEPINTVL (so_keep_interval config)))"

definition keepalive_idle :: "kernel \<Rightarrow> socket_config \<Rightarrow> sys" where
  "keepalive_idle os config = sys_when (so_keep_idle config > 0)
     (sys_do os (msg_err ''failed to set TCP_KEEPIDLE'') (SetsockoptInt IPPROTO_TCP TCP_KEEPIDLE (so_keep_idle config)))"

definition keepalive :: "kernel \<Rightarrow> socket_config \<Rightarrow> sys \<Rightarrow> sys" where
  "keepalive os config values =
     (if so_keep_interval config > 0 \<or> so_keep_idle config > 0 then
        sys_then values (sys_do os (msg_err ''failed to set SO_KEEPALIVE'') (SetsockoptInt SOL_SOCKET SO_KEEPALIVE 1))
      else sys_when (so_keep_interval config < 0 \<or> so_keep_idle config < 0)
        (sys_do os (msg_err ''failed to unset SO_KEEPALIVE'') (SetsockoptInt SOL_SOCKET SO_KEEPALIVE 0)))"

definition linux_tcp_options :: "kernel \<Rightarrow> socket_config \<Rightarrow> sys" where
  "linux_tcp_options os config =
     (let tfo = ParseTFOValue config; tfo = (if tfo > 0 then 1 else tfo) in
      sys_then (sys_when (tfo \<ge> 0)
        (sys_do os (Wrap (''failed to set TCP_FASTOPEN_CONNECT'' @ itoa tfo)) (SetsockoptInt SOL_TCP TCP_FASTOPEN_CONNECT tfo)))
      (sys_then (keepalive os config (sys_then (keepalive_interval os config) (keepalive_idle os config)))
      (sys_then (sys_when (so_congestion config \<noteq> '''')
        (sys_do os (msg_err ''failed to set TCP_CONGESTION'') (SetsockoptString SOL_TCP TCP_CONGESTION (so_congestion config))))
      (sys_then (sys_when (so_window_clamp config > 0)
        (sys_do os (msg_err ''failed to set TCP_WINDOW_CLAMP'') (SetsockoptInt IPPROTO_TCP TCP_WINDOW_CLAMP (so_window_clamp config))))
      (sys_then (sys_when (so_user_timeout config > 0)
        (sys_do os (msg_err ''failed to set TCP_USER_TIMEOUT'') (SetsockoptInt IPPROTO_TCP TCP_USER_TIMEOUT (so_user_timeout config))))
      (sys_then (sys_when (so_max_seg config > 0)
        (sys_do os (msg_err ''failed to set TCP_MAXSEG'') (SetsockoptInt IPPROTO_TCP TCP_MAXSEG (so_max_seg config))))
      (sys_when (so_no_delay config)
        (sys_do os (msg_err ''failed to set TCP_NODELAY'') (SetsockoptInt IPPROTO_TCP TCP_NODELAY 1)))))))))"

definition linux_socket_options :: "kernel \<Rightarrow> string \<Rightarrow> socket_config \<Rightarrow> sys" where
  "linux_socket_options os network config =
     sys_then (sys_when (so_mark config \<noteq> 0)
       (sys_do os (Wrap ''failed to set SO_MARK'') (SetsockoptInt SOL_SOCKET SO_MARK (so_mark config))))
     (sys_then (sys_when (so_interface config \<noteq> '''')
       (sys_do os (Wrap ''failed to set Interface'') (BindToDevice (so_interface config))))
     (sys_when (isTCPSocket network) (linux_tcp_options os config)))"

subsection \<open>sockopt_freebsd.go\<close>

text \<open>
  The part after the TCP options asks \<open>config.Tproxy.IsEnabled()\<close>, a method that the repository does not define, and is
  left out.
\<close>

definition freebsd_tcp_options :: "kernel \<Rightarrow> string \<Rightarrow> socket_config \<Rightarrow> sys" where
  "freebsd_tcp_options os network config =
     sys_then (sys_when (so_mark config \<noteq> 0)
       (sys_do os (Wrap ''failed to set SO_USER_COOKIE'') (SetsockoptInt SOL_SOCKET SO_USER_COOKIE (so_mark config))))
     (sys_when (isTCPSocket network)
       (let tfo = ParseTFOValue config; tfo = (if tfo > 0 then 1 else tfo) in
        sys_then (sys_when (tfo \<ge> 0)
          (sys_do os (Wrap (''failed to set TCP_FASTOPEN_CONNECT='' @ itoa tfo)) (SetsockoptInt IPPROTO_TCP TCP_FASTOPEN tfo)))
        (keepalive os config (sys_then (keepalive_idle os config) (keepalive_interval os config)))))"

subsection \<open>sockopt_darwin.go\<close>

text \<open>An interface that is up, not a loopback, and has an IPv4 address that is no loopback: its name and index.\<close>

record net_interface =
  if_name :: string
  if_index :: int
  if_up :: bool
  if_loopback :: bool
  if_addrs :: "bytes list"

definition getInterfaceIndexByName :: "(bytes \<Rightarrow> bool) \<Rightarrow> net_interface list res \<Rightarrow> string \<Rightarrow> int" where
  "getInterfaceIndexByName isLoopback ifaces name =
     (case ifaces of
        Inl e \<Rightarrow> 0
      | Inr is \<Rightarrow>
          (case find (\<lambda>i. if_up i \<and> \<not> if_loopback i
                \<and> list_ex (\<lambda>ip. \<not> isLoopback ip \<and> to4 ip \<noteq> None \<and> if_name i = name) (if_addrs i)) is of
             Some i \<Rightarrow> if_index i
           | None \<Rightarrow> 0))"

definition darwin_keepalive_values :: "kernel \<Rightarrow> socket_config \<Rightarrow> sys" where
  "darwin_keepalive_values os config =
     sys_then
       (sys_when (so_keep_idle config > 0)
         (sys_do os (msg_err ''failed to set TCP_KEEPINTVL'') (SetsockoptInt IPPROTO_TCP TCP_KEEPALIVE (so_keep_interval config))))
       (sys_when (so_keep_interval config > 0)
         (sys_do os (msg_err ''failed to set TCP_KEEPIDLE'') (SetsockoptInt IPPROTO_TCP TCP_KEEPINTVL (so_keep_idle config))))"

definition darwin_socket_options :: "kernel \<Rightarrow> (string \<Rightarrow> int) \<Rightarrow> string \<Rightarrow> socket_config \<Rightarrow> sys" where
  "darwin_socket_options os interfaceIndex network config =
     sys_when (isTCPSocket network)
       (let tfo = ParseTFOValue config; tfo = (if tfo > 0 then 2 else tfo) in
        sys_then (sys_when (tfo \<ge> 0) (sys_do os id (SetsockoptInt IPPROTO_TCP TCP_FASTOPEN tfo)))
        (sys_then (sys_when (so_interface config \<noteq> '''' \<and> interfaceIndex (so_interface config) \<noteq> 0)
          (sys_do os (Wrap ''failed to set Interface'') (SetsockoptInt IPPROTO_IP IP_BOUND_IF (interfaceIndex (so_interface config)))))
        (sys_then (keepalive os config (darwin_keepalive_values os config))
        (sys_when (so_no_delay config)
          (sys_do os (msg_err ''failed to set TCP_NODELAY'') (SetsockoptInt IPPROTO_TCP TCP_NODELAY 1))))))"

subsection \<open>sockopt_windows.go\<close>

definition setTFO :: "kernel \<Rightarrow> int \<Rightarrow> sys" where
  "setTFO os tfo =
     (let tfo = (if tfo > 0 then 1 else tfo) in
      sys_when (tfo \<ge> 0) (sys_do os id (SetsockoptInt IPPROTO_TCP TCP_FASTOPEN tfo)))"

text \<open>An index is stored big-endian and read back as the machine's (little-endian) number for an IPv4 socket.\<close>

definition swap32 :: "32 word \<Rightarrow> 32 word" where
  "swap32 w = push_bit 24 (w AND 255) OR push_bit 8 (w AND 65280) OR drop_bit 8 (w AND 16711680) OR drop_bit 24 w"

definition windows_socket_options :: "kernel \<Rightarrow> (string \<Rightarrow> int res) \<Rightarrow> string \<Rightarrow> socket_config \<Rightarrow> sys" where
  "windows_socket_options os InterfaceByName network config =
     sys_then (sys_when (so_interface config \<noteq> '''')
       (case InterfaceByName (so_interface config) of
          Inl err \<Rightarrow> (Some (Wrap ''failed to find the interface'' err), [])
        | Inr index \<Rightarrow>
            if network = ''tcp4'' then
              sys_do os (Wrap ''failed to set IP_UNICAST_IF'') (SetsockoptInt IPPROTO_IP IP_UNICAST_IF (uint (swap32 (word_of_int index))))
            else
              sys_do os (Wrap ''failed to set IPV6_UNICAST_IF'') (SetsockoptInt IPPROTO_IPV6 IPV6_UNICAST_IF index)))
     (sys_when (isTCPSocket network)
       (sys_then (setTFO os (ParseTFOValue config))
       (sys_then
         (if so_keep_idle config > 0 then
            sys_do os (msg_err ''failed to set SO_KEEPALIVE'') (SetsockoptInt SOL_SOCKET SO_KEEPALIVE 1)
          else sys_when (so_keep_idle config < 0)
            (sys_do os (msg_err ''failed to unset SO_KEEPALIVE'') (SetsockoptInt SOL_SOCKET SO_KEEPALIVE 0)))
       (sys_when (so_no_delay config)
         (sys_do os (msg_err ''failed to set TCP_NODELAY'') (SetsockoptInt IPPROTO_TCP TCP_NODELAY 1))))))"

subsection \<open>The first error ends the calls\<close>

text \<open>
  A sequence of calls is orderly for a kernel when it fails exactly if one of its calls does, and that is the
  last one. All the tables of options are.
\<close>

definition orderly :: "kernel \<Rightarrow> sys \<Rightarrow> bool" where
  "orderly os m \<longleftrightarrow> (fst m = None \<longrightarrow> list_all (\<lambda>c. os c = None) (snd m))
     \<and> (fst m \<noteq> None \<longrightarrow> (\<exists>cs c. snd m = cs @ [c] \<and> list_all (\<lambda>c. os c = None) cs \<and> os c \<noteq> None))"

named_theorems orderly_intros \<open>sequences of calls that stop at the first error\<close>

lemma orderly_return [orderly_intros]: "orderly os sys_return"
  by (simp add: orderly_def sys_return_def)

lemma orderly_do [orderly_intros]: "orderly os (sys_do os wrap c)"
  by (auto simp: orderly_def sys_do_def)

lemma orderly_then [orderly_intros]:
  assumes "orderly os m" "orderly os k"
  shows "orderly os (sys_then m k)"
proof (cases "fst m")
  case None
  then have m: "list_all (\<lambda>c. os c = None) (snd m)" using assms(1) by (simp add: orderly_def)
  show ?thesis
  proof (cases "fst k")
    case None
    with m \<open>fst m = None\<close> assms(2) show ?thesis by (simp add: orderly_def sys_then_def)
  next
    case (Some e)
    then obtain cs c where "snd k = cs @ [c]" "list_all (\<lambda>c. os c = None) cs" "os c \<noteq> None" using assms(2) by (auto simp: orderly_def)
    with m \<open>fst m = None\<close> Some show ?thesis by (auto simp: orderly_def sys_then_def intro!: exI [of _ "snd m @ cs"])
  qed
next
  case (Some e)
  with assms(1) show ?thesis by (simp add: sys_then_def)
qed

lemma orderly_when [orderly_intros]: "orderly os m \<Longrightarrow> orderly os (sys_when b m)"
  by (simp add: sys_when_def orderly_return)

lemma orderly_if [orderly_intros]: "orderly os m \<Longrightarrow> orderly os k \<Longrightarrow> orderly os (if b then m else k)"
  by simp

lemma orderly_keepalive [orderly_intros]: "orderly os values \<Longrightarrow> orderly os (keepalive os config values)"
  unfolding keepalive_def by (intro orderly_intros)

lemma linux_orderly: "orderly os (linux_socket_options os network config)"
  unfolding linux_socket_options_def linux_tcp_options_def keepalive_interval_def keepalive_idle_def Let_def
  by (intro orderly_intros)

lemma freebsd_orderly: "orderly os (freebsd_tcp_options os network config)"
  unfolding freebsd_tcp_options_def keepalive_interval_def keepalive_idle_def Let_def by (intro orderly_intros)

lemma darwin_orderly: "orderly os (darwin_socket_options os ifs network config)"
  unfolding darwin_socket_options_def darwin_keepalive_values_def Let_def by (intro orderly_intros)

subsection \<open>Keep-alive values\<close>

lemmas keepalive_defs = keepalive_def keepalive_idle_def keepalive_interval_def darwin_keepalive_values_def
  sys_then_def sys_when_def sys_do_def sys_return_def

text \<open>With both values set, Linux and FreeBSD give each option its value; Darwin exchanges the two.\<close>

lemma keepalive_values:
  assumes "so_keep_interval config > 0" "so_keep_idle config > 0"
  shows "set (snd (keepalive (\<lambda>_. None) config (sys_then (keepalive_interval (\<lambda>_. None) config) (keepalive_idle (\<lambda>_. None) config))))
      = {SetsockoptInt IPPROTO_TCP TCP_KEEPINTVL (so_keep_interval config), SetsockoptInt IPPROTO_TCP TCP_KEEPIDLE (so_keep_idle config),
         SetsockoptInt SOL_SOCKET SO_KEEPALIVE 1}"
    "set (snd (keepalive (\<lambda>_. None) config (sys_then (keepalive_idle (\<lambda>_. None) config) (keepalive_interval (\<lambda>_. None) config))))
      = {SetsockoptInt IPPROTO_TCP TCP_KEEPINTVL (so_keep_interval config), SetsockoptInt IPPROTO_TCP TCP_KEEPIDLE (so_keep_idle config),
         SetsockoptInt SOL_SOCKET SO_KEEPALIVE 1}"
    "set (snd (keepalive (\<lambda>_. None) config (darwin_keepalive_values (\<lambda>_. None) config)))
      = {SetsockoptInt IPPROTO_TCP TCP_KEEPALIVE (so_keep_interval config), SetsockoptInt IPPROTO_TCP TCP_KEEPINTVL (so_keep_idle config),
         SetsockoptInt SOL_SOCKET SO_KEEPALIVE 1}"
  using assms by (auto simp: keepalive_defs)

text \<open>With only the idle time set, Darwin sets it to the interval, which is not positive.\<close>

lemma darwin_idle_only:
  assumes "so_keep_idle config > 0" "so_keep_interval config \<le> 0"
  shows "SetsockoptInt IPPROTO_TCP TCP_KEEPALIVE (so_keep_interval config)
    \<in> set (snd (darwin_keepalive_values (\<lambda>_. None) config))"
  using assms by (auto simp: keepalive_defs)

end
