(* ===== verification/SystemDial.thy ===== *)
theory SystemDial
  imports SockOpts
begin

section \<open>The system dialer (transport/internet/dialer.go, system_dialer.go, common/session/context.go)\<close>

text \<open>
  What the program passes to \<open>net.Dialer.DialContext\<close>, which is the parameter \<open>netDial\<close>: network, address, local address,
  keep-alive, multipath, and the control function that sets the options of a socket before it connects (on Linux; no
  external controllers are registered). Contexts carry the values of the session package.
\<close>

subsection \<open>session/context.go\<close>

datatype session_key = IdSessionKey | InboundSessionKey | OutboundSessionKey | TimeoutOnlyKey

record outbound =
  ob_gateway :: "address option"

datatype session_value = SessionID "32 word" | SessionOutbound "outbound option" | SessionBool bool

type_synonym go_context = "session_key \<Rightarrow> session_value option"

definition background :: go_context where
  "background = (\<lambda>_. None)"

definition ContextWithID :: "go_context \<Rightarrow> 32 word \<Rightarrow> go_context" where
  "ContextWithID ctx i = ctx(IdSessionKey := Some (SessionID i))"

definition IDFromContext :: "go_context \<Rightarrow> 32 word" where
  "IDFromContext ctx = (case ctx IdSessionKey of Some (SessionID i) \<Rightarrow> i | _ \<Rightarrow> 0)"

definition ContextWithOutbound :: "go_context \<Rightarrow> outbound option \<Rightarrow> go_context" where
  "ContextWithOutbound ctx ob = ctx(OutboundSessionKey := Some (SessionOutbound ob))"

definition OutboundFromContext :: "go_context \<Rightarrow> outbound option" where
  "OutboundFromContext ctx = (case ctx OutboundSessionKey of Some (SessionOutbound ob) \<Rightarrow> ob | _ \<Rightarrow> None)"

definition ContextWithTimeoutOnly :: "go_context \<Rightarrow> bool \<Rightarrow> go_context" where
  "ContextWithTimeoutOnly ctx only = ctx(TimeoutOnlyKey := Some (SessionBool only))"

text \<open>What is put into a context is found there, whatever else was put into it.\<close>

lemma context_values [simp]:
  "OutboundFromContext (ContextWithOutbound ctx ob) = ob" "OutboundFromContext (ContextWithID ctx i) = OutboundFromContext ctx"
  "OutboundFromContext (ContextWithTimeoutOnly ctx b) = OutboundFromContext ctx" "OutboundFromContext background = None"
  "IDFromContext (ContextWithID ctx i) = i" "IDFromContext (ContextWithOutbound ctx ob) = IDFromContext ctx"
  "IDFromContext (ContextWithTimeoutOnly ctx b) = IDFromContext ctx" "IDFromContext background = 0"
  by (simp_all add: OutboundFromContext_def ContextWithOutbound_def ContextWithID_def ContextWithTimeoutOnly_def IDFromContext_def background_def)

subsection \<open>system_dialer.go\<close>

datatype local_addr = LocalTCP bytes | LocalUDP bytes

record system_request =
  sr_network :: string
  sr_address :: string
  sr_local :: "local_addr option"
  sr_keep_alive :: int
  sr_mptcp :: bool
  sr_control :: "(kernel \<Rightarrow> string \<Rightarrow> sys_call list) option"

definition AnyIP :: address where
  "AnyIP = Ipv4Address [0, 0, 0, 0]"

definition resolveSrcAddr :: "network \<Rightarrow> address option \<Rightarrow> local_addr option res" where
  "resolveSrcAddr network src =
     (case src of
        None \<Rightarrow> Inr None
      | Some a \<Rightarrow>
          if a = AnyIP then Inr None
          else if network = Network_TCP then and_then (addr_ip a) (\<lambda>ip. Inr (Some (LocalTCP ip)))
          else and_then (addr_ip a) (\<lambda>ip. Inr (Some (LocalUDP ip))))"

definition hasBindAddr :: "socket_config option \<Rightarrow> bool" where
  "hasBindAddr sockopt = (case sockopt of None \<Rightarrow> False | Some so \<Rightarrow> length (so_bind_address so) > 0 \<and> so_bind_port so > 0)"

text \<open>
  The control function: the errors of the options and of the binding are logged and nothing else, so that only the
  calls remain.
\<close>

definition dial_control :: "network \<Rightarrow> socket_config option \<Rightarrow> kernel \<Rightarrow> string \<Rightarrow> sys_call list" where
  "dial_control dest_network sockopt os network =
     (case sockopt of
        None \<Rightarrow> []
      | Some so \<Rightarrow>
          snd (linux_socket_options os network so)
          @ (if dest_network = Network_UDP \<and> hasBindAddr sockopt then snd (bindAddr os (so_bind_address so) (so_bind_port so)) else []))"

definition system_Dial :: "(system_request \<Rightarrow> 'c res) \<Rightarrow> address option \<Rightarrow> destination \<Rightarrow> socket_config option \<Rightarrow> 'c res" where
  "system_Dial netDial src dest sockopt =
     and_then (dest_String dest) (\<lambda>_.
       let goStdKeepAlive = (case sockopt of None \<Rightarrow> 0 | Some so \<Rightarrow> if so_keep_interval so \<noteq> 0 \<or> so_keep_idle so \<noteq> 0 then - 1 else 0)
       in and_then (resolveSrcAddr (ds_network dest) src) (\<lambda>local.
          and_then (NetAddr dest) (\<lambda>addr.
            netDial \<lparr>sr_network = SystemString (ds_network dest), sr_address = addr, sr_local = local, sr_keep_alive = goStdKeepAlive,
                     sr_mptcp = (case sockopt of None \<Rightarrow> False | Some so \<Rightarrow> so_mptcp so),
                     sr_control = (case sockopt of None \<Rightarrow> None | Some so \<Rightarrow> Some (dial_control (ds_network dest) sockopt))\<rparr>)))"

subsection \<open>dialer.go\<close>

definition DialSystem :: "(system_request \<Rightarrow> 'c res) \<Rightarrow> go_context \<Rightarrow> destination \<Rightarrow> socket_config option \<Rightarrow> 'c res" where
  "DialSystem netDial ctx dest sockopt =
     (let src = (case OutboundFromContext ctx of Some ob \<Rightarrow> ob_gateway ob | None \<Rightarrow> None)
      in system_Dial netDial src dest sockopt)"

text \<open>Without an outbound in its context and without socket settings a dial is the plain one of the address.\<close>

lemma DialSystem_no_outbound:
  assumes "OutboundFromContext ctx = None"
  shows "DialSystem netDial ctx (TCPDestination (Some a) port) None =
    netDial \<lparr>sr_network = ''tcp'', sr_address = addr_String a @ CHR '':'' # port_string port, sr_local = None, sr_keep_alive = 0,
             sr_mptcp = False, sr_control = None\<rparr>"
  using assms
  by (simp add: DialSystem_def system_Dial_def resolveSrcAddr_def dest_String_def NetAddr_def TCPDestination_def dest_addr_string_def Let_def)

text \<open>A domain as gateway makes the dialer panic.\<close>

lemma domain_gateway_panics:
  assumes "OutboundFromContext ctx = Some ob" "ob_gateway ob = Some (DomainAddress d)"
  shows "DialSystem netDial ctx (TCPDestination (Some a) port) so = Inl (Panic ''Calling IP() on a DomainAddress.'')"
  using assms
  by (simp add: DialSystem_def system_Dial_def resolveSrcAddr_def AnyIP_def dest_String_def TCPDestination_def dest_addr_string_def
      NetAddr_def Let_def)

end
