(* ===== verification/VlessDial.thy ===== *)
theory VlessDial
  imports TlsConfig SystemDial
begin

section \<open>Dialling the server of a vless profile\<close>

text \<open>
  \<open>DialVlessWS\<close> and \<open>DialVlessGRPC\<close> (\<open>vless/handler_ws.go\<close>, \<open>vless/handler_grpc.go\<close>) build the stream settings of a
  profile, \<open>internet.Dial\<close> finds the dialer of the transport, and \<open>websocket/dialer.go\<close> and \<open>grpc/dial.go\<close> turn the
  settings into the call of the third-party dialer. That call is a parameter: \<open>connect\<close> gets a
  \<open>dial_request\<close> with everything the program passes to gorilla's \<open>DialContext\<close> or to \<open>grpc.Dial\<close> and the stream
  call, and returns the connection or an error. \<open>grpc_context_dial\<close> is the dialer that the program hands to
  the gRPC library, called with the target.
\<close>

subsection \<open>Requests to the third-party dialers\<close>

record ws_request =
  wr_dest :: destination
  wr_uri :: string
  wr_header :: "string list gomap"
  wr_tls :: "go_tls option"
  wr_fingerprint :: "string option"
  wr_socket :: "socket_config option"

record grpc_request =
  gr_target :: string
  gr_authority :: string
  gr_keepalive :: "(int \<times> int \<times> bool) option"
  gr_window :: "int option"
  gr_agent :: "string option"
  gr_service :: string
  gr_stream :: string
  gr_multi :: bool

datatype dial_request = WsRequest ws_request | GrpcRequest grpc_request

record dial_env =
  de_proto :: codec
  de_registry :: registry
  de_tls :: tls_env
  de_random :: nat

text \<open>\<open>errors.NewError(p).Base(err)\<close> around a failing call; a panic is not caught.\<close>

definition base_err :: "string \<Rightarrow> 'a res \<Rightarrow> 'a res" where
  "base_err p r = (case r of Inl (Panic m) \<Rightarrow> Inl (Panic m) | Inl err \<Rightarrow> Inl (Wrap p err) | Inr x \<Rightarrow> Inr x)"

subsection \<open>websocket/dialer.go\<close>

text \<open>The function that gorilla's dialer calls to open the TCP connection of a request.\<close>

definition ws_NetDial :: "(system_request \<Rightarrow> 'c res) \<Rightarrow> go_context \<Rightarrow> ws_request \<Rightarrow> 'c res" where
  "ws_NetDial netDial ctx r = DialSystem netDial ctx (wr_dest r) (wr_socket r)"

definition ws_host :: "string \<Rightarrow> destination \<Rightarrow> string res" where
  "ws_host protocol dest =
     and_then (NetAddr dest) (\<lambda>host.
       if protocol = ''ws'' \<and> ds_port dest = 80 \<or> protocol = ''wss'' \<and> ds_port dest = 443 then dest_addr_string dest else Inr host)"

definition dialWebSocket :: "dial_env \<Rightarrow> (dial_request \<Rightarrow> 'c res) \<Rightarrow> destination \<Rightarrow> memory_stream_config \<Rightarrow> 'c res" where
  "dialWebSocket e connect dest streamSettings =
     (case ms_settings streamSettings of
        WsMsg wsSettings \<Rightarrow>
          (let config = tls_ConfigFromStreamSettings (Some streamSettings);
               protocol = (if config = None then ''ws'' else ''wss'')
           in and_then
                (case config of
                   None \<Rightarrow> Inr None
                 | Some c \<Rightarrow> and_then (GetTLSConfig (de_tls e) c [WithDestination dest, WithNextProto [''http/1.1'']]) (\<lambda>t. Inr (Some t)))
                (\<lambda>tlsConfig. and_then (ws_host protocol dest) (\<lambda>host.
                   let uri = protocol @ ''://'' @ host @ GetNormalizedPath wsSettings in
                   base_err (''failed to dial to ('' @ uri @ ''): '')
                     (connect (WsRequest \<lparr>wr_dest = dest, wr_uri = uri, wr_header = GetRequestHeader wsSettings, wr_tls = tlsConfig,
                        wr_fingerprint = (case config of None \<Rightarrow> None | Some c \<Rightarrow> GetFingerprint (de_random e) (tc_fingerprint c)),
                        wr_socket = ms_socket streamSettings\<rparr>)))))
      | _ \<Rightarrow> Inl (Panic ''interface conversion''))"

definition ws_Dial :: "dial_env \<Rightarrow> (dial_request \<Rightarrow> 'c res) \<Rightarrow> destination \<Rightarrow> memory_stream_config \<Rightarrow> 'c res" where
  "ws_Dial e connect dest streamSettings = base_err ''failed to dial WebSocket'' (dialWebSocket e connect dest streamSettings)"

subsection \<open>grpc/dial.go\<close>

text \<open>What is put around the connection that the context dialer opens.\<close>

datatype security = PlainTcp | UtlsClient go_tls string | TlsClient go_tls | RealityClient message

definition grpc_context_dial ::
  "dial_env \<Rightarrow> (system_request \<Rightarrow> 'c res) \<Rightarrow> go_context \<Rightarrow> go_context \<Rightarrow> memory_stream_config \<Rightarrow> string \<Rightarrow> ('c \<times> security) res" where
  "grpc_context_dial e netDial ctx gctx streamSettings s =
     and_then (split_host_port s) (\<lambda>(rawHost, rawPort).
     and_then (PortFromString (if length rawPort = 0 then ''443'' else rawPort)) (\<lambda>port.
       let address = ParseAddress rawHost;
           gctx = ContextWithID gctx (IDFromContext ctx);
           gctx = ContextWithOutbound gctx (OutboundFromContext ctx);
           gctx = ContextWithTimeoutOnly gctx True in
       and_then (DialSystem netDial gctx (TCPDestination address port) (ms_socket streamSettings)) (\<lambda>c.
       case tls_ConfigFromStreamSettings (Some streamSettings) of
         Some tlsConfig \<Rightarrow>
           and_then (GetTLSConfig (de_tls e) tlsConfig []) (\<lambda>config.
           and_then (if gt_server_name config = [] then
                       (case address of
                          None \<Rightarrow> Inl (Panic ''nil pointer dereference'')
                        | Some a \<Rightarrow> if IsDomain (addr_family a) then and_then (addr_domain a) (\<lambda>d. Inr (config\<lparr>gt_server_name := d\<rparr>))
                                    else Inr config)
                     else Inr config) (\<lambda>config.
             Inr (c, case GetFingerprint (de_random e) (tc_fingerprint tlsConfig) of
                       Some f \<Rightarrow> UtlsClient config f
                     | None \<Rightarrow> TlsClient config)))
       | None \<Rightarrow>
           (case reality_ConfigFromStreamSettings (Some streamSettings) of
              Some r \<Rightarrow> Inr (c, RealityClient r)
            | None \<Rightarrow> Inr (c, PlainTcp)))))"

definition grpc_authority :: "grpc_config \<Rightarrow> memory_stream_config \<Rightarrow> address \<Rightarrow> string res" where
  "grpc_authority grpcSettings streamSettings a =
     (let tlsConfig = tls_ConfigFromStreamSettings (Some streamSettings) in
      if gc_authority grpcSettings \<noteq> '''' then Inr (gc_authority grpcSettings)
      else if tlsConfig \<noteq> None \<and> tc_server_name (the tlsConfig) \<noteq> '''' then Inr (tc_server_name (the tlsConfig))
      else if reality_ConfigFromStreamSettings (Some streamSettings) = None \<and> IsDomain (addr_family a) then addr_domain a
      else Inr '''')"

definition dialgRPC :: "dial_env \<Rightarrow> (dial_request \<Rightarrow> 'c res) \<Rightarrow> destination \<Rightarrow> memory_stream_config \<Rightarrow> 'c res" where
  "dialgRPC e connect dest streamSettings =
     (case ms_settings streamSettings of
        GrpcMsg c \<Rightarrow>
          (case ds_address dest of
             None \<Rightarrow> Inl (Panic ''nil pointer dereference'')
           | Some a \<Rightarrow>
               and_then (grpc_authority c streamSettings a) (\<lambda>authority.
               and_then (if IsDomain (addr_family a) then addr_domain a else and_then (addr_ip a) (\<lambda>ip. Inr (ip_string ip))) (\<lambda>grpcDestHost.
                 base_err ''Cannot dial gRPC''
                   (connect (GrpcRequest \<lparr>gr_target = join_host_port grpcDestHost (port_string (ds_port dest)), gr_authority = authority,
                      gr_keepalive = (if gc_idle c > 0 \<or> gc_health c > 0 \<or> gc_permit c then Some (gc_idle c, gc_health c, gc_permit c) else None),
                      gr_window = (if gc_window c > 0 then Some (gc_window c) else None),
                      gr_agent = (if gc_agent c \<noteq> '''' then Some (gc_agent c) else None),
                      gr_service = getServiceName c, gr_stream = (if gc_multi c then getTunMultiStreamName c else getTunStreamName c),
                      gr_multi = gc_multi c\<rparr>)))))
      | _ \<Rightarrow> Inl (Panic ''interface conversion''))"

definition grpc_Dial :: "dial_env \<Rightarrow> (dial_request \<Rightarrow> 'c res) \<Rightarrow> destination \<Rightarrow> memory_stream_config \<Rightarrow> 'c res" where
  "grpc_Dial e connect dest streamSettings = base_err ''failed to dial gRPC'' (dialgRPC e connect dest streamSettings)"

subsection \<open>internet.Dial\<close>

definition internet_Dial :: "dial_env \<Rightarrow> (dial_request \<Rightarrow> 'c res) \<Rightarrow> destination \<Rightarrow> memory_stream_config option \<Rightarrow> 'c res" where
  "internet_Dial e connect dest streamSettings =
     (if ds_network dest = Network_TCP then
        and_then (case streamSettings of
                    None \<Rightarrow> base_err ''failed to create default stream settings'' (ToMemoryStreamConfig (de_proto e) (de_registry e) None)
                  | Some s \<Rightarrow> Inr s) (\<lambda>s.
          case gm_get (rg_dialers (de_registry e)) (ms_name s) of
            None \<Rightarrow> Inl (Msg (ms_name s @ '' dialer not registered''))
          | Some WsDialer \<Rightarrow> ws_Dial e connect dest s
          | Some GrpcDialer \<Rightarrow> grpc_Dial e connect dest s)
      else Inl (Msg (''unknown network '' @ SystemString (ds_network dest))))"

subsection \<open>The dialers of the vless strategy\<close>

definition vless_dest :: "server_profile \<Rightarrow> destination" where
  "vless_dest profile = TCPDestination (ParseAddress (pf_address profile)) (word_of_int (pf_port profile))"

definition vless_stream :: "codec \<Rightarrow> string \<Rightarrow> message \<Rightarrow> tls_config \<Rightarrow> server_profile \<Rightarrow> stream_config" where
  "vless_stream pr name settings tlsConfig profile =
     (let streamSettings = \<lparr>sc_protocol = Protocol_TCP, sc_name = name,
            sc_transports = [\<lparr>tr_protocol = Protocol_TCP, tr_name = name, tr_settings = ToTypedMessage pr settings\<rparr>],
            sc_security_type = '''', sc_security = [], sc_socket = None\<rparr>
      in if pf_security profile = ''tls'' then
           streamSettings\<lparr>sc_security_type := GetMessageType (TlsMsg zero_tls), sc_security := [ToTypedMessage pr (TlsMsg tlsConfig)]\<rparr>
         else streamSettings)"

definition ws_settings :: "server_profile \<Rightarrow> ws_config" where
  "ws_settings profile = zero_ws\<lparr>ws_path := pf_path profile, ws_header := [(''Host'', pf_host profile)]\<rparr>"

definition ws_tls :: "server_profile \<Rightarrow> tls_config" where
  "ws_tls profile = zero_tls\<lparr>tc_server_name := pf_sni profile, tc_fingerprint := pf_fingerprint profile\<rparr>"

definition DialVlessWS :: "dial_env \<Rightarrow> (dial_request \<Rightarrow> 'c res) \<Rightarrow> server_profile \<Rightarrow> 'c res" where
  "DialVlessWS e connect profile =
     and_then (base_err ''failed to create memory stream config''
       (ToMemoryStreamConfig (de_proto e) (de_registry e)
          (Some (vless_stream (de_proto e) ''websocket'' (WsMsg (ws_settings profile)) (ws_tls profile) profile))))
       (\<lambda>memoryStreamConfig. internet_Dial e connect (vless_dest profile) (Some memoryStreamConfig))"

definition grpc_settings :: "server_profile \<Rightarrow> grpc_config" where
  "grpc_settings profile = zero_grpc\<lparr>gc_service := pf_grpc_service profile, gc_multi := (pf_grpc_mode profile = ''multi''),
     gc_authority := pf_grpc_authority profile\<rparr>"

definition grpc_tls :: "server_profile \<Rightarrow> tls_config" where
  "grpc_tls profile = zero_tls\<lparr>tc_server_name := pf_sni profile, tc_next := [''h2'']\<rparr>"

definition DialVlessGRPC :: "dial_env \<Rightarrow> (dial_request \<Rightarrow> 'c res) \<Rightarrow> server_profile \<Rightarrow> 'c res" where
  "DialVlessGRPC e connect profile =
     and_then (base_err ''failed to create memory stream config''
       (ToMemoryStreamConfig (de_proto e) (de_registry e)
          (Some (vless_stream (de_proto e) ''grpc'' (GrpcMsg (grpc_settings profile)) (grpc_tls profile) profile))))
       (\<lambda>memoryStreamConfig. internet_Dial e connect (vless_dest profile) (Some memoryStreamConfig))"


subsection \<open>What is dialled\<close>

definition vless_memory :: "string \<Rightarrow> message \<Rightarrow> tls_config \<Rightarrow> server_profile \<Rightarrow> memory_stream_config" where
  "vless_memory name settings tlsConfig profile =
     \<lparr>ms_name = name, ms_settings = settings,
      ms_security_type = (if pf_security profile = ''tls'' then GetMessageType (TlsMsg zero_tls) else ''''),
      ms_security = (if pf_security profile = ''tls'' then Some (TlsMsg tlsConfig) else None), ms_socket = None\<rparr>"

lemma ToMemoryStreamConfig_vless:
  assumes "codec_ok pr settings" and "codec_ok pr (TlsMsg tlsConfig)" and "name \<noteq> []"
  shows "ToMemoryStreamConfig pr r (Some (vless_stream pr name settings tlsConfig profile)) = Inr (vless_memory name settings tlsConfig profile)"
proof -
  have "tm_type (ToTypedMessage pr (TlsMsg tlsConfig)) = GetMessageType (TlsMsg zero_tls)"
    by (simp add: ToTypedMessage_def)
  then show ?thesis
    using assms typed_roundtrip [OF assms(1)] typed_roundtrip [OF assms(2)]
    by (simp add: ToMemoryStreamConfig_def vless_stream_def vless_memory_def GetEffectiveTransportSettings_def GetTransportSettingsFor_def
        GetEffectiveProtocol_def GetUnifiedProtocolName_def HasSecuritySettings_def GetEffectiveSecuritySettings_def Let_def)
qed

lemma vless_memory_fields [simp]:
  "ms_name (vless_memory name settings c profile) = name" "ms_settings (vless_memory name settings c profile) = settings"
  "ms_socket (vless_memory name settings c profile) = None"
  by (simp_all add: vless_memory_def)

lemma tls_of_memory:
  "tls_ConfigFromStreamSettings (Some (vless_memory name settings c profile)) = (if pf_security profile = ''tls'' then Some c else None)"
  "reality_ConfigFromStreamSettings (Some (vless_memory name settings c profile)) = None"
  by (simp_all add: tls_ConfigFromStreamSettings_def reality_ConfigFromStreamSettings_def vless_memory_def)

definition system_roots :: "tls_env \<Rightarrow> bytes list option" where
  "system_roots e = (case te_system e of Inl _ \<Rightarrow> None | Inr p \<Rightarrow> Some p)"

definition verified_tls :: "tls_env \<Rightarrow> string \<Rightarrow> string list \<Rightarrow> go_tls" where
  "verified_tls e name protos =
     \<lparr>gt_roots = system_roots e, gt_insecure = False, gt_next = protos, gt_no_tickets = True, gt_server_name = name,
      gt_min = 0, gt_max = 0, gt_suites = [], gt_prefer = False, gt_key_log = None\<rparr>"

lemma ws_GetTLSConfig:
  assumes "dest_addr_string dest = Inr a"
  shows "GetTLSConfig e (ws_tls profile) [WithDestination dest, WithNextProto [''http/1.1'']]
       = Inr (verified_tls e (if pf_sni profile = '''' then a else pf_sni profile) [''http/1.1''])"
  using assms
  by (simp add: GetTLSConfig_def ws_tls_def zero_tls_def Let_def getCertPool_def WithDestination_def WithNextProto_def tls_version_def
      cipher_ids_def verified_tls_def system_roots_def)

lemma grpc_GetTLSConfig: "GetTLSConfig e (grpc_tls profile) [] = Inr (verified_tls e (pf_sni profile) [''h2''])"
  by (simp add: GetTLSConfig_def grpc_tls_def zero_tls_def Let_def getCertPool_def tls_version_def
      cipher_ids_def verified_tls_def system_roots_def)

lemma vless_dest_address:
  assumes "ParseAddress (pf_address profile) = Some a"
  shows "ds_address (vless_dest profile) = Some a" "dest_addr_string (vless_dest profile) = Inr (addr_String a)"
    "ds_network (vless_dest profile) = Network_TCP"
  using assms by (simp_all add: vless_dest_def TCPDestination_def dest_addr_string_def)

definition ws_scheme :: "server_profile \<Rightarrow> string" where
  "ws_scheme profile = (if pf_security profile = ''tls'' then ''wss'' else ''ws'')"

definition default_port :: "server_profile \<Rightarrow> 16 word" where
  "default_port profile = (if pf_security profile = ''tls'' then 443 else 80)"

definition ws_expected :: "dial_env \<Rightarrow> server_profile \<Rightarrow> address \<Rightarrow> ws_request" where
  "ws_expected e profile a =
     (let port = word_of_int (pf_port profile);
          host = addr_String a @ (if port = default_port profile then '''' else '':'' @ port_string port);
          path = (if pf_path profile = '''' then ''/'' else if hd (pf_path profile) = CHR ''/'' then pf_path profile else CHR ''/'' # pf_path profile);
          tls = pf_security profile = ''tls''
      in \<lparr>wr_dest = vless_dest profile, wr_uri = ws_scheme profile @ ''://'' @ host @ path, wr_header = [(''Host'', [pf_host profile])],
          wr_tls = (if tls then Some (verified_tls (de_tls e) (if pf_sni profile = '''' then addr_String a else pf_sni profile) [''http/1.1'']) else None),
          wr_fingerprint = (if tls then GetFingerprint (de_random e) (pf_fingerprint profile) else None), wr_socket = None\<rparr>)"

lemma host_header: "GetRequestHeader (ws_settings profile) = [(''Host'', [pf_host profile])]"
proof -
  have "canonical_key ''Host'' = ''Host''" by code_simp
  then show ?thesis by (simp add: GetRequestHeader_def ws_settings_def header_add_def Let_def)
qed

lemma normalized_path:
  "GetNormalizedPath (ws_settings profile) =
     (if pf_path profile = '''' then ''/'' else if hd (pf_path profile) = CHR ''/'' then pf_path profile else CHR ''/'' # pf_path profile)"
  by (cases "pf_path profile") (simp_all add: GetNormalizedPath_def ws_settings_def)

lemma ws_host_vless:
  assumes "ParseAddress (pf_address profile) = Some a"
  shows "ws_host (ws_scheme profile) (vless_dest profile)
       = Inr (addr_String a @ (if word_of_int (pf_port profile) = default_port profile then '''' else '':'' @ port_string (word_of_int (pf_port profile))))"
  using vless_dest_address [OF assms]
  by (simp add: ws_host_def ws_scheme_def default_port_def NetAddr_def vless_dest_def TCPDestination_def)

lemma dialWebSocket_vless:
  assumes a: "ParseAddress (pf_address profile) = Some a"
  shows "dialWebSocket e connect (vless_dest profile) (vless_memory ''websocket'' (WsMsg (ws_settings profile)) (ws_tls profile) profile)
     = base_err (''failed to dial to ('' @ wr_uri (ws_expected e profile a) @ ''): '') (connect (WsRequest (ws_expected e profile a)))"
proof -
  have fp: "tc_fingerprint (ws_tls profile) = pf_fingerprint profile" by (simp add: ws_tls_def)
  show ?thesis
  proof (cases "pf_security profile = ''tls''")
    case True
    then show ?thesis
      using ws_host_vless [OF a] ws_GetTLSConfig [OF vless_dest_address(2) [OF a], of "de_tls e" profile] fp
      unfolding dialWebSocket_def vless_memory_fields message.case tls_of_memory ws_expected_def host_header normalized_path
      by (simp add: Let_def ws_scheme_def)
  next
    case False
    then show ?thesis
      using ws_host_vless [OF a]
      unfolding dialWebSocket_def vless_memory_fields message.case tls_of_memory ws_expected_def host_header normalized_path
      by (simp add: Let_def ws_scheme_def)
  qed
qed

lemma DialVlessWS_request:
  assumes "initialised (de_registry e)" and "codec_ok (de_proto e) (WsMsg (ws_settings profile))" and "codec_ok (de_proto e) (TlsMsg (ws_tls profile))"
    and a: "ParseAddress (pf_address profile) = Some a"
  shows "DialVlessWS e connect profile =
     base_err ''failed to dial WebSocket'' (base_err (''failed to dial to ('' @ wr_uri (ws_expected e profile a) @ ''): '')
       (connect (WsRequest (ws_expected e profile a))))"
proof -
  have "DialVlessWS e connect profile = ws_Dial e connect (vless_dest profile)
      (vless_memory ''websocket'' (WsMsg (ws_settings profile)) (ws_tls profile) profile)"
    using assms(1) vless_dest_address(3) [OF a] ToMemoryStreamConfig_vless [OF assms(2,3), of "''websocket''" "de_registry e" profile]
    by (simp add: DialVlessWS_def internet_Dial_def initialised_def base_err_def)
  then show ?thesis unfolding ws_Dial_def dialWebSocket_vless [OF a] .
qed

definition grpc_expected :: "server_profile \<Rightarrow> address \<Rightarrow> grpc_request" where
  "grpc_expected profile a =
     \<lparr>gr_target = join_host_port (addr_host a) (port_string (word_of_int (pf_port profile))),
      gr_authority = (if pf_grpc_authority profile \<noteq> '''' then pf_grpc_authority profile
                      else if pf_security profile = ''tls'' \<and> pf_sni profile \<noteq> '''' then pf_sni profile
                      else if IsDomain (addr_family a) then addr_host a else ''''),
      gr_keepalive = None, gr_window = None, gr_agent = None, gr_service = getServiceName (grpc_settings profile),
      gr_stream = (if pf_grpc_mode profile = ''multi'' then getTunMultiStreamName (grpc_settings profile)
                   else getTunStreamName (grpc_settings profile)),
      gr_multi = (pf_grpc_mode profile = ''multi'')\<rparr>"

definition grpc_security :: "dial_env \<Rightarrow> server_profile \<Rightarrow> address \<Rightarrow> security" where
  "grpc_security e profile a =
     (if pf_security profile = ''tls'' then
        TlsClient (verified_tls (de_tls e)
          (if pf_sni profile \<noteq> '''' then pf_sni profile else if IsDomain (addr_family a) then addr_host a else '''') [''h2''])
      else PlainTcp)"

lemma grpc_authority_vless:
  "grpc_authority (grpc_settings profile) (vless_memory ''grpc'' (GrpcMsg (grpc_settings profile)) (grpc_tls profile) profile) a
     = Inr (gr_authority (grpc_expected profile a))"
  unfolding grpc_authority_def tls_of_memory
  by (cases a) (simp_all add: Let_def grpc_settings_def grpc_tls_def grpc_expected_def IsDomain_def)

lemma dialgRPC_vless:
  assumes a: "ParseAddress (pf_address profile) = Some a"
  shows "dialgRPC e connect (vless_dest profile) (vless_memory ''grpc'' (GrpcMsg (grpc_settings profile)) (grpc_tls profile) profile)
     = base_err ''Cannot dial gRPC'' (connect (GrpcRequest (grpc_expected profile a)))"
proof -
  have "(if IsDomain (addr_family a) then addr_domain a else and_then (addr_ip a) (\<lambda>ip. Inr (ip_string ip))) = Inr (addr_host a)"
    by (cases a) (simp_all add: IsDomain_def)
  moreover have "ds_port (vless_dest profile) = word_of_int (pf_port profile)" by (simp add: vless_dest_def TCPDestination_def)
  moreover have "gc_idle (grpc_settings profile) = 0" "gc_health (grpc_settings profile) = 0" "\<not> gc_permit (grpc_settings profile)"
    "gc_window (grpc_settings profile) = 0" "gc_agent (grpc_settings profile) = ''''"
    "gc_multi (grpc_settings profile) \<longleftrightarrow> pf_grpc_mode profile = ''multi''"
    by (simp_all add: grpc_settings_def zero_grpc_def)
  ultimately show ?thesis
    unfolding dialgRPC_def vless_memory_fields message.case vless_dest_address(1) [OF a] option.case grpc_authority_vless and_then.simps
    by (simp add: grpc_expected_def)
qed

lemma DialVlessGRPC_request:
  assumes "initialised (de_registry e)" and "codec_ok (de_proto e) (GrpcMsg (grpc_settings profile))" and "codec_ok (de_proto e) (TlsMsg (grpc_tls profile))"
    and a: "ParseAddress (pf_address profile) = Some a"
  shows "DialVlessGRPC e connect profile =
     base_err ''failed to dial gRPC'' (base_err ''Cannot dial gRPC'' (connect (GrpcRequest (grpc_expected profile a))))"
proof -
  have "DialVlessGRPC e connect profile = grpc_Dial e connect (vless_dest profile)
      (vless_memory ''grpc'' (GrpcMsg (grpc_settings profile)) (grpc_tls profile) profile)"
    using assms(1) vless_dest_address(3) [OF a] ToMemoryStreamConfig_vless [OF assms(2,3), of "''grpc''" "de_registry e" profile]
    by (simp add: DialVlessGRPC_def internet_Dial_def initialised_def base_err_def)
  then show ?thesis unfolding grpc_Dial_def dialgRPC_vless [OF a] .
qed

definition profile_request :: "server_profile \<Rightarrow> address \<Rightarrow> system_request" where
  "profile_request profile a =
     \<lparr>sr_network = ''tcp'', sr_address = addr_String a @ CHR '':'' # port_string (word_of_int (pf_port profile)), sr_local = None,
      sr_keep_alive = 0, sr_mptcp = False, sr_control = None\<rparr>"

lemma DialSystem_vless:
  "OutboundFromContext ctx = None \<Longrightarrow> DialSystem netDial ctx (TCPDestination (Some a) (word_of_int (pf_port profile))) None = netDial (profile_request profile a)"
  by (simp add: DialSystem_no_outbound profile_request_def)

lemma grpc_context_dial_vless:
  assumes "ParseAddress (pf_address profile) = Some a" and "nameable a"
  shows "grpc_context_dial e netDial background gctx (vless_memory ''grpc'' (GrpcMsg (grpc_settings profile)) (grpc_tls profile) profile) (gr_target (grpc_expected profile a))
     = and_then (netDial (profile_request profile a)) (\<lambda>c. Inr (c, grpc_security e profile a))"
proof -
  let ?p = "word_of_int (pf_port profile) :: 16 word"
  have "split_host_port (gr_target (grpc_expected profile a)) = Inr (addr_host a, port_string ?p)"
    using addr_host_ok [OF assms(2)] by (simp add: grpc_expected_def split_join_host_port port_string_nat show_nat_no_sep)
  moreover have "length (port_string ?p) \<noteq> 0" by (simp add: port_string_nat)
  moreover have "GetFingerprint (de_random e) (tc_fingerprint (grpc_tls profile)) = None" by (simp add: GetFingerprint_def grpc_tls_def zero_tls_def)
  ultimately show ?thesis
    using ParseAddress_host [OF assms(2)] PortFromString_port [of ?p] DialSystem_vless [of _ netDial a profile]
    by (cases a; cases "pf_security profile = ''tls''"; cases "netDial (profile_request profile a)")
      (simp_all add: grpc_context_dial_def tls_of_memory grpc_GetTLSConfig grpc_security_def Let_def IsDomain_def verified_tls_def)
qed

text \<open>
  C15. What a vless profile with the WebSocket transport dials, whatever the connection itself does: the
  address and the port of the profile (the port modulo $2^{16}$), with the URI, the Host header and the path
  of the profile. With security \<open>tls\<close> the scheme is \<open>wss\<close> and the TLS settings verify the server's
  certificate, against the SNI of the profile or the address when there is none; with any other security
  the connection, opened to that address, is a plain \<open>ws\<close> one. The settings pass through protocol buffers and the two
  registries on the way.
\<close>

theorem vless_ws_dial:
  assumes "initialised (de_registry e)" and "codec_ok (de_proto e) (WsMsg (ws_settings profile))" and "codec_ok (de_proto e) (TlsMsg (ws_tls profile))"
  shows "\<exists>a. ParseAddress (pf_address profile) = Some a
       \<and> DialVlessWS e connect profile = base_err ''failed to dial WebSocket''
           (base_err (''failed to dial to ('' @ wr_uri (ws_expected e profile a) @ ''): '') (connect (WsRequest (ws_expected e profile a))))
       \<and> ws_NetDial netDial background (ws_expected e profile a) = netDial (profile_request profile a)"
proof -
  obtain a where a: "ParseAddress (pf_address profile) = Some a" using ParseAddress_wf by blast
  have "ws_NetDial netDial background (ws_expected e profile a) = netDial (profile_request profile a)"
    using a DialSystem_vless [of _ netDial a profile] by (simp add: ws_NetDial_def ws_expected_def Let_def vless_dest_def)
  then show ?thesis using a DialVlessWS_request [OF assms a] by blast
qed

text \<open>
  C16. The gRPC transport of a vless profile hands the gRPC library a target from which the program's own
  context dialer finds its way back to the profile's address and port, for IPv4, IPv6 and domain names:
  the printed target is split and parsed to the same destination and dialled there. The dialer then wraps the
  connection in verified TLS when the security is \<open>tls\<close> and leaves it plain otherwise.
\<close>

theorem vless_grpc_dial:
  assumes "initialised (de_registry e)" and "codec_ok (de_proto e) (GrpcMsg (grpc_settings profile))" and "codec_ok (de_proto e) (TlsMsg (grpc_tls profile))"
    and "ParseAddress (pf_address profile) = Some a" and "nameable a"
  shows "DialVlessGRPC e connect profile
           = base_err ''failed to dial gRPC'' (base_err ''Cannot dial gRPC'' (connect (GrpcRequest (grpc_expected profile a))))
       \<and> grpc_context_dial e netDial background gctx (vless_memory ''grpc'' (GrpcMsg (grpc_settings profile)) (grpc_tls profile) profile) (gr_target (grpc_expected profile a))
           = and_then (netDial (profile_request profile a)) (\<lambda>c. Inr (c, grpc_security e profile a))"
  using DialVlessGRPC_request [OF assms(1-4)] grpc_context_dial_vless [OF assms(4,5)] by blast

text \<open>A profile with an IPv6 address and a codec for its messages.\<close>

definition demo_vless :: server_profile where
  "demo_vless = \<lparr>pf_id = ''s1'', pf_remarks = ''v'', pf_type = ''vless'', pf_active = True, pf_local_port = 0, pf_address = ''1::7'',
     pf_port = 81, pf_network = ''ws'', pf_scheme = '''', pf_path = ''ray'', pf_host = ''h.example'', pf_grpc_service = ''svc'', pf_grpc_mode = '''',
     pf_grpc_authority = '''', pf_edge_ip = '''', pf_uuid = '''', pf_flow = '''', pf_security = ''tls'', pf_sni = '''', pf_fingerprint = ''chrome'',
     pf_public_key = '''', pf_short_id = ''''\<rparr>"

definition demo_messages :: "message list" where
  "demo_messages = [WsMsg (ws_settings demo_vless), TlsMsg (ws_tls demo_vless), GrpcMsg (grpc_settings demo_vless), TlsMsg (grpc_tls demo_vless)]"

definition demo_proto :: codec where
  "demo_proto =
     \<lparr>pr_marshal = (\<lambda>m. case find (\<lambda>i. demo_messages ! i = m) [0..<4] of Some i \<Rightarrow> Inr [word_of_nat i] | None \<Rightarrow> Inl (Msg ''proto'')),
      pr_find = (\<lambda>t. Inr (OtherMsg t)),
      pr_unmarshal = (\<lambda>b z. Inr (demo_messages ! unat (hd b)))\<rparr>"

definition demo_dial :: dial_env where
  "demo_dial = \<lparr>de_proto = demo_proto,
     de_registry = \<lparr>rg_creators = [], rg_dialers = [(''websocket'', WsDialer), (''grpc'', GrpcDialer)]\<rparr>,
     de_tls = \<lparr>te_system = Inr [], te_pem_ok = (\<lambda>_. True), te_suites = [], te_open = (\<lambda>_. None)\<rparr>, de_random = 0\<rparr>"

lemma demo_codec:
  assumes "i < 4" and "\<forall>j < i. demo_messages ! j \<noteq> demo_messages ! i"
  shows "codec_ok demo_proto (demo_messages ! i)"
proof -
  have "find (\<lambda>j. demo_messages ! j = demo_messages ! i) [0..<4] = Some i"
    using assms by (auto simp: find_Some_iff)
  moreover have "unat (word_of_nat i :: 8 word) = i" using assms(1) by (simp add: unat_of_nat)
  ultimately show ?thesis by (simp add: codec_ok_def demo_proto_def)
qed

lemma demo_dial_ok:
  "initialised (de_registry demo_dial)"
  "codec_ok (de_proto demo_dial) (WsMsg (ws_settings demo_vless))" "codec_ok (de_proto demo_dial) (TlsMsg (ws_tls demo_vless))"
  "codec_ok (de_proto demo_dial) (GrpcMsg (grpc_settings demo_vless))" "codec_ok (de_proto demo_dial) (TlsMsg (grpc_tls demo_vless))"
proof -
  show "initialised (de_registry demo_dial)" by (simp add: initialised_def demo_dial_def)
  have pr: "de_proto demo_dial = demo_proto" by (simp add: demo_dial_def)
  have neq: "ws_tls demo_vless \<noteq> grpc_tls demo_vless" by (simp add: ws_tls_def grpc_tls_def zero_tls_def)
  show "codec_ok (de_proto demo_dial) (WsMsg (ws_settings demo_vless))" "codec_ok (de_proto demo_dial) (TlsMsg (ws_tls demo_vless))"
    "codec_ok (de_proto demo_dial) (GrpcMsg (grpc_settings demo_vless))" "codec_ok (de_proto demo_dial) (TlsMsg (grpc_tls demo_vless))"
    using demo_codec [of 0] demo_codec [of 1] demo_codec [of 2] demo_codec [of 3] neq
    by (simp_all add: pr demo_messages_def numeral_eq_Suc All_less_Suc)
qed

theorem vless_ws_dial_witness:
  "DialVlessWS demo_dial (\<lambda>r. case r of WsRequest w \<Rightarrow> Inr (wr_uri w) | _ \<Rightarrow> Inr '''') demo_vless = Inr ''wss://[1::7]:81/ray''"
proof -
  have "wr_uri (ws_expected demo_dial demo_vless (the (ParseAddress (pf_address demo_vless)))) = ''wss://[1::7]:81/ray''" by code_simp
  then show ?thesis
    using vless_ws_dial [OF demo_dial_ok(1,2,3), where netDial = "\<lambda>r. Inr (sr_address r)" and connect = "\<lambda>r. case r of WsRequest w \<Rightarrow> Inr (wr_uri w) | _ \<Rightarrow> Inr ''''"]
    by (auto simp: base_err_def)
qed

theorem vless_grpc_dial_witness:
  "DialVlessGRPC demo_dial (\<lambda>r. case r of GrpcRequest w \<Rightarrow> Inr (gr_target w) | _ \<Rightarrow> Inr '''') demo_vless = Inr ''[1::7]:81''"
proof -
  define a where "a = Ipv6Address [0, 1, 0, 0, 0, 0, 0, 0, 0, 0, 0, 0, 0, 0, 0, 7]"
  have "ParseAddress (pf_address demo_vless) = Some a" "addr_wf a" "gr_target (grpc_expected demo_vless a) = ''[1::7]:81''"
    unfolding a_def by code_simp+
  moreover have "nameable a" using \<open>addr_wf a\<close> by (simp add: nameable_def a_def)
  ultimately show ?thesis
    using vless_grpc_dial [OF demo_dial_ok(1,4,5), of a, where netDial = "\<lambda>r. Inr (sr_address r)" and connect = "\<lambda>r. case r of GrpcRequest w \<Rightarrow> Inr (gr_target w) | _ \<Rightarrow> Inr ''''"]
    by (simp add: base_err_def)
qed

subsection \<open>Consequences for unusual profiles\<close>

text \<open>A profile with security \<open>reality\<close>, which the web page offers, is dialled without any encryption.\<close>

lemma reality_profile_is_plain:
  "pf_security profile = ''reality'' \<Longrightarrow> wr_tls (ws_expected e profile a) = None \<and> grpc_security e profile a = PlainTcp"
  by (simp add: ws_expected_def grpc_security_def Let_def)

text \<open>
  With an IP address and no SNI the gRPC dialer asks for a verified handshake without a server name, which
  \<open>crypto/tls\<close> refuses; the WebSocket dialer uses the address.
\<close>

lemma grpc_ip_without_sni:
  "pf_security profile = ''tls'' \<Longrightarrow> pf_sni profile = '''' \<Longrightarrow> IsIP (addr_family a) \<Longrightarrow>
   \<exists>t. grpc_security e profile a = TlsClient t \<and> gt_server_name t = '''' \<and> \<not> gt_insecure t"
  by (cases a) (simp_all add: grpc_security_def verified_tls_def IsDomain_def IsIP_def)

text \<open>The fingerprint of the profile reaches the WebSocket dialer only.\<close>

lemma grpc_ignores_fingerprint: "grpc_security e (profile\<lparr>pf_fingerprint := f\<rparr>) a = grpc_security e profile a"
  by (simp add: grpc_security_def)

text \<open>When \<open>proto.Marshal\<close> fails, its error is dropped and the settings are read back from no bytes at all.\<close>

lemma marshal_error_dropped: "pr_marshal pr m = Inl err \<Longrightarrow> tm_value (ToTypedMessage pr m) = []"
  by (simp add: ToTypedMessage_def)

end
