(* ===== verification/Utls.thy ===== *)
theory Utls
  imports VlessDial
begin

section \<open>Connections with a browser's fingerprint (tls/tls.go, websocket/dialer.go)\<close>

text \<open>
  When a profile names a fingerprint, the WebSocket dialer opens TLS itself: it dials the system, makes a utls client with
  a copy of the TLS settings, forces \<open>http/1.1\<close> into the ALPN extension of the prepared client hello, shakes hands and
  verifies the host name. The utls library is a parameter: the hello it prepares, its handshake and its
  verification of a host name. \<open>rootCertsCache.load\<close> and the choice of the random fingerprint are here too.
\<close>

subsection \<open>config_other.go: the cache of the system's roots\<close>

definition rootCerts_load :: "bytes list res \<Rightarrow> bytes list option \<Rightarrow> bytes list res \<times> bytes list option" where
  "rootCerts_load SystemCertPool cache =
     (case cache of
        Some pool \<Rightarrow> (Inr pool, cache)
      | None \<Rightarrow> (case SystemCertPool of Inl err \<Rightarrow> (Inl err, None) | Inr pool \<Rightarrow> (Inr pool, Some pool)))"

text \<open>The answers of the cache over time: after the first success it never asks the system again, and never fails.\<close>

fun load_all :: "bytes list res list \<Rightarrow> bytes list option \<Rightarrow> bytes list res list" where
  "load_all [] cache = []"
| "load_all (s # ss) cache = (case rootCerts_load s cache of (r, cache') \<Rightarrow> r # load_all ss cache')"

lemma load_all_cached: "load_all ss (Some pool) = replicate (length ss) (Inr pool)"
  by (induction ss) (simp_all add: rootCerts_load_def)

lemma roots_load_once: "load_all (map Inl errs @ Inr pool # ss) None = map Inl errs @ replicate (Suc (length ss)) (Inr pool)"
  by (induction errs) (simp_all add: rootCerts_load_def load_all_cached)

subsection \<open>tls.go\<close>

text \<open>The first of the fingerprints in the order in which a range over the map visits them whose number is \<open>stopAt\<close>.\<close>

fun pick_random :: "nat \<Rightarrow> nat \<Rightarrow> (string \<times> string) list \<Rightarrow> string option" where
  "pick_random stopAt i [] = None"
| "pick_random stopAt i ((name, v) # vs) = (if i = stopAt then Some v else pick_random stopAt (i + 1) vs)"

lemma pick_random_nth: "pick_random stopAt i vs = (if i \<le> stopAt \<and> stopAt - i < length vs then Some (snd (vs ! (stopAt - i))) else None)"
  by (induction stopAt i vs rule: pick_random.induct) (auto simp: nth_Cons' Suc_diff_le)

text \<open>So \<open>random\<close> is always one of the modern fingerprints, whatever number is drawn and in whatever order they are visited.\<close>

lemma random_is_modern:
  assumes "mset vs = mset ModernFingerprints" and "stopAt < length ModernFingerprints"
  shows "\<exists>v \<in> snd ` set ModernFingerprints. pick_random stopAt 0 vs = Some v"
proof -
  have "length vs = length ModernFingerprints" "set vs = set ModernFingerprints"
    using assms(1) by (auto dest: mset_eq_length mset_eq_setD)
  then show ?thesis using assms(2) nth_mem [of stopAt vs] by (auto simp: pick_random_nth image_iff)
qed

text \<open>\<open>copyConfig\<close>: five fields; the others of a new \<open>utls.Config\<close> are zero.\<close>

definition copyConfig :: "go_tls \<Rightarrow> go_tls" where
  "copyConfig c =
     \<lparr>gt_roots = gt_roots c, gt_insecure = gt_insecure c, gt_next = [], gt_no_tickets = False, gt_server_name = gt_server_name c,
      gt_min = 0, gt_max = 0, gt_suites = [], gt_prefer = False, gt_key_log = gt_key_log c\<rparr>"

datatype tls_extension = ALPNExtension "string list" | OtherExtension string

fun force_alpn :: "tls_extension list \<Rightarrow> tls_extension list option" where
  "force_alpn [] = None"
| "force_alpn (ALPNExtension ps # es) = Some (ALPNExtension [''http/1.1''] # es)"
| "force_alpn (OtherExtension x # es) = map_option ((#) (OtherExtension x)) (force_alpn es)"

definition websocket_extensions :: "tls_extension list \<Rightarrow> tls_extension list" where
  "websocket_extensions es = (case force_alpn es of Some es' \<Rightarrow> es' | None \<Rightarrow> es @ [ALPNExtension [''http/1.1'']])"

text \<open>A utls connection: the stream below it, its settings, its fingerprint and the extensions of its hello.\<close>

record 'c uconn =
  uc_conn :: 'c
  uc_config :: go_tls
  uc_fingerprint :: string
  uc_extensions :: "tls_extension list"

definition UClient :: "'c \<Rightarrow> go_tls \<Rightarrow> string \<Rightarrow> 'c uconn" where
  "UClient c config fingerprint = \<lparr>uc_conn = c, uc_config = copyConfig config, uc_fingerprint = fingerprint, uc_extensions = []\<rparr>"

text \<open>\<open>BuildHandshakeState\<close>, the handshake, \<open>VerifyHostname\<close> and the name that the handshake negotiated.\<close>

record 'c utls_lib =
  ul_build :: "'c uconn \<Rightarrow> 'c uconn res"
  ul_handshake :: "'c uconn \<Rightarrow> 'c uconn res"
  ul_verify :: "'c uconn \<Rightarrow> string \<Rightarrow> goerr option"
  ul_server_name :: "'c uconn \<Rightarrow> string"

definition WebsocketHandshakeContext :: "'c utls_lib \<Rightarrow> 'c uconn \<Rightarrow> 'c uconn res" where
  "WebsocketHandshakeContext u c =
     and_then (ul_build u c) (\<lambda>c.
       and_then (ul_build u (c\<lparr>uc_extensions := websocket_extensions (uc_extensions c)\<rparr>)) (\<lambda>c. ul_handshake u c))"

definition HandshakeAddressContext :: "'c utls_lib \<Rightarrow> 'c uconn \<Rightarrow> address option" where
  "HandshakeAddressContext u c =
     (case ul_handshake u c of
        Inl err \<Rightarrow> None
      | Inr c \<Rightarrow> if ul_server_name u c = '''' then None else ParseAddress (ul_server_name u c))"

subsection \<open>websocket/dialer.go: NetDialTLSContext\<close>

definition ws_NetDialTLS :: "(system_request \<Rightarrow> 'c res) \<Rightarrow> 'c utls_lib \<Rightarrow> go_context \<Rightarrow> ws_request \<Rightarrow> go_tls \<Rightarrow> string \<Rightarrow> 'c uconn res" where
  "ws_NetDialTLS netDial u ctx r tlsConfig fingerprint =
     and_then (DialSystem netDial ctx (wr_dest r) (wr_socket r)) (\<lambda>pconn.
       and_then (WebsocketHandshakeContext u (UClient pconn tlsConfig fingerprint)) (\<lambda>cn.
         if \<not> gt_insecure tlsConfig then
           (case ul_verify u cn (gt_server_name tlsConfig) of Some err \<Rightarrow> Inl err | None \<Rightarrow> Inr cn)
         else Inr cn))"

subsection \<open>What is offered and what is verified\<close>

text \<open>
  Whatever hello the library has prepared, the first ALPN extension of the one that is sent offers \<open>http/1.1\<close> alone, and
  no other extension is touched.
\<close>

fun first_alpn :: "tls_extension list \<Rightarrow> string list option" where
  "first_alpn [] = None"
| "first_alpn (ALPNExtension ps # es) = Some ps"
| "first_alpn (OtherExtension x # es) = first_alpn es"

lemma first_alpn_append: "first_alpn es = None \<Longrightarrow> first_alpn (es @ [ALPNExtension ps]) = Some ps"
  by (induction es rule: first_alpn.induct) auto

lemma force_alpn_first: "(force_alpn es = None \<longleftrightarrow> first_alpn es = None)
    \<and> (\<forall>es'. force_alpn es = Some es' \<longrightarrow> first_alpn es' = Some [''http/1.1'']
        \<and> filter (\<lambda>e. case e of OtherExtension _ \<Rightarrow> True | _ \<Rightarrow> False) es' = filter (\<lambda>e. case e of OtherExtension _ \<Rightarrow> True | _ \<Rightarrow> False) es)"
  by (induction es rule: force_alpn.induct) auto

lemma websocket_alpn:
  "first_alpn (websocket_extensions es) = Some [''http/1.1'']"
  "filter (\<lambda>e. case e of OtherExtension _ \<Rightarrow> True | _ \<Rightarrow> False) (websocket_extensions es)
     = filter (\<lambda>e. case e of OtherExtension _ \<Rightarrow> True | _ \<Rightarrow> False) es"
  using force_alpn_first [of es] by (auto simp: websocket_extensions_def first_alpn_append split: option.splits)

text \<open>
  The connection that the dialer of a vless profile returns with a fingerprint: it was opened to the profile's server, its hello
  offered \<open>http/1.1\<close>, and its host name was verified against the SNI of the profile or, without one, its
  address. The library keeps the extensions when it builds the hello a second time.
\<close>

lemma fingerprint_verified:
  assumes "ParseAddress (pf_address profile) = Some a" and "pf_security profile = ''tls''" and "wr_tls (ws_expected e profile a) = Some t"
    and "ws_NetDialTLS netDial u background (ws_expected e profile a) t f = Inr cn"
  shows "\<exists>pconn. netDial (profile_request profile a) = Inr pconn
    \<and> ul_verify u cn (if pf_sni profile = '''' then addr_String a else pf_sni profile) = None
    \<and> WebsocketHandshakeContext u (UClient pconn t f) = Inr cn"
proof -
  have t: "gt_server_name t = (if pf_sni profile = '''' then addr_String a else pf_sni profile)" "\<not> gt_insecure t"
    using assms(2,3) by (auto simp: ws_expected_def Let_def verified_tls_def)
  have d: "DialSystem netDial background (wr_dest (ws_expected e profile a)) (wr_socket (ws_expected e profile a)) = netDial (profile_request profile a)"
    using assms(1) DialSystem_vless [of background netDial a profile] by (simp add: ws_expected_def Let_def vless_dest_def)
  show ?thesis using assms(4) t unfolding ws_NetDialTLS_def d by (auto split: option.splits if_splits)
qed

text \<open>
  The copy forgets the protocol versions and the session tickets of the settings: with a fingerprint, \<open>MinVersion\<close> and
  \<open>SessionTicketsDisabled\<close> have no effect.
\<close>

lemma copy_forgets: "copyConfig (c\<lparr>gt_min := a, gt_max := b, gt_no_tickets := t, gt_next := ps\<rparr>) = copyConfig c"
  by (simp add: copyConfig_def)

end
