(* ===== verification/Reality.thy ===== *)
theory Reality
  imports VlessDial Buf
begin

section \<open>The REALITY client (transport/internet/reality/reality.go, config.go)\<close>

text \<open>
  A REALITY client hides its authentication in an ordinary TLS client hello: the 32 bytes of the session id are version, time
  and short id, sealed with a key that only the owner of the server's private key can compute, and the server proves
  that it has the key by the signature of its certificate. A connection whose server does not is
  used to visit the web site that answers, and is never returned.

  X25519, HKDF, the AEAD ciphers, HMAC, the verification of certificates, the hello that utls prepares and the handshake
  are parameters (\<open>reality_env\<close>). \<open>cipher_opens\<close> states what \<open>cipher.AEAD\<close> documents of the ciphers.
\<close>

subsection \<open>Settings and environment\<close>

record reality_config =
  rc_server_name :: string
  rc_fingerprint :: string
  rc_public_key :: bytes
  rc_short_id :: bytes
  rc_spider_x :: string
  rc_spider_y :: "int list"
  rc_key_log :: string

record client_hello =
  hl_raw :: bytes
  hl_session_id :: bytes
  hl_random :: bytes
  hl_suites :: "16 word list"

record certificate =
  ct_ed25519 :: "bytes option"
  ct_signature :: bytes

record reality_env =
  re_fingerprint :: "string \<Rightarrow> string option"
  re_hello :: "string \<Rightarrow> client_hello"
  re_parse_key :: "bytes \<Rightarrow> goerr option"
  re_ecdh :: "bytes \<Rightarrow> bytes option"
  re_hkdf :: "bytes \<Rightarrow> bytes \<Rightarrow> bytes \<Rightarrow> bytes res"
  re_prefers_aes :: "16 word list \<Rightarrow> bool"
  re_seal :: "bool \<Rightarrow> bytes \<Rightarrow> bytes \<Rightarrow> bytes \<Rightarrow> bytes \<Rightarrow> bytes"
  re_now :: "32 word"
  re_handshake :: "client_hello \<Rightarrow> certificate list res"
  re_hmac :: "bytes \<Rightarrow> bytes \<Rightarrow> bytes"
  re_x509 :: "string \<Rightarrow> certificate \<Rightarrow> certificate list \<Rightarrow> goerr option"
  re_rand :: "int \<Rightarrow> int"

text \<open>\<open>KeyLogWriterFromConfig\<close>: a file that cannot be opened is logged, and the nil file is used.\<close>

definition KeyLogWriterFromConfig :: "(string \<Rightarrow> goerr option) \<Rightarrow> reality_config \<Rightarrow> string option" where
  "KeyLogWriterFromConfig open_file c =
     (if length (rc_key_log c) \<le> 0 \<or> rc_key_log c = ''none'' then None
      else case open_file (rc_key_log c) of Some err \<Rightarrow> None | None \<Rightarrow> Some (rc_key_log c))"

subsection \<open>Numbers and paths\<close>

definition randBetween :: "(int \<Rightarrow> int) \<Rightarrow> int \<Rightarrow> int \<Rightarrow> int res" where
  "randBetween rand left right =
     (if left = right then Inr left
      else if right - left \<le> 0 then Inl (Panic ''crypto/rand: argument to Int is <= 0'')
      else Inr (left + rand (right - left)))"

text \<open>The paths in the order in which a range over the map visits them.\<close>

fun path_loop :: "int \<Rightarrow> int \<Rightarrow> string list \<Rightarrow> string" where
  "path_loop stopAt i [] = ''/''"
| "path_loop stopAt i (s # ss) = (if i = stopAt then s else path_loop stopAt (i + 1) ss)"

definition getPathLocked :: "(int \<Rightarrow> int) \<Rightarrow> string list \<Rightarrow> string res" where
  "getPathLocked rand paths = and_then (randBetween rand 0 (int (length paths) - 1)) (\<lambda>stopAt. Inr (path_loop stopAt 0 paths))"

text \<open>The paths known of a server, and the links of a page, which are added when they have no dot in them.\<close>

definition server_paths :: "reality_config \<Rightarrow> string \<Rightarrow> string list gomap \<Rightarrow> string list \<times> string list gomap" where
  "server_paths config name maps =
     (case gm_get maps name of
        Some paths \<Rightarrow> (paths, maps)
      | None \<Rightarrow> ([rc_spider_x config], gm_put name [rc_spider_x config] maps))"

definition add_links :: "string \<Rightarrow> string list \<Rightarrow> string list \<Rightarrow> string list" where
  "add_links prefix links paths =
     fold (\<lambda>m paths. let m = trim_prefix m prefix in if CHR ''.'' \<in> set m then paths else List.insert m paths) links paths"

subsection \<open>Verification\<close>

definition VerifyPeerCertificate :: "reality_env \<Rightarrow> bytes \<Rightarrow> string \<Rightarrow> certificate list \<Rightarrow> (bool \<times> goerr option) res" where
  "VerifyPeerCertificate e authKey serverName certs =
     (case certs of
        [] \<Rightarrow> Inl (Panic ''index out of range'')
      | cert # rest \<Rightarrow>
          (case ct_ed25519 cert of
             Some pub \<Rightarrow>
               if re_hmac e authKey pub = ct_signature cert then Inr (True, None)
               else Inr (False, re_x509 e serverName cert rest)
           | None \<Rightarrow> Inr (False, re_x509 e serverName cert rest)))"

subsection \<open>The client\<close>

definition be32 :: "32 word \<Rightarrow> bytes" where
  "be32 w = [ucast (drop_bit 24 w), ucast (drop_bit 16 w), ucast (drop_bit 8 w), ucast w]"

text \<open>\<open>hello.SessionId\<close> before it is sealed: 32 bytes with version, time and short id.\<close>

definition plain_session_id :: "32 word \<Rightarrow> bytes \<Rightarrow> bytes" where
  "plain_session_id now shortId =
     copy_at 8 shortId (copy_at 4 (be32 now) (((((replicate 32 0)[0 := 1])[1 := 8])[2 := 9])[3 := 0]))"

definition copy_raw :: "bytes \<Rightarrow> bytes \<Rightarrow> bytes res" where
  "copy_raw sid raw = (if length raw < 39 then Inl (Panic ''slice bounds out of range'') else Inr (copy_at 39 sid raw))"

text \<open>
  \<open>aead.Seal(hello.SessionId[:0], ...)\<close> writes into the array of the session id as long as the result fits. The key is
  derived in place, from the first 20 bytes of the random; its other 12 bytes are the nonce.
\<close>

definition seal_hello :: "reality_env \<Rightarrow> reality_config \<Rightarrow> client_hello \<Rightarrow> (client_hello \<times> bytes) res" where
  "seal_hello e config hello =
     and_then (copy_raw (replicate 32 0) (hl_raw hello)) (\<lambda>raw.
       let sid = plain_session_id (re_now e) (rc_short_id config) in
       case re_parse_key e (rc_public_key config) of
         Some _ \<Rightarrow> Inl (Msg ''REALITY: publicKey == nil'')
       | None \<Rightarrow>
           (case re_ecdh e (rc_public_key config) of
              None \<Rightarrow> Inl (Msg ''REALITY: SharedKey == nil'')
            | Some shared \<Rightarrow>
                and_then (re_hkdf e shared (take 20 (hl_random hello)) (bytes_of ''REALITY'')) (\<lambda>authKey.
                  let sealed = re_seal e (re_prefers_aes e (hl_suites hello)) authKey (drop 20 (hl_random hello)) (take 16 sid) raw;
                      sid = (if length sealed \<le> 32 then copy_at 0 sealed sid else sid)
                  in and_then (copy_raw sid raw) (\<lambda>raw. Inr (hello\<lparr>hl_raw := raw, hl_session_id := sid\<rparr>, authKey)))))"

text \<open>A connection that is returned.\<close>

record reality_conn =
  rl_server_name :: string
  rl_auth_key :: bytes
  rl_verified :: bool
  rl_hello :: client_hello
  rl_certs :: "certificate list"

text \<open>The end of a connection that is not verified: a pause of a length that the settings give, and an error.\<close>

definition reject_connection :: "reality_env \<Rightarrow> reality_config \<Rightarrow> goerr" where
  "reject_connection e config =
     (if length (rc_spider_y config) \<le> 9 then Panic ''index out of range''
      else case randBetween (re_rand e) (rc_spider_y config ! 8) (rc_spider_y config ! 9) of
        Inl p \<Rightarrow> p
      | Inr _ \<Rightarrow> Msg ''REALITY: processed invalid connection'')"

definition reality_UClient :: "reality_env \<Rightarrow> reality_config \<Rightarrow> destination \<Rightarrow> reality_conn res" where
  "reality_UClient e config dest =
     and_then (if rc_server_name config = '''' then dest_addr_string dest else Inr (rc_server_name config)) (\<lambda>serverName.
       case re_fingerprint e (rc_fingerprint config) of
         None \<Rightarrow> Inl (Msg ''REALITY: failed to get fingerprint'')
       | Some fingerprint \<Rightarrow>
           and_then (seal_hello e config (re_hello e fingerprint)) (\<lambda>(hello, authKey).
             and_then (re_handshake e hello) (\<lambda>certs.
               and_then (VerifyPeerCertificate e authKey serverName certs) (\<lambda>(verified, err).
                 case err of
                   Some x \<Rightarrow> Inl x
                 | None \<Rightarrow>
                     if \<not> verified then Inl (reject_connection e config)
                     else Inr \<lparr>rl_server_name = serverName, rl_auth_key = authKey, rl_verified = verified, rl_hello = hello, rl_certs = certs\<rparr>))))"

subsection \<open>Paths\<close>

text \<open>For a known server the spider always gets one of its paths, never the default, and never panics.\<close>

lemma path_loop_nth: "path_loop stopAt i ss = (if i \<le> stopAt \<and> stopAt - i < int (length ss) then ss ! nat (stopAt - i) else ''/'')"
proof (induction ss arbitrary: i)
  case (Cons s ss)
  have "nat (stopAt - i) = Suc (nat (stopAt - (i + 1)))" if "i < stopAt" using that by simp
  with Cons show ?case by auto
qed auto

lemma getPathLocked_known:
  assumes "paths \<noteq> []" and "\<And>n. 0 < n \<Longrightarrow> 0 \<le> rand n \<and> rand n < n"
  shows "\<exists>p \<in> set paths. getPathLocked rand paths = Inr p"
proof (cases "length paths = 1")
  case True
  then obtain p where "paths = [p]" by (cases paths) auto
  then show ?thesis by (simp add: getPathLocked_def randBetween_def)
next
  case False
  with assms(1) have n: "0 < int (length paths) - 1" by (cases paths) auto
  let ?k = "rand (int (length paths) - 1)"
  have k: "0 \<le> ?k" "?k < int (length paths)" using assms(2) [OF n] by auto
  then have "nat ?k < length paths" by simp
  then have "paths ! nat ?k \<in> set paths" by (rule nth_mem)
  with k n show ?thesis by (simp add: getPathLocked_def randBetween_def path_loop_nth)
qed

lemma add_links_paths: "set paths \<subseteq> set (add_links prefix links paths)"
proof (induction links arbitrary: paths)
  case (Cons m links)
  have "set paths \<subseteq> set (let m = trim_prefix m prefix in if CHR ''.'' \<in> set m then paths else List.insert m paths)"
    by (auto simp: Let_def)
  also have "\<dots> \<subseteq> set (add_links prefix (m # links) paths)"
    using Cons.IH unfolding add_links_def by (simp add: Let_def)
  finally show ?case .
qed (simp add: add_links_def)

lemma server_paths_known: "fst (server_paths config name maps) = [rc_spider_x config] \<or> gm_get maps name = Some (fst (server_paths config name maps))"
  by (auto simp: server_paths_def split: option.splits)

subsection \<open>The session id\<close>

lemma plain_session_id_sealed:
  "take 16 (plain_session_id now shortId) = [1, 8, 9, 0] @ be32 now @ take 8 (shortId @ replicate 8 0)"
proof -
  have v: "copy_at 4 (be32 now) (((((replicate 32 0)[0 := 1])[1 := 8])[2 := 9])[3 := 0]) = [1, 8, 9, 0] @ be32 now @ replicate 24 0"
    by (simp add: copy_at_def be32_def numeral_eq_Suc)
  have gen: "take 16 (copy_at 8 shortId (p @ replicate 24 0)) = p @ take 8 (take 24 shortId @ replicate (24 - length shortId) 0)"
    if "length p = 8" for p :: bytes
    using that by (simp add: copy_at_def)
  have "take 16 (plain_session_id now shortId) = ([1, 8, 9, 0] @ be32 now) @ take 8 (take 24 shortId @ replicate (24 - length shortId) 0)"
    unfolding plain_session_id_def v using gen [of "[1, 8, 9, 0] @ be32 now"] by (simp add: be32_def)
  also have "take 8 (take 24 shortId @ replicate (24 - length shortId) (0 :: byte)) = take 8 (shortId @ replicate 8 0)"
    by (simp add: min_def) arith
  finally show ?thesis by simp
qed

lemma copy_at_twice:
  assumes "length a = length b" and "at + length a \<le> length v"
  shows "copy_at at a (copy_at at b v) = copy_at at a v" and "take (length b) (drop at (copy_at at b v)) = b"
  using assms by (simp_all add: copy_at_def)

lemma copy_at_outside:
  assumes "at + length a \<le> length v"
  shows "take at (copy_at at a v) = take at v" and "drop (at + length a) (copy_at at a v) = drop (at + length a) v"
  using assms by (simp_all add: copy_at_def)

lemma length_plain_session_id: "length (plain_session_id now shortId) = 32"
  by (simp add: plain_session_id_def copy_at_def be32_def)

subsection \<open>Authentication\<close>

text \<open>What the documentation of \<open>cipher.AEAD\<close> promises: sealing adds 16 bytes, and \<open>Open\<close> gives the plaintext back.\<close>

definition cipher_opens :: "(bool \<Rightarrow> bytes \<Rightarrow> bytes \<Rightarrow> bytes \<Rightarrow> bytes \<Rightarrow> bytes option) \<Rightarrow> reality_env \<Rightarrow> bool" where
  "cipher_opens unseal e \<longleftrightarrow> (\<forall>aes key nonce plain aad.
     length (re_seal e aes key nonce plain aad) = length plain + 16
     \<and> unseal aes key nonce (re_seal e aes key nonce plain aad) aad = Some plain)"

text \<open>What the server does with a hello that it receives: it takes the session id out, replaces it by zeros and opens it.\<close>

definition server_view :: "(bool \<Rightarrow> bytes \<Rightarrow> bytes \<Rightarrow> bytes \<Rightarrow> bytes \<Rightarrow> bytes option) \<Rightarrow> bool \<Rightarrow> bytes \<Rightarrow> client_hello \<Rightarrow> bytes option" where
  "server_view unseal aes key hello =
     unseal aes key (drop 20 (hl_random hello)) (take 32 (drop 39 (hl_raw hello))) (copy_at 39 (replicate 32 0) (hl_raw hello))"

lemma seal_hello_opens:
  assumes "cipher_opens unseal e" and "71 \<le> length (hl_raw hello)" and "seal_hello e config hello = Inr (hello', key)"
  shows "server_view unseal (re_prefers_aes e (hl_suites hello)) key hello'
      = Some ([1, 8, 9, 0] @ be32 (re_now e) @ take 8 (rc_short_id config @ replicate 8 0))"
    and "\<exists>shared. re_ecdh e (rc_public_key config) = Some shared \<and> re_hkdf e shared (take 20 (hl_random hello)) (bytes_of ''REALITY'') = Inr key"
    and "hl_random hello' = hl_random hello \<and> hl_suites hello' = hl_suites hello
      \<and> take 39 (hl_raw hello') = take 39 (hl_raw hello) \<and> drop 71 (hl_raw hello') = drop 71 (hl_raw hello)"
proof -
  let ?sid = "plain_session_id (re_now e) (rc_short_id config)" and ?raw = "copy_at 39 (replicate 32 0) (hl_raw hello)"
  let ?sealed = "re_seal e (re_prefers_aes e (hl_suites hello)) key (drop 20 (hl_random hello)) (take 16 ?sid) ?raw"
  have len: "length ?sealed = 32" "length ?raw = length (hl_raw hello)"
    using assms(1,2) by (simp_all add: cipher_opens_def length_plain_session_id copy_at_def)
  have sid: "copy_at 0 ?sealed ?sid = ?sealed" using len by (simp add: copy_at_def length_plain_session_id)
  have hello': "hello' = hello\<lparr>hl_raw := copy_at 39 ?sealed ?raw, hl_session_id := ?sealed\<rparr>"
    using assms(2,3) len sid by (auto simp: seal_hello_def copy_raw_def Let_def split: option.splits if_splits)
  have "take 32 (drop 39 (copy_at 39 ?sealed ?raw)) = ?sealed" "copy_at 39 (replicate 32 0) (copy_at 39 ?sealed ?raw) = ?raw"
    using copy_at_twice [of "replicate 32 0" ?sealed 39 ?raw] copy_at_twice(1) [of "replicate 32 0" "replicate 32 0" 39 "hl_raw hello"] len assms(2)
    by simp_all
  then show "server_view unseal (re_prefers_aes e (hl_suites hello)) key hello'
      = Some ([1, 8, 9, 0] @ be32 (re_now e) @ take 8 (rc_short_id config @ replicate 8 0))"
    using assms(1) by (simp add: server_view_def hello' cipher_opens_def plain_session_id_sealed)
  show "\<exists>shared. re_ecdh e (rc_public_key config) = Some shared \<and> re_hkdf e shared (take 20 (hl_random hello)) (bytes_of ''REALITY'') = Inr key"
    using assms(3) by (auto simp: seal_hello_def Let_def split: option.splits)
  show "hl_random hello' = hl_random hello \<and> hl_suites hello' = hl_suites hello
      \<and> take 39 (hl_raw hello') = take 39 (hl_raw hello) \<and> drop 71 (hl_raw hello') = drop 71 (hl_raw hello)"
    using copy_at_outside [of 39 ?sealed "copy_at 39 (replicate 32 0) (hl_raw hello)"] copy_at_outside [of 39 "replicate 32 0" "hl_raw hello"] len assms(2)
    by (simp add: hello')
qed

lemma Verify_cases:
  "VerifyPeerCertificate e key name certs = Inr (True, err) \<Longrightarrow>
     err = None \<and> (\<exists>cert rest pub. certs = cert # rest \<and> ct_ed25519 cert = Some pub \<and> ct_signature cert = re_hmac e key pub)"
  by (auto simp: VerifyPeerCertificate_def split: list.splits option.splits if_splits)

text \<open>
  C17. A REALITY connection is returned only when the server has proved itself: the first of the certificates that it showed in the
  handshake is signed with the HMAC of its own Ed25519 key under the key derived from the configured public key; a valid certificate of the
  web site is not enough. The hello of that handshake carries the version 1.8.9, the time and the first eight bytes of the
  short id, which the holder of that key reads from its session id, and outside the session id it is the client hello of the
  fingerprint.
\<close>

theorem reality_authenticated:
  assumes "cipher_opens unseal e" and "\<forall>f. 71 \<le> length (hl_raw (re_hello e f))" and "reality_UClient e config dest = Inr conn"
  shows "\<exists>f shared cert rest pub. re_fingerprint e (rc_fingerprint config) = Some f
         \<and> re_ecdh e (rc_public_key config) = Some shared
         \<and> re_hkdf e shared (take 20 (hl_random (re_hello e f))) (bytes_of ''REALITY'') = Inr (rl_auth_key conn)
         \<and> re_handshake e (rl_hello conn) = Inr (cert # rest)
         \<and> ct_ed25519 cert = Some pub \<and> ct_signature cert = re_hmac e (rl_auth_key conn) pub
         \<and> server_view unseal (re_prefers_aes e (hl_suites (rl_hello conn))) (rl_auth_key conn) (rl_hello conn)
             = Some ([1, 8, 9, 0] @ be32 (re_now e) @ take 8 (rc_short_id config @ replicate 8 0))
         \<and> take 39 (hl_raw (rl_hello conn)) = take 39 (hl_raw (re_hello e f))
         \<and> drop 71 (hl_raw (rl_hello conn)) = drop 71 (hl_raw (re_hello e f))"
proof -
  from assms(3) obtain name f hello certs where f: "re_fingerprint e (rc_fingerprint config) = Some f"
    and s: "seal_hello e config (re_hello e f) = Inr (hello, rl_auth_key conn)"
    and v: "VerifyPeerCertificate e (rl_auth_key conn) name certs = Inr (True, None)"
    and h: "re_handshake e hello = Inr certs" and conn: "rl_hello conn = hello"
    by (auto simp: reality_UClient_def split: option.splits if_splits)
  note opens = seal_hello_opens [OF assms(1) spec [OF assms(2)] s]
  from opens(1,3) have "server_view unseal (re_prefers_aes e (hl_suites (rl_hello conn))) (rl_auth_key conn) (rl_hello conn)
           = Some ([1, 8, 9, 0] @ be32 (re_now e) @ take 8 (rc_short_id config @ replicate 8 0))" by (simp add: conn)
  then show ?thesis using f h opens(2,3) Verify_cases [OF v] unfolding conn by blast
qed

text \<open>A server with the signature, and a short id of two bytes.\<close>

definition demo_reality :: reality_env where
  "demo_reality =
     \<lparr>re_fingerprint = (\<lambda>name. if name = ''chrome'' then Some ''HelloChrome_Auto'' else None),
      re_hello = (\<lambda>f. \<lparr>hl_raw = replicate 80 5, hl_session_id = [], hl_random = replicate 32 3, hl_suites = []\<rparr>),
      re_parse_key = (\<lambda>k. None), re_ecdh = (\<lambda>k. Some (rev k)), re_hkdf = (\<lambda>key salt info. Inr (key @ take 2 salt)),
      re_prefers_aes = (\<lambda>_. True), re_seal = (\<lambda>aes key nonce plain aad. plain @ replicate 16 7), re_now = 9,
      re_handshake = (\<lambda>h. Inr [\<lparr>ct_ed25519 = Some [1, 2], ct_signature = [8, 6, 3, 3, 1, 2]\<rparr>]),
      re_hmac = (\<lambda>key pub. key @ pub), re_x509 = (\<lambda>name cert rest. None), re_rand = (\<lambda>n. 0)\<rparr>"

definition demo_reality_config :: reality_config where
  "demo_reality_config =
     \<lparr>rc_server_name = ''www.example'', rc_fingerprint = ''chrome'', rc_public_key = [6, 8], rc_short_id = [10, 11], rc_spider_x = ''/'',
      rc_spider_y = [], rc_key_log = ''''\<rparr>"

theorem reality_authenticated_witness:
  "\<exists>conn. reality_UClient demo_reality demo_reality_config (TCPDestination None 443) = Inr conn
     \<and> rl_auth_key conn = [8, 6, 3, 3]
     \<and> server_view (\<lambda>aes key nonce c aad. Some (take (length c - 16) c)) True (rl_auth_key conn) (rl_hello conn)
         = Some [1, 8, 9, 0, 0, 0, 0, 9, 10, 11, 0, 0, 0, 0, 0, 0]"
proof -
  have "\<not> isl (reality_UClient demo_reality demo_reality_config (TCPDestination None 443))" by code_simp
  then obtain conn where conn: "reality_UClient demo_reality demo_reality_config (TCPDestination None 443) = Inr conn"
    by (cases "reality_UClient demo_reality demo_reality_config (TCPDestination None 443)") auto
  have law: "cipher_opens (\<lambda>aes key nonce c aad. Some (take (length c - 16) c)) demo_reality"
    by (simp add: cipher_opens_def demo_reality_def)
  have raw: "\<forall>f. 71 \<le> length (hl_raw (re_hello demo_reality f))" by (simp add: demo_reality_def)
  have "[1, 8, 9, 0] @ be32 (re_now demo_reality) @ take 8 (rc_short_id demo_reality_config @ replicate 8 0)
      = [1, 8, 9, 0, 0, 0, 0, 9, 10, 11, 0, 0, 0, 0, 0, 0]" by code_simp
  then show ?thesis
    using reality_authenticated [OF law raw conn] conn
    by (auto simp: demo_reality_def demo_reality_config_def numeral_2_eq_2)
qed

text \<open>
  Without the ten numbers of \<open>SpiderY\<close> in the settings a server that is not verified makes the dialling goroutine panic.
\<close>

lemma spider_settings_needed: "length (rc_spider_y config) < 10 \<Longrightarrow> reject_connection e config = Panic ''index out of range''"
  by (simp add: reject_connection_def)

end
