(* ===== verification/Spider.thy ===== *)
theory Spider
  imports Reality
begin

section \<open>The spider and the server settings of REALITY (reality.go, config.go)\<close>

text \<open>
  A client that was answered by the web site itself behaves like a browser: it requests pages of that site over the
  connection, follows their links and adds the paths that it finds to those known of the server. The goroutines of a connection share
  the paths under a mutex; a step of the transition system is what one of them does between two acquisitions. Random numbers, the order
  of ranges over maps, the parser and printer of URLs, the regular expression of the links and the answers of the site are parameters.
  The second part gives the settings of a REALITY server.
\<close>

subsection \<open>Requests\<close>

record visit =
  vi_url :: string
  vi_referer :: "string option"
  vi_cookies :: "nat list"

record spider_env =
  sx_draw :: "nat \<Rightarrow> int \<Rightarrow> int"
  sx_order :: "nat \<Rightarrow> string list \<Rightarrow> string list"
  sx_parse :: "string \<Rightarrow> string option"
  sx_path :: "string \<Rightarrow> string \<Rightarrow> string"
  sx_site :: "nat \<Rightarrow> visit \<Rightarrow> bytes res"
  sx_links :: "bytes \<Rightarrow> string list"

text \<open>What the goroutines share: the paths of the server, how many random numbers were drawn, and the requests sent.\<close>

record spider =
  sp_paths :: "string list"
  sp_draws :: nat
  sp_visits :: "visit list"

definition spider_y :: "reality_config \<Rightarrow> nat \<Rightarrow> int res" where
  "spider_y config i = (if i < length (rc_spider_y config) then Inr (rc_spider_y config ! i) else Inl (Panic ''index out of range''))"

definition draw_between :: "spider_env \<Rightarrow> reality_config \<Rightarrow> nat \<Rightarrow> nat \<Rightarrow> spider \<Rightarrow> (int \<times> spider) res" where
  "draw_between e config i j s =
     and_then (spider_y config i) (\<lambda>left. and_then (spider_y config j) (\<lambda>right.
       and_then (randBetween (sx_draw e (sp_draws s)) left right) (\<lambda>n. Inr (n, s\<lparr>sp_draws := sp_draws s + 1\<rparr>))))"

definition draw_path :: "spider_env \<Rightarrow> spider \<Rightarrow> (string \<times> spider) res" where
  "draw_path e s =
     and_then (getPathLocked (sx_draw e (sp_draws s)) (sx_order e (sp_draws s) (sp_paths s))) (\<lambda>p.
       Inr (p, s\<lparr>sp_draws := sp_draws s + 1\<rparr>))"

text \<open>The error of \<open>http.NewRequest\<close> is dropped; without a request the next line panics.\<close>

definition new_get :: "spider_env \<Rightarrow> string \<Rightarrow> visit res" where
  "new_get e url =
     (case sx_parse e url of
        None \<Rightarrow> Inl (Panic ''nil pointer dereference'')
      | Some u \<Rightarrow> Inr \<lparr>vi_url = u, vi_referer = None, vi_cookies = []\<rparr>)"

subsection \<open>The function get\<close>

text \<open>The start of \<open>get(first)\<close>, up to the loop: the request and the number of iterations.\<close>

definition get_begin :: "spider_env \<Rightarrow> reality_config \<Rightarrow> string \<Rightarrow> bool \<Rightarrow> string \<Rightarrow> spider \<Rightarrow> (int \<times> visit \<times> spider) res" where
  "get_begin e config prefix first firstURL s =
     (if first then and_then (new_get e firstURL) (\<lambda>req. Inr (1, req, s))
      else and_then (draw_path e s) (\<lambda>(p, s).
        and_then (new_get e (prefix @ p)) (\<lambda>req.
          and_then (draw_between e config 4 5 s) (\<lambda>(rounds, s). Inr (rounds, req, s)))))"

text \<open>The request that an iteration sends: the padding is one more cookie.\<close>

definition padded :: "bool \<Rightarrow> string \<Rightarrow> int \<Rightarrow> int \<Rightarrow> visit \<Rightarrow> visit res" where
  "padded first firstURL j n req =
     (let req = (if \<not> first \<and> j = 0 then req\<lparr>vi_referer := Some firstURL\<rparr> else req) in
      if n < 0 then Inl (Panic ''strings: negative Repeat count'')
      else Inr (req\<lparr>vi_cookies := vi_cookies req @ [nat n]\<rparr>))"

text \<open>The answer: the links of the page are added, and one of the known paths is requested next. No request: the loop ends.\<close>

definition get_answer :: "spider_env \<Rightarrow> reality_config \<Rightarrow> string \<Rightarrow> bool \<Rightarrow> visit \<Rightarrow> spider \<Rightarrow> (visit option \<times> spider) res" where
  "get_answer e config prefix first req s =
     (let k = length (sp_visits s); s = s\<lparr>sp_visits := sp_visits s @ [req]\<rparr> in
      case sx_site e k req of
        Inl err \<Rightarrow> Inr (None, s)
      | Inr body \<Rightarrow>
          let req = req\<lparr>vi_referer := Some (vi_url req)\<rparr>; s = s\<lparr>sp_paths := add_links prefix (sx_links e body) (sp_paths s)\<rparr> in
          and_then (draw_path e s) (\<lambda>(p, s).
            let req = req\<lparr>vi_url := sx_path e (vi_url req) p\<rparr> in
            if first then Inr (Some req, s)
            else and_then (draw_between e config 6 7 s) (\<lambda>(pause, s). Inr (Some req, s))))"

definition get_iteration :: "spider_env \<Rightarrow> reality_config \<Rightarrow> string \<Rightarrow> bool \<Rightarrow> string \<Rightarrow> int \<Rightarrow> visit \<Rightarrow> spider \<Rightarrow> (visit option \<times> spider) res" where
  "get_iteration e config prefix first firstURL j req s =
     and_then (draw_between e config 0 1 s) (\<lambda>(n, s).
       and_then (padded first firstURL j n req) (\<lambda>req. get_answer e config prefix first req s))"

subsection \<open>The goroutines\<close>

datatype visitor =
  Start
| Get bool string
| Loop bool string int int visit
| Spawn string

text \<open>
  What a goroutine becomes by its next step. \<open>Start\<close> is the goroutine that \<open>UClient\<close> starts; it runs \<open>get(true)\<close> itself and starts one goroutine for
  each \<open>get(false)\<close>.
\<close>

definition after_get :: "bool \<Rightarrow> string \<Rightarrow> visitor list" where
  "after_get first firstURL = (if first then [Spawn firstURL] else [])"

fun run_visitor :: "spider_env \<Rightarrow> reality_config \<Rightarrow> string \<Rightarrow> visitor \<Rightarrow> spider \<Rightarrow> (visitor list \<times> spider) res" where
  "run_visitor e config prefix Start s = and_then (draw_path e s) (\<lambda>(p, s). Inr ([Get True (prefix @ p)], s))"
| "run_visitor e config prefix (Get first firstURL) s =
     and_then (get_begin e config prefix first firstURL s) (\<lambda>(rounds, req, s). Inr ([Loop first firstURL rounds 0 req], s))"
| "run_visitor e config prefix (Loop first firstURL rounds j req) s =
     (if j < rounds then
        and_then (get_iteration e config prefix first firstURL j req s) (\<lambda>(again, s).
          Inr (case again of Some req \<Rightarrow> [Loop first firstURL rounds (j + 1) req] | None \<Rightarrow> after_get first firstURL, s))
      else Inr (after_get first firstURL, s))"
| "run_visitor e config prefix (Spawn firstURL) s =
     and_then (draw_between e config 2 3 s) (\<lambda>(concurrency, s). Inr (replicate (nat concurrency) (Get False firstURL), s))"

inductive spider_step :: "spider_env \<Rightarrow> reality_config \<Rightarrow> string \<Rightarrow> visitor list \<times> spider \<Rightarrow> visitor list \<times> spider \<Rightarrow> bool"
  for e config prefix where
  run: "run_visitor e config prefix g s = Inr (gs, s') \<Longrightarrow> spider_step e config prefix (as @ g # bs, s) (as @ gs @ bs, s')"

inductive spider_reach :: "spider_env \<Rightarrow> reality_config \<Rightarrow> string \<Rightarrow> string list \<Rightarrow> visitor list \<times> spider \<Rightarrow> bool"
  for e config prefix paths where
  starts: "spider_reach e config prefix paths ([Start], \<lparr>sp_paths = paths, sp_draws = 0, sp_visits = []\<rparr>)"
| step: "spider_reach e config prefix paths c \<Longrightarrow> spider_step e config prefix c c' \<Longrightarrow> spider_reach e config prefix paths c'"

inductive_cases spider_stepE: "spider_step e config prefix c c'"

subsection \<open>The spider stays on the site\<close>

text \<open>Random numbers below the bound, and ranges that visit every path.\<close>

definition spider_env_ok :: "spider_env \<Rightarrow> bool" where
  "spider_env_ok e \<longleftrightarrow> (\<forall>k n. 0 < n \<longrightarrow> 0 \<le> sx_draw e k n \<and> sx_draw e k n < n) \<and> (\<forall>k ps. mset (sx_order e k ps) = mset ps)"

definition on_site :: "spider_env \<Rightarrow> string \<Rightarrow> string list \<Rightarrow> string \<Rightarrow> bool" where
  "on_site e prefix paths url \<longleftrightarrow> (\<exists>p \<in> set paths. sx_parse e (prefix @ p) = Some url \<or> (\<exists>u. url = sx_path e u p))"

fun visitor_ok :: "spider_env \<Rightarrow> string \<Rightarrow> string list \<Rightarrow> visitor \<Rightarrow> bool" where
  "visitor_ok e prefix paths Start = True"
| "visitor_ok e prefix paths (Get first firstURL) = (\<exists>p \<in> set paths. firstURL = prefix @ p)"
| "visitor_ok e prefix paths (Loop first firstURL rounds j req) = ((\<exists>p \<in> set paths. firstURL = prefix @ p) \<and> on_site e prefix paths (vi_url req))"
| "visitor_ok e prefix paths (Spawn firstURL) = (\<exists>p \<in> set paths. firstURL = prefix @ p)"

definition spider_inv :: "spider_env \<Rightarrow> reality_config \<Rightarrow> string \<Rightarrow> string list \<Rightarrow> visitor list \<times> spider \<Rightarrow> bool" where
  "spider_inv e config prefix start c \<longleftrightarrow>
     (case c of (gs, s) \<Rightarrow>
        sp_paths s \<noteq> [] \<and> (\<forall>p \<in> set (sp_paths s). p \<in> set start \<or> CHR ''.'' \<notin> set p)
        \<and> (\<forall>v \<in> set (sp_visits s). on_site e prefix (sp_paths s) (vi_url v))
        \<and> (\<forall>g \<in> set gs. visitor_ok e prefix (sp_paths s) g))"

lemma add_links_new: "p \<in> set (add_links prefix links paths) \<Longrightarrow> p \<in> set paths \<or> CHR ''.'' \<notin> set p"
proof (induction links arbitrary: paths)
  case (Cons m links)
  from Cons.prems have "p \<in> set (add_links prefix links (let m = trim_prefix m prefix in if CHR ''.'' \<in> set m then paths else List.insert m paths))"
    by (simp add: add_links_def)
  from Cons.IH [OF this] show ?case by (auto simp: Let_def split: if_splits)
qed (simp add: add_links_def)

lemma on_site_mono: "on_site e prefix ps url \<Longrightarrow> set ps \<subseteq> set qs \<Longrightarrow> on_site e prefix qs url"
  unfolding on_site_def by blast

lemma visitor_ok_mono: "visitor_ok e prefix ps g \<Longrightarrow> set ps \<subseteq> set qs \<Longrightarrow> visitor_ok e prefix qs g"
  by (cases g) (auto intro: on_site_mono)

text \<open>While paths are known, drawing one gives one of them, and nothing else changes.\<close>

lemma draw_path_known:
  assumes "spider_env_ok e" and "sp_paths s \<noteq> []"
  shows "\<exists>p \<in> set (sp_paths s). draw_path e s = Inr (p, s\<lparr>sp_draws := sp_draws s + 1\<rparr>)"
proof -
  let ?ps = "sx_order e (sp_draws s) (sp_paths s)"
  have "mset ?ps = mset (sp_paths s)" using assms(1) by (simp add: spider_env_ok_def)
  then have "set ?ps = set (sp_paths s)" by (rule mset_eq_setD)
  moreover from this assms(2) have "?ps \<noteq> []" by auto
  moreover have "\<And>n. 0 < n \<Longrightarrow> 0 \<le> sx_draw e (sp_draws s) n \<and> sx_draw e (sp_draws s) n < n" using assms(1) by (simp add: spider_env_ok_def)
  ultimately obtain p where "p \<in> set (sp_paths s)" "getPathLocked (sx_draw e (sp_draws s)) ?ps = Inr p"
    using getPathLocked_known by metis
  then show ?thesis by (auto simp: draw_path_def)
qed

lemma draw_between_shared: "draw_between e config i j s = Inr (n, s') \<Longrightarrow> sp_paths s' = sp_paths s \<and> sp_visits s' = sp_visits s"
  by (auto simp: draw_between_def)

lemma new_get_url: "new_get e url = Inr req \<Longrightarrow> sx_parse e url = Some (vi_url req)"
  by (auto simp: new_get_def split: option.splits)

lemma padded_url: "padded first firstURL j n req = Inr req' \<Longrightarrow> vi_url req' = vi_url req"
  by (auto simp: padded_def Let_def split: if_splits)

lemma get_answer_ok:
  assumes "spider_env_ok e" and "sp_paths s \<noteq> []" and "get_answer e config prefix first req s = Inr (again, s')"
  shows "set (sp_paths s) \<subseteq> set (sp_paths s') \<and> (\<forall>p \<in> set (sp_paths s'). p \<in> set (sp_paths s) \<or> CHR ''.'' \<notin> set p)
    \<and> sp_visits s' = sp_visits s @ [req] \<and> (\<forall>r. again = Some r \<longrightarrow> on_site e prefix (sp_paths s') (vi_url r))"
proof (cases "sx_site e (length (sp_visits s)) req")
  case (Inl err)
  with assms(3) show ?thesis by (auto simp: get_answer_def)
next
  case (Inr body)
  let ?t = "s\<lparr>sp_visits := sp_visits s @ [req], sp_paths := add_links prefix (sx_links e body) (sp_paths s)\<rparr>"
  have sub: "set (sp_paths s) \<subseteq> set (sp_paths ?t)" using add_links_paths by simp
  with assms(2) have "sp_paths ?t \<noteq> []" by auto
  then obtain p where p: "p \<in> set (sp_paths ?t)" "draw_path e ?t = Inr (p, ?t\<lparr>sp_draws := sp_draws ?t + 1\<rparr>)"
    using draw_path_known [OF assms(1)] by blast
  with assms(3) Inr have s': "sp_paths s' = sp_paths ?t" "sp_visits s' = sp_visits ?t" "\<And>r. again = Some r \<Longrightarrow> \<exists>u. vi_url r = sx_path e u p"
    by (auto simp: get_answer_def Let_def split: if_splits dest!: draw_between_shared)
  then have "\<forall>r. again = Some r \<longrightarrow> on_site e prefix (sp_paths s') (vi_url r)" using p(1) unfolding on_site_def by (metis)
  with sub s'(1,2) show ?thesis by (auto dest: add_links_new)
qed

lemma run_visitor_ok:
  assumes "spider_env_ok e" and "sp_paths s \<noteq> []" and "visitor_ok e prefix (sp_paths s) g" and "run_visitor e config prefix g s = Inr (gs, s')"
  shows "set (sp_paths s) \<subseteq> set (sp_paths s') \<and> (\<forall>p \<in> set (sp_paths s'). p \<in> set (sp_paths s) \<or> CHR ''.'' \<notin> set p)
    \<and> (\<forall>v \<in> set (sp_visits s'). v \<in> set (sp_visits s) \<or> on_site e prefix (sp_paths s') (vi_url v))
    \<and> (\<forall>g \<in> set gs. visitor_ok e prefix (sp_paths s') g)"
proof (cases g)
  case Start
  obtain p where "p \<in> set (sp_paths s)" "draw_path e s = Inr (p, s\<lparr>sp_draws := sp_draws s + 1\<rparr>)"
    using draw_path_known [OF assms(1,2)] by blast
  with assms(4) Start show ?thesis by auto
next
  case (Get first firstURL)
  obtain p where "p \<in> set (sp_paths s)" "draw_path e s = Inr (p, s\<lparr>sp_draws := sp_draws s + 1\<rparr>)"
    using draw_path_known [OF assms(1,2)] by blast
  with assms(3,4) Get show ?thesis
    by (auto simp: get_begin_def on_site_def split: if_splits dest!: draw_between_shared new_get_url)
next
  case (Spawn firstURL)
  with assms(3,4) show ?thesis by (auto dest!: draw_between_shared)
next
  case (Loop first firstURL rounds j req)
  show ?thesis
  proof (cases "j < rounds")
    case False
    with Loop assms(3,4) show ?thesis by (auto simp: after_get_def)
  next
    case True
    with Loop assms(4) obtain n t req' again where
      t: "draw_between e config 0 1 s = Inr (n, t)" "padded first firstURL j n req = Inr req'" "get_answer e config prefix first req' t = Inr (again, s')"
      and gs: "gs = (case again of Some req \<Rightarrow> [Loop first firstURL rounds (j + 1) req] | None \<Rightarrow> after_get first firstURL)"
      by (auto simp: get_iteration_def)
    note shared = draw_between_shared [OF t(1)] and url = padded_url [OF t(2)]
    from shared assms(2) have "sp_paths t \<noteq> []" by simp
    note ok = get_answer_ok [OF assms(1) this t(3)]
    from Loop assms(3) url have old: "on_site e prefix (sp_paths s) (vi_url req')" and f: "\<exists>p \<in> set (sp_paths s). firstURL = prefix @ p" by simp_all
    from ok shared have sub: "set (sp_paths s) \<subseteq> set (sp_paths s')" by simp
    from on_site_mono [OF old sub] ok shared have v: "\<forall>v \<in> set (sp_visits s'). v \<in> set (sp_visits s) \<or> on_site e prefix (sp_paths s') (vi_url v)" by auto
    from f sub ok have "\<forall>g \<in> set gs. visitor_ok e prefix (sp_paths s') g"
      unfolding gs by (auto simp: after_get_def split: option.splits)
    with ok shared sub v show ?thesis by simp
  qed
qed

text \<open>
  Whatever the site answers and however the goroutines are interleaved, the spider has a path to draw, every request is for a path that
  is known of the server, and a path that was not known at the start has no dot in it.
\<close>

lemma spider_stays:
  assumes "spider_env_ok e" and "paths \<noteq> []" and "spider_reach e config prefix paths c"
  shows "spider_inv e config prefix paths c"
  using assms(3)
proof induction
  case starts
  then show ?case using assms(2) by (simp add: spider_inv_def)
next
  case (step c c')
  from step(2) obtain as g bs s gs s' where c: "c = (as @ g # bs, s)" "c' = (as @ gs @ bs, s')" and r: "run_visitor e config prefix g s = Inr (gs, s')"
    by (rule spider_stepE)
  note inv = step.IH [unfolded c spider_inv_def prod.case]
  have ok: "set (sp_paths s) \<subseteq> set (sp_paths s')" "\<forall>p \<in> set (sp_paths s'). p \<in> set (sp_paths s) \<or> CHR ''.'' \<notin> set p"
    "\<forall>v \<in> set (sp_visits s'). v \<in> set (sp_visits s) \<or> on_site e prefix (sp_paths s') (vi_url v)"
    "\<forall>g \<in> set gs. visitor_ok e prefix (sp_paths s') g"
    using run_visitor_ok [OF assms(1) _ _ r] inv by auto
  have "\<forall>g \<in> set as \<union> set bs. visitor_ok e prefix (sp_paths s') g" using inv visitor_ok_mono [OF _ ok(1)] by auto
  moreover have "\<forall>v \<in> set (sp_visits s). on_site e prefix (sp_paths s') (vi_url v)" using inv on_site_mono [OF _ ok(1)] by auto
  moreover have "sp_paths s' \<noteq> []" using inv ok(1) by auto
  moreover have "\<forall>p \<in> set (sp_paths s'). p \<in> set paths \<or> CHR ''.'' \<notin> set p" using inv ok(2) by blast
  ultimately show ?case using ok(3,4) unfolding c spider_inv_def prod.case by auto
qed

text \<open>
  A link that is no URL when it is put behind the prefix makes the goroutine that draws it panic, and with it the process: the error of
  \<open>http.NewRequest\<close> is not looked at.
\<close>

lemma malformed_link_panics:
  assumes "draw_path e s = Inr (p, s')" and "sx_parse e (prefix @ p) = None"
  shows "run_visitor e config prefix (Get False firstURL) s = Inl (Panic ''nil pointer dereference'')"
  using assms by (simp add: get_begin_def new_get_def)

text \<open>The padding cookies of a request add up: the request of iteration \<open>j\<close> carries those of all earlier ones.\<close>

lemma cookies_add_up:
  assumes "get_answer e config prefix first req s = Inr (Some req', s')"
  shows "vi_cookies req' = vi_cookies req"
  using assms by (auto simp: get_answer_def Let_def split: sum.splits if_splits)

subsection \<open>The settings of a server\<close>

record reality_settings = reality_config +
  rs_show :: bool
  rs_type :: string
  rs_dest :: string
  rs_xver :: "64 word"
  rs_server_names :: "string list"
  rs_private_key :: bytes
  rs_min_client :: bytes
  rs_max_client :: bytes
  rs_max_time_diff :: "64 word"
  rs_short_ids :: "bytes list"

record reality_server =
  rv_show :: bool
  rv_type :: string
  rv_dest :: string
  rv_xver :: byte
  rv_private_key :: bytes
  rv_min_client :: bytes
  rv_max_client :: bytes
  rv_max_time_diff :: "64 word"
  rv_key_log :: "string option"
  rv_server_names :: "string set"
  rv_short_ids :: "bytes set"

text \<open>The conversion of a slice to an array of 8 bytes: it drops what is longer and panics on what is shorter.\<close>

fun short_ids :: "bytes list \<Rightarrow> bytes set \<Rightarrow> bytes set res" where
  "short_ids [] ids = Inr ids"
| "short_ids (i # is) ids =
     (if length i < 8 then Inl (Panic ''cannot convert slice with fewer than 8 bytes to array'') else short_ids is (insert (take 8 i) ids))"

definition GetREALITYConfig :: "(string \<Rightarrow> goerr option) \<Rightarrow> reality_settings \<Rightarrow> reality_server res" where
  "GetREALITYConfig open_file c =
     and_then (short_ids (rs_short_ids c) {}) (\<lambda>ids.
       Inr \<lparr>rv_show = rs_show c, rv_type = rs_type c, rv_dest = rs_dest c, rv_xver = ucast (rs_xver c), rv_private_key = rs_private_key c,
            rv_min_client = rs_min_client c, rv_max_client = rs_max_client c, rv_max_time_diff = rs_max_time_diff c * 1000000,
            rv_key_log = KeyLogWriterFromConfig open_file (reality_config.truncate c), rv_server_names = set (rs_server_names c), rv_short_ids = ids\<rparr>)"

lemma short_ids_set: "short_ids is ids = (if \<forall>i \<in> set is. 8 \<le> length i then Inr (ids \<union> take 8 ` set is) else Inl (Panic ''cannot convert slice with fewer than 8 bytes to array''))"
  by (induction "is" ids rule: short_ids.induct) (auto simp: insert_commute)

text \<open>
  A server accepts the client of a short id: the eight bytes that a client seals are in the set of a server whose settings have its short id, padded with zeros to
  eight bytes.
\<close>

lemma short_id_accepted:
  assumes "GetREALITYConfig open_file c = Inr v" and "shortId @ replicate (8 - length shortId) 0 \<in> set (rs_short_ids c)"
  shows "drop 8 (take 16 (plain_session_id now shortId)) \<in> rv_short_ids v"
proof -
  have "drop 8 (take 16 (plain_session_id now shortId)) = take 8 (shortId @ replicate 8 0)"
    unfolding plain_session_id_sealed by (simp add: be32_def)
  also have "\<dots> = take 8 (shortId @ replicate (8 - length shortId) 0)" by (simp add: min_def)
  finally have "drop 8 (take 16 (plain_session_id now shortId)) \<in> take 8 ` set (rs_short_ids c)"
    using assms(2) by (rule image_eqI)
  then show ?thesis using assms(1) by (auto simp: GetREALITYConfig_def short_ids_set split: if_splits)
qed

end
