(* ===== verification/Url.thy ===== *)
theory Url
  imports GoNet
begin

section \<open>URLs (net/url)\<close>

text \<open>
  What the dialers use of Go's \<open>net/url\<close>: \<open>URL.String\<close> for a URL given by scheme, host and path, \<open>url.Parse\<close> up to the
  fields that are read (scheme, host and path; queries, fragments and user information are checked and dropped), and \<open>Hostname\<close>.
  A string is a list of bytes, as in Go.
\<close>

datatype encoding = EncodePath | EncodeHost | EncodeZone

definition alnum :: "char \<Rightarrow> bool" where
  "alnum c = (let n = (of_char c :: nat) in 97 \<le> n \<and> n \<le> 122 \<or> 65 \<le> n \<and> n \<le> 90 \<or> 48 \<le> n \<and> n \<le> 57)"

definition host_delims :: string where
  "host_delims = ''!$&'()*+,;=:[]<>\"''"

definition unreserved_marks :: string where
  "unreserved_marks = ''-_.~''"

definition reserved_chars :: string where
  "reserved_chars = ''$&+,/:;=?@''"

lemmas char_sets = host_delims_def unreserved_marks_def reserved_chars_def

definition shouldEscape :: "encoding \<Rightarrow> char \<Rightarrow> bool" where
  "shouldEscape mode c =
     (if alnum c then False
      else if mode \<noteq> EncodePath \<and> c \<in> set host_delims then False
      else if c \<in> set unreserved_marks then False
      else if mode = EncodePath \<and> c \<in> set reserved_chars then c = CHR ''?''
      else True)"

definition upper_hex :: "nat \<Rightarrow> char" where
  "upper_hex n = ''0123456789ABCDEF'' ! n"

fun escape :: "encoding \<Rightarrow> string \<Rightarrow> string" where
  "escape mode [] = []"
| "escape mode (c # s) =
     (if shouldEscape mode c then CHR ''%'' # upper_hex (of_char c div 16) # upper_hex (of_char c mod 16) # escape mode s
      else c # escape mode s)"

text \<open>\<open>unescape\<close>: a bad escape and a character that a host may not have are errors.\<close>

fun unescape :: "encoding \<Rightarrow> string \<Rightarrow> string res" where
  "unescape mode [] = Inr []"
| "unescape mode (c # s) =
     (if c = CHR ''%'' then
        (case s of
           a # b # t \<Rightarrow>
             (let v = char_of (16 * hex_val a + hex_val b) :: char in
              if \<not> is_hex a \<or> \<not> is_hex b then Inl (Msg ''invalid URL escape'')
              else if mode = EncodeHost \<and> hex_val a < 8 \<and> [a, b] \<noteq> ''25'' then Inl (Msg ''invalid URL escape'')
              else if mode = EncodeZone \<and> [a, b] \<noteq> ''25'' \<and> v \<noteq> CHR '' '' \<and> shouldEscape EncodeHost v
              then Inl (Msg ''invalid URL escape'')
              else and_then (unescape mode t) (\<lambda>r. Inr (v # r)))
         | _ \<Rightarrow> Inl (Msg ''invalid URL escape''))
      else if mode \<noteq> EncodePath \<and> of_char c < (128 :: nat) \<and> shouldEscape mode c then Inl (Msg ''invalid character in host name'')
      else and_then (unescape mode s) (\<lambda>r. Inr (c # r)))"

text \<open>\<open>String\<close> of \<open>URL{Scheme, Host, Path}\<close>; the host is not empty where the program uses it.\<close>

definition escaped_path :: "string \<Rightarrow> string" where
  "escaped_path path = (if path = ''*'' then ''*'' else escape EncodePath path)"

definition url_String :: "string \<Rightarrow> string \<Rightarrow> string \<Rightarrow> string" where
  "url_String scheme host path =
     (if scheme \<noteq> '''' then scheme @ '':'' else '''') @ ''//'' @ escape EncodeHost host
     @ (let p = escaped_path path in (if p \<noteq> '''' \<and> hd p \<noteq> CHR ''/'' then ''/'' else '''') @ p)"

record go_url =
  gu_scheme :: string
  gu_opaque :: string
  gu_host :: string
  gu_path :: string

text \<open>\<open>getScheme\<close>; \<open>pre\<close> is what has been read.\<close>

fun get_scheme :: "string \<Rightarrow> string \<Rightarrow> (string \<times> string) res" where
  "get_scheme pre [] = Inr ('''', pre)"
| "get_scheme pre (c # s) =
     (if alnum c \<and> \<not> is_digit c then get_scheme (pre @ [c]) s
      else if is_digit c \<or> c \<in> set ''+-.'' then (if pre = [] then Inr ('''', c # s) else get_scheme (pre @ [c]) s)
      else if c = CHR '':'' then (if pre = [] then Inl (Msg ''missing protocol scheme'') else Inr (pre, s))
      else Inr ('''', pre @ c # s))"

definition validOptionalPort :: "string \<Rightarrow> bool" where
  "validOptionalPort port \<longleftrightarrow> port = '''' \<or> hd port = CHR '':'' \<and> list_all is_digit (tl port)"

definition parseHost :: "string \<Rightarrow> string res" where
  "parseHost host =
     (if has_prefix host ''['' then
        (case last_index_of CHR '']'' host of
           None \<Rightarrow> Inl (Msg ''missing ']' in host'')
         | Some i \<Rightarrow>
             if \<not> validOptionalPort (drop (Suc i) host) then Inl (Msg ''invalid port after host'')
             else (case find (\<lambda>k. has_prefix (drop k (take i host)) ''%25'') [0..<i] of
                     Some zone \<Rightarrow>
                       and_then (unescape EncodeHost (take zone host)) (\<lambda>h1.
                       and_then (unescape EncodeZone (drop zone (take i host))) (\<lambda>h2.
                       and_then (unescape EncodeHost (drop i host)) (\<lambda>h3. Inr (h1 @ h2 @ h3))))
                   | None \<Rightarrow> unescape EncodeHost host))
      else
        (case last_index_of CHR '':'' host of
           Some i \<Rightarrow> if \<not> validOptionalPort (drop i host) then Inl (Msg ''invalid port after host'') else unescape EncodeHost host
         | None \<Rightarrow> unescape EncodeHost host))"

definition validUserinfo :: "string \<Rightarrow> bool" where
  "validUserinfo s \<longleftrightarrow> list_all (\<lambda>c. alnum c \<or> c \<in> set ''-._:~!$&'()*+,;=%@'') s"

definition parseAuthority :: "string \<Rightarrow> string res" where
  "parseAuthority authority =
     (case last_index_of CHR ''@'' authority of
        None \<Rightarrow> parseHost authority
      | Some i \<Rightarrow>
          and_then (parseHost (drop (Suc i) authority)) (\<lambda>host.
            if \<not> validUserinfo (take i authority) then Inl (Msg ''net/url: invalid userinfo'')
            else and_then (unescape EncodePath (take i authority)) (\<lambda>_. Inr host)))"

text \<open>\<open>strings.Cut\<close> at a character.\<close>

definition cut :: "char \<Rightarrow> string \<Rightarrow> string \<times> string" where
  "cut c s = (case index_of c s of None \<Rightarrow> (s, '''') | Some i \<Rightarrow> (take i s, drop (Suc i) s))"

definition parse_rest :: "string \<Rightarrow> string \<Rightarrow> go_url res" where
  "parse_rest scheme rest0 =
     (let rest = fst (cut CHR ''?'' rest0); u = \<lparr>gu_scheme = scheme, gu_opaque = '''', gu_host = '''', gu_path = ''''\<rparr> in
      if \<not> has_prefix rest ''/'' \<and> scheme \<noteq> '''' then Inr (u\<lparr>gu_opaque := rest\<rparr>)
      else if \<not> has_prefix rest ''/'' \<and> CHR '':'' \<in> set (fst (cut CHR ''/'' rest))
      then Inl (Msg ''first path segment in URL cannot contain colon'')
      else if (scheme \<noteq> '''' \<or> \<not> has_prefix rest ''///'') \<and> has_prefix rest ''//'' then
        (let auth = drop 2 rest; i = (case index_of CHR ''/'' auth of None \<Rightarrow> length auth | Some i \<Rightarrow> i) in
         and_then (parseAuthority (take i auth)) (\<lambda>host.
         and_then (unescape EncodePath (drop i auth)) (\<lambda>p. Inr (u\<lparr>gu_host := host, gu_path := p\<rparr>))))
      else and_then (unescape EncodePath rest) (\<lambda>p. Inr (u\<lparr>gu_path := p\<rparr>)))"

definition url_Parse :: "string \<Rightarrow> go_url res" where
  "url_Parse rawURL =
     (let (s, frag) = cut CHR ''#'' rawURL in
      and_then
        (if list_ex (\<lambda>c. of_char c < (32 :: nat) \<or> of_char c = (127 :: nat)) s
         then Inl (Msg ''net/url: invalid control character in URL'')
         else if s = ''*'' then Inr \<lparr>gu_scheme = '''', gu_opaque = '''', gu_host = '''', gu_path = ''*''\<rparr>
         else and_then (get_scheme [] s) (\<lambda>(scheme, rest). parse_rest (to_lower scheme) rest))
        (\<lambda>u. and_then (unescape EncodePath frag) (\<lambda>_. Inr u)))"

definition Hostname :: "go_url \<Rightarrow> string" where
  "Hostname u =
     (let h = gu_host u;
          h = (case last_index_of CHR '':'' h of
                 Some i \<Rightarrow> if validOptionalPort (drop i h) then take i h else h
               | None \<Rightarrow> h)
      in if has_prefix h ''['' \<and> has_suffix h '']'' then butlast (tl h) else h)"

subsection \<open>Escapes\<close>

lemma escape_plain: "list_all (\<lambda>c. \<not> shouldEscape mode c) s \<Longrightarrow> escape mode s = s"
  by (induction s) auto

lemma upper_hex_val:
  assumes "n < 16"
  shows "hex_val (upper_hex n) = n" and "is_hex (upper_hex n)" and "alnum (upper_hex n)"
proof -
  have n: "n \<in> {0, 1, 2, 3, 4, 5, 6, 7, 8, 9, 10, 11, 12, 13, 14, 15}" using assms unfolding insert_iff empty_iff by presburger
  from n show "hex_val (upper_hex n) = n" by (auto simp: upper_hex_def hex_val_def is_digit_def digit_val_def)
  from n show "is_hex (upper_hex n)" by (auto simp: upper_hex_def is_hex_def is_digit_def)
  from n show "alnum (upper_hex n)" by (auto simp: upper_hex_def alnum_def)
qed

lemma of_char_256: "(of_char c :: nat) < 256"
proof -
  have "(of_char c :: nat) mod 256 < 256" by simp
  then show ?thesis by simp
qed

lemma unescape_escape: "unescape EncodePath (escape EncodePath s) = Inr s"
proof (induction s)
  case (Cons c s)
  let ?n = "of_char c :: nat"
  have n: "?n < 256" by (rule of_char_256)
  then have "?n div 16 < 16" by (simp add: less_mult_imp_div_less)
  moreover have "char_of (16 * (?n div 16) + ?n mod 16) = c" by simp
  moreover have "shouldEscape EncodePath CHR ''%''" by code_simp
  ultimately show ?case using Cons by (auto simp: upper_hex_val Let_def)
qed simp

text \<open>What an escaped text may contain.\<close>

lemma escape_chars: "c \<in> set (escape mode s) \<Longrightarrow> c = CHR ''%'' \<or> alnum c \<or> \<not> shouldEscape mode c"
proof (induction s)
  case (Cons d s)
  have "(of_char d :: nat) < 256" by (rule of_char_256)
  then have "(of_char d :: nat) div 16 < 16" by (simp add: less_mult_imp_div_less)
  with Cons show ?case by (auto simp: upper_hex_val split: if_splits)
qed simp

subsection \<open>Reading back what was written\<close>

text \<open>
  Hosts as profiles have them: letters, digits and the other characters that a host may contain, without
  brackets. An IPv6 address is put into brackets by \<open>JoinHostPort\<close>.
\<close>

definition plain_host :: "string \<Rightarrow> bool" where
  "plain_host h \<longleftrightarrow> h \<noteq> [] \<and> list_all (\<lambda>c. \<not> shouldEscape EncodeHost c \<and> c \<noteq> CHR ''['' \<and> c \<noteq> CHR '']'') h"

definition plain_scheme :: "string \<Rightarrow> bool" where
  "plain_scheme s \<longleftrightarrow> s \<noteq> [] \<and> list_all (\<lambda>c. (97 :: nat) \<le> of_char c \<and> of_char c \<le> (122 :: nat)) s"

lemma escaped_facts:
  "shouldEscape mode CHR ''%''" "shouldEscape mode CHR ''#''" "shouldEscape mode CHR ''?''" "shouldEscape EncodeHost CHR ''/''" "shouldEscape EncodeHost CHR ''@''"
  "\<not> alnum CHR ''%''" "\<not> alnum CHR ''#''" "\<not> alnum CHR ''?''" "\<not> alnum CHR ''/''" "\<not> alnum CHR '':''"
  by (simp_all add: shouldEscape_def alnum_def char_sets)

lemma printable:
  assumes "\<not> shouldEscape mode c \<or> alnum c \<or> c = CHR ''%''"
  shows "\<not> of_char c < (32 :: nat)" and "of_char c \<noteq> (127 :: nat)"
proof -
  consider "alnum c" | "c \<in> set host_delims" | "c \<in> set unreserved_marks" | "c \<in> set reserved_chars" | "c = CHR ''%''"
    using assms unfolding shouldEscape_def by argo
  then have "\<not> of_char c < (32 :: nat) \<and> of_char c \<noteq> (127 :: nat)"
    by cases (auto simp: alnum_def Let_def char_sets)
  then show "\<not> of_char c < (32 :: nat)" "of_char c \<noteq> (127 :: nat)" by auto
qed

lemma unescape_plain: "list_all (\<lambda>c. \<not> shouldEscape mode c) s \<Longrightarrow> unescape mode s = Inr s"
  by (induction s) (auto simp: escaped_facts)

lemma digits_unescaped: "is_digit c \<Longrightarrow> \<not> shouldEscape mode c"
  by (simp add: shouldEscape_def alnum_def is_digit_def)

lemma show_nat_unescaped: "list_all (\<lambda>c. \<not> shouldEscape mode c) (show_nat n)"
  using show_nat_digits [of n] by (auto simp: list_all_iff digits_unescaped)

lemma port_text: "validOptionalPort (CHR '':'' # show_nat n)" "CHR '':'' \<notin> set (show_nat n)" "CHR '']'' \<notin> set (show_nat n)"
  using show_nat_digits [of n] by (auto simp: validOptionalPort_def show_nat_no_sep)

lemma host_port_unescaped:
  assumes "plain_host h"
  shows "list_all (\<lambda>c. \<not> shouldEscape EncodeHost c) (join_host_port h (show_nat n))"
proof -
  have "\<not> shouldEscape EncodeHost CHR '':''" "\<not> shouldEscape EncodeHost CHR ''[''" "\<not> shouldEscape EncodeHost CHR '']''"
    by (simp_all add: shouldEscape_def char_sets)
  moreover have "list_all (\<lambda>c. \<not> shouldEscape EncodeHost c) h" using assms by (simp add: plain_host_def list_all_iff)
  ultimately show ?thesis using show_nat_unescaped by (simp add: join_host_port_def)
qed

lemma no_percent: "list_all (\<lambda>c. \<not> shouldEscape mode c) s \<Longrightarrow> find (\<lambda>k. has_prefix (drop k (take i s)) ''%25'') ks = None"
proof -
  assume s: "list_all (\<lambda>c. \<not> shouldEscape mode c) s"
  have "\<not> has_prefix (drop k (take i s)) ''%25''" for k
  proof
    assume "has_prefix (drop k (take i s)) ''%25''"
    then obtain t where "drop k (take i s) = ''%25'' @ t" by (auto simp: has_prefix_iff)
    then have "CHR ''%'' \<in> set (drop k (take i s))" by simp
    then have "CHR ''%'' \<in> set s" by (meson in_set_dropD in_set_takeD)
    with s show False using escaped_facts(1) by (auto simp: list_all_iff)
  qed
  then show ?thesis by (simp add: find_None_iff)
qed

lemma parseHost_plain:
  assumes "plain_host h"
  shows "parseHost (join_host_port h (show_nat n)) = Inr (join_host_port h (show_nat n))" (is "parseHost ?hp = _")
proof -
  note un = host_port_unescaped [OF assms, of n]
  show ?thesis
  proof (cases "CHR '':'' \<in> set h")
    case True
    then have hp: "?hp = (CHR ''['' # h) @ CHR '']'' # CHR '':'' # show_nat n" by (simp add: join_host_port_def)
    have "last_index_of CHR '']'' ?hp = Some (length (CHR ''['' # h))"
      unfolding hp by (rule last_index_of_last) (simp add: port_text)
    moreover have "drop (Suc (length (CHR ''['' # h))) ?hp = CHR '':'' # show_nat n" "has_prefix ?hp ''[''"
      by (simp_all add: hp has_prefix_iff)
    ultimately show ?thesis by (simp add: parseHost_def port_text no_percent [OF un] unescape_plain [OF un])
  next
    case False
    then have hp: "?hp = h @ CHR '':'' # show_nat n" by (simp add: join_host_port_def)
    have "last_index_of CHR '':'' ?hp = Some (length h)" unfolding hp by (rule last_index_of_last) (simp add: port_text)
    moreover have "\<not> has_prefix ?hp ''[''" unfolding hp using assms by (cases h) (auto simp: plain_host_def has_prefix_iff)
    moreover have "drop (length h) ?hp = CHR '':'' # show_nat n" by (simp add: hp)
    ultimately show ?thesis by (simp add: parseHost_def port_text unescape_plain [OF un])
  qed
qed

lemma Hostname_plain:
  assumes "plain_host h" and "gu_host u = join_host_port h (show_nat n)"
  shows "Hostname u = h"
proof -
  have h: "CHR ''['' \<notin> set h" using assms(1) by (auto simp: plain_host_def list_all_iff)
  obtain pre where pre: "gu_host u = pre @ CHR '':'' # show_nat n" "pre = (if CHR '':'' \<in> set h then CHR ''['' # h @ '']'' else h)"
    using assms(2) by (auto simp: join_host_port_def)
  have "last_index_of CHR '':'' (gu_host u) = Some (length pre)" unfolding pre(1) by (rule last_index_of_last) (simp add: port_text)
  then have "Hostname u = (if has_prefix pre ''['' \<and> has_suffix pre '']'' then butlast (tl pre) else pre)"
    by (simp add: Hostname_def Let_def pre(1) port_text)
  then show ?thesis using h by (cases h) (auto simp: pre(2) has_prefix_iff has_suffix_iff butlast_append)
qed

lemma get_scheme_plain:
  "list_all (\<lambda>c. (97 :: nat) \<le> of_char c \<and> of_char c \<le> (122 :: nat)) s \<Longrightarrow> pre @ s \<noteq> [] \<Longrightarrow> get_scheme pre (s @ CHR '':'' # r) = Inr (pre @ s, r)"
  by (induction s arbitrary: pre) (auto simp: alnum_def is_digit_def)

lemma to_lower_plain: "list_all (\<lambda>c. (97 :: nat) \<le> of_char c \<and> of_char c \<le> (122 :: nat)) s \<Longrightarrow> to_lower s = s"
  by (induction s) (auto simp: to_lower_def lower_char_def)

text \<open>
  The path that the server is asked for: a slash is put in front of one that has none.
\<close>

definition url_path :: "string \<Rightarrow> string" where
  "url_path path = (if path \<noteq> '''' \<and> hd path \<noteq> CHR ''/'' then CHR ''/'' # path else path)"

lemma path_part:
  obtains p where "url_String scheme host path = (if scheme \<noteq> '''' then scheme @ '':'' else '''') @ ''//'' @ escape EncodeHost host @ p"
    and "p = [] \<or> hd p = CHR ''/''" and "unescape EncodePath p = Inr (url_path path)"
    and "list_all (\<lambda>c. c = CHR ''%'' \<or> alnum c \<or> \<not> shouldEscape EncodePath c \<or> c = CHR ''*'') p"
proof -
  let ?e = "escaped_path path"
  let ?p = "(if ?e \<noteq> '''' \<and> hd ?e \<noteq> CHR ''/'' then ''/'' else '''') @ ?e"
  have hd: "hd (escape EncodePath path) = CHR ''/'' \<longleftrightarrow> hd path = CHR ''/''" if "path \<noteq> []"
    using that by (cases path) (auto simp: shouldEscape_def char_sets alnum_def)
  have e: "unescape EncodePath ?e = Inr path" by (simp add: escaped_path_def unescape_escape)
  have slash: "\<not> shouldEscape EncodePath CHR ''/''" by (simp add: shouldEscape_def char_sets)
  have ne: "?e = [] \<longleftrightarrow> path = []" by (cases path) (auto simp: escaped_path_def)
  have "unescape EncodePath ?p = Inr (url_path path)"
    using e ne hd by (auto simp: url_path_def escaped_path_def)
  moreover have "list_all (\<lambda>c. c = CHR ''%'' \<or> alnum c \<or> \<not> shouldEscape EncodePath c \<or> c = CHR ''*'') ?p"
    using escape_chars [of _ EncodePath path] slash by (auto simp: list_all_iff escaped_path_def)
  ultimately show thesis by (intro that [of ?p]) (auto simp: url_String_def Let_def)
qed

lemma cut_none: "c \<notin> set s \<Longrightarrow> cut c s = (s, '''')"
  by (simp add: cut_def index_of_None [THEN iffD2])

lemma parse_rest_plain:
  assumes h: "plain_host h" and p: "p = [] \<or> hd p = CHR ''/''" "unescape EncodePath p = Inr q" "CHR ''?'' \<notin> set p"
  shows "parse_rest scheme (''//'' @ join_host_port h (show_nat n) @ p) =
     Inr \<lparr>gu_scheme = scheme, gu_opaque = '''', gu_host = join_host_port h (show_nat n), gu_path = q\<rparr>"
proof -
  let ?hp = "join_host_port h (show_nat n)"
  note un = host_port_unescaped [OF h, of n]
  have no: "CHR ''?'' \<notin> set ?hp" "CHR ''/'' \<notin> set ?hp" "CHR ''@'' \<notin> set ?hp"
    using un escaped_facts by (auto simp: list_all_iff)
  have idx: "(case index_of CHR ''/'' (?hp @ p) of None \<Rightarrow> length (?hp @ p) | Some i \<Rightarrow> i) = length ?hp"
  proof (cases p)
    case Nil
    then show ?thesis using no(2) by (simp add: index_of_None [THEN iffD2])
  next
    case (Cons a p')
    with p(1) have "p = CHR ''/'' # p'" by simp
    then show ?thesis using index_of_first [OF no(2), of p'] by simp
  qed
  have "cut CHR ''?'' (''//'' @ ?hp @ p) = (''//'' @ ?hp @ p, '''')" using no(1) p(3) by (intro cut_none) simp
  moreover have "parseAuthority ?hp = Inr ?hp"
    using no(3) parseHost_plain [OF h] by (simp add: parseAuthority_def last_index_of_None [THEN iffD2])
  moreover have "?hp \<noteq> []" by (simp add: join_host_port_def)
  moreover from this no(2) have "\<not> has_prefix (''//'' @ ?hp @ p) ''///''" by (cases ?hp) (auto simp: has_prefix_iff)
  ultimately show ?thesis using p(2) idx by (simp add: parse_rest_def Let_def has_prefix_iff)
qed

text \<open>
  A URL with a plain scheme and host and any path is parsed to what it was made of, and its host name is
  the host without the brackets.
\<close>

lemma url_roundtrip:
  fixes path :: string and n :: nat
  assumes "plain_scheme scheme" and "plain_host h"
  defines "u \<equiv> \<lparr>gu_scheme = scheme, gu_opaque = '''', gu_host = join_host_port h (show_nat n), gu_path = url_path path\<rparr>"
  shows "url_Parse (url_String scheme (join_host_port h (show_nat n)) path) = Inr u" and "Hostname u = h"
proof -
  let ?hp = "join_host_port h (show_nat n)"
  note un = host_port_unescaped [OF assms(2), of n]
  have sch: "scheme \<noteq> []" "list_all (\<lambda>c. (97 :: nat) \<le> of_char c \<and> of_char c \<le> (122 :: nat)) scheme"
    using assms(1) by (simp_all add: plain_scheme_def)
  obtain p where s: "url_String scheme ?hp path = scheme @ CHR '':'' # ''//'' @ ?hp @ p"
    and p: "p = [] \<or> hd p = CHR ''/''" "unescape EncodePath p = Inr (url_path path)"
    and chars: "list_all (\<lambda>c. c = CHR ''%'' \<or> alnum c \<or> \<not> shouldEscape EncodePath c \<or> c = CHR ''*'') p"
    using path_part [of scheme ?hp path] sch(1) by (auto simp: escape_plain [OF un])
  let ?s = "scheme @ CHR '':'' # ''//'' @ ?hp @ p"
  have nop: "CHR ''#'' \<notin> set p" "CHR ''?'' \<notin> set p"
    using chars escaped_facts by (auto simp: list_all_iff)
  have "CHR ''#'' \<notin> set scheme" using sch(2) by (auto simp: list_all_iff)
  moreover have "CHR ''#'' \<notin> set ?hp" using un escaped_facts by (auto simp: list_all_iff)
  ultimately have "cut CHR ''#'' ?s = (?s, '''')" using nop by (intro cut_none) simp
  moreover have "\<not> list_ex (\<lambda>c. of_char c < (32 :: nat) \<or> of_char c = (127 :: nat)) ?s"
  proof -
    have "\<forall>c \<in> set scheme. \<not> of_char c < (32 :: nat) \<and> of_char c \<noteq> (127 :: nat)" using sch(2) by (auto simp: list_all_iff)
    moreover have "\<forall>c \<in> set ?hp. \<not> of_char c < (32 :: nat) \<and> of_char c \<noteq> (127 :: nat)" using un printable [of EncodeHost] unfolding list_all_iff by blast
    moreover have "\<forall>c \<in> set p. \<not> of_char c < (32 :: nat) \<and> of_char c \<noteq> (127 :: nat)"
      using chars printable [of EncodePath] by (fastforce simp: list_all_iff)
    ultimately show ?thesis by (auto simp: list_ex_iff)
  qed
  moreover have "?s \<noteq> ''*''" by (cases scheme) auto
  moreover have "get_scheme [] ?s = Inr (scheme, ''//'' @ ?hp @ p)" using get_scheme_plain [OF sch(2), of "[]"] sch(1) by simp
  moreover have "parse_rest (to_lower scheme) (''//'' @ ?hp @ p) = Inr u"
    using parse_rest_plain [OF assms(2) p(1,2) nop(2), of scheme n] to_lower_plain [OF sch(2)] by (simp add: u_def)
  ultimately show "url_Parse (url_String scheme ?hp path) = Inr u" by (simp add: url_Parse_def s)
  show "Hostname u = h" by (rule Hostname_plain [OF assms(2)]) (simp add: u_def)
qed

end
