(* ===== verification/TunnelDial.thy ===== *)
theory TunnelDial
  imports Url Protocol Types
begin

section \<open>Dialling the server of a goremote or worker profile\<close>

text \<open>
  \<open>goremote/dialer.go\<close>, \<open>worker/dialer.go\<close> and the code that calls them, \<open>createTunnel\<close> and \<open>CheckHealth\<close> of \<open>worker/strategy.go\<close> and the
  connecting part of \<open>GetConnection\<close> in \<open>goremote/agent.go\<close>. Connections have the type \<open>'c\<close> and certificates the type \<open>'x\<close>. Parameters:
  \<open>gorilla\<close> is \<open>Dialer.Dial\<close> of gorilla websocket, which gets everything the program sets on the dialer and
  passes to it; \<open>netDial\<close> is \<open>net.Dialer.DialContext\<close> with the ten seconds of both dialers; \<open>verify\<close> is \<open>x509.Certificate.Verify\<close> on a
  certificate, the name to check and the intermediate certificates; the last four arguments of \<open>NewCipherWithAlgo\<close> are
  those of \<open>Protocol\<close>. The WebSocket adapter around the connection is in \<open>WebSocket\<close>.
\<close>

subsection \<open>The dialers\<close>

record 'x tls_client =
  tc_server_name :: string
  tc_verify :: "string \<Rightarrow> 'x list \<Rightarrow> goerr option"

record ('c, 'x) ws_dialer =
  wd_url :: string
  wd_header :: "string list gomap"
  wd_timeout :: int
  wd_net_dial :: "string \<Rightarrow> string \<Rightarrow> 'c res"
  wd_tls :: "'x tls_client option"

text \<open>The closure that both dialers set as \<open>VerifyConnection\<close>, for the server name and the certificates of the peer.\<close>

definition VerifyConnection :: "('x \<Rightarrow> string \<Rightarrow> 'x list \<Rightarrow> goerr option) \<Rightarrow> string \<Rightarrow> 'x list \<Rightarrow> goerr option" where
  "VerifyConnection verify serverName certs =
     (case certs of [] \<Rightarrow> Some (Panic ''slice bounds out of range [1:0]'') | leaf # intermediates \<Rightarrow> verify leaf serverName intermediates)"

definition tunnel_tls :: "('x \<Rightarrow> string \<Rightarrow> 'x list \<Rightarrow> goerr option) \<Rightarrow> go_url \<Rightarrow> 'x tls_client option" where
  "tunnel_tls verify u =
     (if gu_scheme u = ''wss'' then Some \<lparr>tc_server_name = Hostname u, tc_verify = VerifyConnection verify\<rparr> else None)"

definition tunnel_header :: "string \<Rightarrow> go_url \<Rightarrow> string list gomap" where
  "tunnel_header userAgent u = gm_put ''User-Agent'' [userAgent] (gm_put ''Host'' [Hostname u] [])"

definition goremote_agent :: string where
  "goremote_agent = ''LiuProxy-Client/2.0 (GoRemote)''"

definition goremote_Dial ::
  "(('c, 'x) ws_dialer \<Rightarrow> 'c res) \<Rightarrow> (string \<Rightarrow> string \<Rightarrow> 'c res) \<Rightarrow> ('x \<Rightarrow> string \<Rightarrow> 'x list \<Rightarrow> goerr option) \<Rightarrow> string \<Rightarrow> 'c res" where
  "goremote_Dial gorilla netDial verify urlStr =
     (case url_Parse urlStr of
        Inl e \<Rightarrow> Inl (Wrap ''goremote dial: invalid URL'' e)
      | Inr parsedURL \<Rightarrow>
          gorilla \<lparr>wd_url = urlStr, wd_header = tunnel_header goremote_agent parsedURL, wd_timeout = 15000000000,
                   wd_net_dial = (\<lambda>network addr. netDial network addr), wd_tls = tunnel_tls verify parsedURL\<rparr>)"

definition worker_agent :: string where
  "worker_agent = ''Mozilla/5.0 (Windows NT 10.0; Win64; x64) AppleWebKit/537.36 (KHTML, like Gecko) Chrome/107.0.0.0 Safari/537.36''"

definition edge_NetDial :: "(string \<Rightarrow> string \<Rightarrow> 'c res) \<Rightarrow> string \<Rightarrow> string \<Rightarrow> string \<Rightarrow> 'c res" where
  "edge_NetDial netDial edgeIP network addr =
     netDial network
       (if edgeIP \<noteq> '''' then join_host_port edgeIP (case split_host_port addr of Inl err \<Rightarrow> ''443'' | Inr (_, port) \<Rightarrow> port) else addr)"

definition worker_Dial ::
  "(('c, 'x) ws_dialer \<Rightarrow> 'c res) \<Rightarrow> (string \<Rightarrow> string \<Rightarrow> 'c res) \<Rightarrow> ('x \<Rightarrow> string \<Rightarrow> 'x list \<Rightarrow> goerr option) \<Rightarrow> string \<Rightarrow> string \<Rightarrow> 'c res" where
  "worker_Dial gorilla netDial verify urlStr edgeIP =
     (case url_Parse urlStr of
        Inl e \<Rightarrow> Inl (Wrap ''worker dial: invalid URL'' e)
      | Inr parsedURL \<Rightarrow>
          gorilla \<lparr>wd_url = urlStr, wd_header = tunnel_header worker_agent parsedURL, wd_timeout = 15000000000,
                   wd_net_dial = edge_NetDial netDial edgeIP, wd_tls = tunnel_tls verify parsedURL\<rparr>)"

subsection \<open>The callers\<close>

text \<open>The URL that both strategies make of a profile.\<close>

definition tunnel_url :: "server_profile \<Rightarrow> string" where
  "tunnel_url p = url_String (pf_scheme p) (join_host_port (pf_address p) (itoa (pf_port p))) (pf_path p)"

text \<open>\<open>Dial\<close> and then the cipher; the second component has the connections that were closed.\<close>

definition with_cipher :: "'c res \<Rightarrow> aead res \<Rightarrow> ('c \<times> aead) res \<times> 'c list" where
  "with_cipher dialled cipher =
     (case dialled of
        Inl e \<Rightarrow> (Inl e, [])
      | Inr conn \<Rightarrow> (case cipher of Inl e \<Rightarrow> (Inl e, [conn]) | Inr c \<Rightarrow> (Inr (conn, c), [])))"

definition createTunnel ::
  "(('c, 'x) ws_dialer \<Rightarrow> 'c res) \<Rightarrow> (string \<Rightarrow> string \<Rightarrow> 'c res) \<Rightarrow> ('x \<Rightarrow> string \<Rightarrow> 'x list \<Rightarrow> goerr option)
   \<Rightarrow> (algorithm \<Rightarrow> aead res) \<Rightarrow> server_profile \<Rightarrow> ('c \<times> aead) res \<times> 'c list" where
  "createTunnel gorilla netDial verify newCipher p =
     with_cipher (worker_Dial gorilla netDial verify (tunnel_url p) (pf_edge_ip p)) (newCipher AES_256_GCM)"

definition worker_CheckHealth ::
  "(('c, 'x) ws_dialer \<Rightarrow> 'c res) \<Rightarrow> (string \<Rightarrow> string \<Rightarrow> 'c res) \<Rightarrow> ('x \<Rightarrow> string \<Rightarrow> 'x list \<Rightarrow> goerr option)
   \<Rightarrow> (algorithm \<Rightarrow> aead res) \<Rightarrow> server_profile \<Rightarrow> goerr option \<times> 'c list" where
  "worker_CheckHealth gorilla netDial verify newCipher p =
     (case createTunnel gorilla netDial verify newCipher p of
        (Inl e, closed) \<Rightarrow> (Some e, closed)
      | (Inr (conn, _), closed) \<Rightarrow> (None, conn # closed))"

definition agent_connect ::
  "(('c, 'x) ws_dialer \<Rightarrow> 'c res) \<Rightarrow> (string \<Rightarrow> string \<Rightarrow> 'c res) \<Rightarrow> ('x \<Rightarrow> string \<Rightarrow> 'x list \<Rightarrow> goerr option)
   \<Rightarrow> (algorithm \<Rightarrow> aead res) \<Rightarrow> server_profile \<Rightarrow> ('c \<times> aead \<times> string) res \<times> 'c list" where
  "agent_connect gorilla netDial verify newCipher p =
     (case with_cipher (goremote_Dial gorilla netDial verify (tunnel_url p)) (newCipher CHACHA20_POLY1305) of
        (Inl e, closed) \<Rightarrow> (Inl e, closed)
      | (Inr (conn, c), closed) \<Rightarrow> (Inr (conn, c, pf_type p), closed))"

subsection \<open>Where a profile leads\<close>

text \<open>
  What gorilla websocket documents of \<open>Dialer.Dial\<close>, for a URL whose host has a port: the connection is opened by \<open>NetDialContext\<close> for that
  host and port, and on it follow the handshakes, TLS with the given configuration for \<open>wss\<close> and the request
  with the given header. Those are \<open>handshake\<close>.
\<close>

definition gorilla_ok ::
  "('c \<Rightarrow> go_url \<Rightarrow> string list gomap \<Rightarrow> 'x tls_client option \<Rightarrow> 'c res) \<Rightarrow> (('c, 'x) ws_dialer \<Rightarrow> 'c res) \<Rightarrow> bool" where
  "gorilla_ok handshake gorilla \<longleftrightarrow>
     (\<forall>d u h p. url_Parse (wd_url d) = Inr u \<and> gu_scheme u \<in> {''ws'', ''wss''} \<and> split_host_port (gu_host u) = Inr (h, p) \<longrightarrow>
        gorilla d = and_then (wd_net_dial d ''tcp'' (gu_host u))
          (\<lambda>c. handshake c u (wd_header d) (if gu_scheme u = ''wss'' then wd_tls d else None)))"

text \<open>The URL of a profile, and the connection that the two strategies ask for.\<close>

definition profile_url :: "server_profile \<Rightarrow> go_url" where
  "profile_url p = \<lparr>gu_scheme = pf_scheme p, gu_opaque = '''', gu_host = join_host_port (pf_address p) (itoa (pf_port p)), gu_path = url_path (pf_path p)\<rparr>"

definition server_connection ::
  "(string \<Rightarrow> string \<Rightarrow> 'c res) \<Rightarrow> ('c \<Rightarrow> go_url \<Rightarrow> string list gomap \<Rightarrow> 'x tls_client option \<Rightarrow> 'c res)
   \<Rightarrow> ('x \<Rightarrow> string \<Rightarrow> 'x list \<Rightarrow> goerr option) \<Rightarrow> string \<Rightarrow> string \<Rightarrow> server_profile \<Rightarrow> 'c res" where
  "server_connection netDial handshake verify host userAgent p =
     and_then (netDial ''tcp'' (join_host_port host (itoa (pf_port p)))) (\<lambda>c.
       handshake c (profile_url p) [(''Host'', [pf_address p]), (''User-Agent'', [userAgent])]
         (if pf_scheme p = ''wss'' then Some \<lparr>tc_server_name = pf_address p, tc_verify = VerifyConnection verify\<rparr> else None))"

definition dialable :: "server_profile \<Rightarrow> bool" where
  "dialable p \<longleftrightarrow> pf_scheme p \<in> {''ws'', ''wss''} \<and> plain_host (pf_address p) \<and> 0 \<le> pf_port p"

lemma profile_url_parses:
  assumes "dialable p"
  shows "url_Parse (tunnel_url p) = Inr (profile_url p)" and "Hostname (profile_url p) = pf_address p"
    and "split_host_port (gu_host (profile_url p)) = Inr (pf_address p, itoa (pf_port p))"
proof -
  have "0 \<le> pf_port p" using assms by (simp add: dialable_def)
  then obtain n where n: "pf_port p = int n" by (rule nonneg_int_cases)
  have s: "plain_scheme (pf_scheme p)" and h: "plain_host (pf_address p)" using assms by (auto simp: dialable_def plain_scheme_def)
  have "host_ok (pf_address p)" using h by (auto simp: plain_host_def host_ok_def list_all_iff)
  then show "split_host_port (gu_host (profile_url p)) = Inr (pf_address p, itoa (pf_port p))"
    by (simp add: profile_url_def n split_join_itoa) (simp add: itoa_nat)
  from url_roundtrip [OF s h, of n "pf_path p"]
  show "url_Parse (tunnel_url p) = Inr (profile_url p)" "Hostname (profile_url p) = pf_address p"
    by (simp_all add: tunnel_url_def profile_url_def n itoa_nat)
qed

lemma tunnel_requests:
  assumes "dialable p"
  shows "tunnel_header ua (profile_url p) = [(''Host'', [pf_address p]), (''User-Agent'', [ua])]"
    and "tunnel_tls verify (profile_url p) =
      (if pf_scheme p = ''wss'' then Some \<lparr>tc_server_name = pf_address p, tc_verify = VerifyConnection verify\<rparr> else None)"
  using profile_url_parses(2) [OF assms] by (simp_all add: tunnel_header_def tunnel_tls_def) (simp add: profile_url_def)

lemma dials_server:
  assumes "gorilla_ok handshake gorilla" and "dialable p"
  shows "worker_Dial gorilla netDial verify (tunnel_url p) (pf_edge_ip p)
      = server_connection netDial handshake verify (if pf_edge_ip p = '''' then pf_address p else pf_edge_ip p) worker_agent p"
    and "goremote_Dial gorilla netDial verify (tunnel_url p) = server_connection netDial handshake verify (pf_address p) goremote_agent p"
proof -
  note parses = profile_url_parses [OF assms(2)] and req = tunnel_requests [OF assms(2)]
  have sch: "gu_scheme (profile_url p) = pf_scheme p" by (simp add: profile_url_def)
  have g: "gorilla d = and_then (wd_net_dial d ''tcp'' (gu_host (profile_url p)))
      (\<lambda>c. handshake c (profile_url p) (wd_header d) (if pf_scheme p = ''wss'' then wd_tls d else None))" if "wd_url d = tunnel_url p" for d
    using assms(1) [unfolded gorilla_ok_def, rule_format, of d "profile_url p" "pf_address p" "itoa (pf_port p)"] that parses sch assms(2)
    by (simp add: dialable_def)
  have edge: "edge_NetDial netDial (pf_edge_ip p) ''tcp'' (gu_host (profile_url p))
      = netDial ''tcp'' (join_host_port (if pf_edge_ip p = '''' then pf_address p else pf_edge_ip p) (itoa (pf_port p)))"
    using parses(3) by (simp add: edge_NetDial_def) (simp add: profile_url_def)
  show "worker_Dial gorilla netDial verify (tunnel_url p) (pf_edge_ip p)
      = server_connection netDial handshake verify (if pf_edge_ip p = '''' then pf_address p else pf_edge_ip p) worker_agent p"
    by (simp add: worker_Dial_def parses g edge server_connection_def req)
  show "goremote_Dial gorilla netDial verify (tunnel_url p) = server_connection netDial handshake verify (pf_address p) goremote_agent p"
    by (simp add: goremote_Dial_def parses g server_connection_def req) (simp add: profile_url_def)
qed


definition demo_gorilla :: "('c \<Rightarrow> go_url \<Rightarrow> string list gomap \<Rightarrow> 'x tls_client option \<Rightarrow> 'c res) \<Rightarrow> ('c, 'x) ws_dialer \<Rightarrow> 'c res" where
  "demo_gorilla handshake d =
     and_then (url_Parse (wd_url d)) (\<lambda>u. and_then (wd_net_dial d ''tcp'' (gu_host u))
       (\<lambda>c. handshake c u (wd_header d) (if gu_scheme u = ''wss'' then wd_tls d else None)))"

definition demo_handshake :: "string \<Rightarrow> go_url \<Rightarrow> string list gomap \<Rightarrow> nat tls_client option \<Rightarrow> string res" where
  "demo_handshake c u h t = Inr (c @ '' '' @ gu_path u @ (case t of None \<Rightarrow> '''' | Some k \<Rightarrow> '' '' @ tc_server_name k))"

definition demo_worker_profile :: server_profile where
  "demo_worker_profile = \<lparr>pf_id = ''w'', pf_remarks = '''', pf_type = ''worker'', pf_active = True, pf_local_port = 0, pf_address = ''a.example'', pf_port = 81,
     pf_network = '''', pf_scheme = ''wss'', pf_path = ''t?ed=1'', pf_host = '''', pf_grpc_service = '''', pf_grpc_mode = '''', pf_grpc_authority = '''',
     pf_edge_ip = ''1::7'', pf_uuid = '''', pf_flow = '''', pf_security = '''', pf_sni = '''', pf_fingerprint = '''', pf_public_key = '''', pf_short_id = ''''\<rparr>"


end
