(* ===== verification/Session.thy ===== *)
theory Session
  imports GoRemote
begin

section \<open>The relay of a goremote session (goremote/session.go, goremote/strategy.go)\<close>

text \<open>
  The last part of \<open>Session.Start\<close>: two goroutines copy between the client and the stream of the session with \<open>io.Copy\<close>, whose
  buffer has 32768 bytes. \<open>chunks\<close> are the reads of the client connection up to its end; \<open>out n\<close> has the outcomes of dialling and of writing for
  the n-th packet, \<open>wr n\<close> the outcome of the n-th write to the client.
\<close>

definition copy_size :: nat where
  "copy_size = 32768"

fun copy_up :: "(nat \<Rightarrow> goerr option \<times> goerr option) \<Rightarrow> nat \<Rightarrow> 16 word \<Rightarrow> bytes list \<Rightarrow> agent \<Rightarrow> goerr option \<times> agent" where
  "copy_up out n i [] a = (None, a)"
| "copy_up out n i (b # bs) a =
     (case stream_Write (fst (out n)) (snd (out n)) i b a of
        (Inl e, a') \<Rightarrow> (Some e, a')
      | (Inr _, a') \<Rightarrow> copy_up out (Suc n) i bs a')"

text \<open>The first component is whether the goroutine has ended; otherwise it waits for data.\<close>

function copy_down :: "(nat \<Rightarrow> goerr option) \<Rightarrow> nat \<Rightarrow> tstream \<Rightarrow> bytes \<Rightarrow> bool \<times> bytes \<times> tstream" where
  "copy_down wr n s client =
     (case stream_Read copy_size s of
        None \<Rightarrow> (False, client, s)
      | Some (Inl e, s') \<Rightarrow> (True, client, s')
      | Some (Inr data, s') \<Rightarrow>
          if data = [] then copy_down wr n s' client
          else (case wr n of
                  Some e \<Rightarrow> (True, client, s')
                | None \<Rightarrow> copy_down wr (Suc n) s' (client @ data)))"
  by pat_completeness auto
termination
  by (relation "measure (\<lambda>(wr, n, s, client). length (ts_chan s))") (auto simp: stream_Read_def split: list.splits if_splits)

declare copy_down.simps [simp del]

text \<open>\<open>strategy.go\<close>: the methods that hand on to the agent.\<close>

definition goremote_CheckHealth :: "goerr option \<Rightarrow> agent \<Rightarrow> goerr option \<times> agent" where
  "goremote_CheckHealth dial a = (case GetConnection dial a of (Inl e, a') \<Rightarrow> (Some e, a') | (Inr _, a') \<Rightarrow> (None, a'))"

definition goremote_UpdateServer :: "server_profile \<Rightarrow> agent option \<Rightarrow> goerr option \<times> agent option" where
  "goremote_UpdateServer profile ao =
     (case ao of
        None \<Rightarrow> (Some (Msg ''agent not initialized in GoRemoteStrategy''), None)
      | Some a \<Rightarrow> (None, Some (agent_UpdateServerProfile profile a)))"

subsection \<open>Both directions\<close>

lemma copy_down_drains:
  "copy_down (\<lambda>_. None) n s client = (ts_closed s, client @ concat (map (take copy_size) (ts_chan s)), s\<lparr>ts_chan := []\<rparr>)"
proof (induction "ts_chan s" arbitrary: n s client)
  case Nil
  then show ?case by (subst copy_down.simps) (cases s; simp add: stream_Read_def)
next
  case (Cons d ds)
  have "stream_Read copy_size s = Some (Inr (take copy_size d), s\<lparr>ts_chan := ds\<rparr>)" using Cons(2) [symmetric] by (simp add: stream_Read_def)
  then show ?case
    using Cons(1) [of "s\<lparr>ts_chan := ds\<rparr>"] Cons(2) [symmetric] by (subst copy_down.simps) (auto simp: copy_size_def)
qed

abbreviation stream_data :: "16 word \<Rightarrow> bytes \<Rightarrow> packet" where
  "stream_data i b \<equiv> \<lparr>pk_stream = i, pk_flag = FlagTCPData, pk_payload = b\<rparr>"

lemma copy_up_sends:
  assumes "ag_tunnel a = Some t"
  shows "copy_up (\<lambda>_. (None, None)) n i chunks a = (None, a\<lparr>ag_sent := ag_sent a @ map (\<lambda>b. (t, stream_data i b)) chunks\<rparr>)"
  using assms
proof (induction chunks arbitrary: n a)
  case (Cons b chunks)
  have "stream_Write None None i b a = (Inr (length b), a\<lparr>ag_sent := ag_sent a @ [(t, stream_data i b)]\<rparr>)"
    using Cons.prems by (simp add: stream_Write_def agent_WritePacket_def GetConnection_def)
  then show ?case using Cons.IH [of "a\<lparr>ag_sent := ag_sent a @ [(t, stream_data i b)]\<rparr>"] Cons.prems by simp
qed simp

lemma RemoveStreamPipe_pipe: "map_of (ag_pipes (RemoveStreamPipe j a)) i = (if i = j then None else map_of (ag_pipes a) i)"
  by (auto simp: RemoveStreamPipe_def stream_Close_def AList.delete_conv' split: option.splits)

lemma RemoveSession_pipes:
  assumes "agent_inv a" and "map_of (ag_pipes a) j = None"
  shows "ag_pipes (RemoveSession dial wr j a) = ag_pipes a" and "ag_streams (RemoveSession dial wr j a) = ag_streams a"
proof -
  have id: "se_id (ag_sessions a ! h) = j" if "map_of (ag_filed a) j = Some h" for h
    using assms(1) that by (auto simp: agent_inv_def filed_inv_def dest!: map_of_SomeD)
  then show "ag_pipes (RemoveSession dial wr j a) = ag_pipes a" "ag_streams (RemoveSession dial wr j a) = ag_streams a"
    using assms(2) by (auto simp: RemoveSession_def session_Close_def RemoveStreamPipe_def Let_def split: option.splits)
qed

lemma packet_keeps_pipe:
  assumes "agent_inv a" and "\<not> (pk_flag p = FlagControlCloseStream \<and> pk_stream p = i)"
  shows "map_of (ag_pipes (fst (handle_packet resolve dial wr p (a, u)))) i = map_of (ag_pipes a) i"
proof -
  have "map_of (ag_pipes (RemoveSession dial wr j (RemoveStreamPipe j a))) i = map_of (ag_pipes a) i" if "j \<noteq> i" for j
    using that RemoveSession_pipes(1) [OF RemoveStreamPipe_inv [OF assms(1)], of j] by (simp add: RemoveStreamPipe_pipe)
  then show ?thesis using assms(2)
    by (auto simp: handle_packet_def Let_def SignalConnectionSuccess_def PushDownstreamData_def split: option.splits)
qed

lemma packets_keep_pipe:
  "agent_inv a \<Longrightarrow> \<forall>p \<in> set ps. \<not> (pk_flag p = FlagControlCloseStream \<and> pk_stream p = i) \<Longrightarrow>
   map_of (ag_pipes (fst (fold (handle_packet resolve dial wr) ps (a, u)))) i = map_of (ag_pipes a) i
   \<and> agent_inv (fst (fold (handle_packet resolve dial wr) ps (a, u)))"
proof (induction ps arbitrary: a u)
  case (Cons p ps)
  obtain a1 u1 where h: "handle_packet resolve dial wr p (a, u) = (a1, u1)" by fastforce
  have "agent_inv a1" using handle_packet_inv [of "(a, u)" resolve dial wr p] Cons.prems(1) h by simp
  moreover have "map_of (ag_pipes a1) i = map_of (ag_pipes a) i"
    using packet_keeps_pipe [OF Cons.prems(1), of p i resolve dial wr u] Cons.prems(2) h by simp
  ultimately show ?case using Cons.IH [of a1 u1] Cons.prems(2) h by simp
qed simp

lemma close_packet_stream:
  fixes resolve :: "string \<Rightarrow> bool" and dial wr :: "goerr option" and u :: "udp_session option"
  assumes "agent_inv a" and "map_of (ag_pipes a) i = Some h" and "pk_flag p = FlagControlCloseStream" and "pk_stream p = i"
  defines "a' \<equiv> fst (handle_packet resolve dial wr p (a, u))"
  shows "ag_streams a' ! h = (ag_streams a ! h)\<lparr>ts_closed := True\<rparr>" and "map_of (ag_pipes a') i = None"
proof -
  have a': "a' = RemoveSession dial wr i (RemoveStreamPipe i a)"
    using assms(3,4) by (simp add: a'_def handle_packet_def flag_defs)
  have none: "map_of (ag_pipes (RemoveStreamPipe i a)) i = None" by (simp add: RemoveStreamPipe_pipe)
  have "h < length (ag_streams a)" using pipes_lookup(1) [OF agent_invD(2) [OF assms(1)] assms(2)] .
  then show "ag_streams a' ! h = (ag_streams a ! h)\<lparr>ts_closed := True\<rparr>"
    using RemoveSession_pipes(2) [OF RemoveStreamPipe_inv [OF assms(1)] none] assms(2) by (simp add: a' RemoveStreamPipe_def stream_Close_def)
  show "map_of (ag_pipes a') i = None"
    using RemoveSession_pipes(1) [OF RemoveStreamPipe_inv [OF assms(1)] none] none by (simp add: a')
qed


definition demo_closing :: packet where
  "demo_closing = \<lparr>pk_stream = 1, pk_flag = 5, pk_payload = []\<rparr>"


end
