(* ===== verification/Mobile.thy ===== *)
theory Mobile
  imports AppServer Listener
begin

section \<open>The mobile interface (mobile/api.go)\<close>

text \<open>
  The library for mobile applications runs at most one strategy, held in a global variable under a mutex. The strategies that were ever created
  are in the list \<open>mo_strategies\<close>, each with the state of its listener (\<open>Listener\<close>), and the variable is an index. A call gets
  what it meets as a \<open>mobile_env\<close>: the decoding of the JSON text, the outcomes of the constructors (\<open>ev_new\<close> of \<open>AppServer\<close>), of
  \<open>net.Listen\<close> and of the pre-connection that only goremote makes, and the address that the listener gets.
\<close>

record strategy =
  sg_kind :: "strategy_kind option"
  sg_profile :: server_profile
  sg_lsn :: lsn
  sg_info :: "listener_info option"

record mobile =
  mo_active :: "nat option"
  mo_strategies :: "strategy list"

record mobile_env =
  mv_unmarshal :: "string \<Rightarrow> server_profile res"
  mv_logger :: "goerr option"
  mv_env :: env
  mv_listen :: "goerr option"
  mv_dial :: "goerr option"
  mv_addr :: listener_info

definition new_mobile :: mobile where
  "new_mobile = \<lparr>mo_active = None, mo_strategies = []\<rparr>"

text \<open>\<open>Initialize\<close> and \<open>GetListenerInfo\<close> of the three strategies: all know the address as soon as they listen.\<close>

definition strategy_Initialize :: "mobile_env \<Rightarrow> strategy \<Rightarrow> unit res \<times> strategy" where
  "strategy_Initialize e g =
     (case sg_kind g of
        None \<Rightarrow> (Inl (Panic ''nil strategy''), g)
      | Some k \<Rightarrow>
          (case (case k of
                   VlessKind \<Rightarrow> vless_Initialize (mv_listen e) (sg_profile g) (sg_lsn g)
                 | WorkerKind \<Rightarrow> worker_Initialize (mv_listen e) (sg_profile g) (sg_lsn g)
                 | GoRemoteKind \<Rightarrow> goremote_Start (mv_dial e) (mv_listen e) (sg_profile g) (sg_lsn g)) of
             (r, l) \<Rightarrow> (r, g\<lparr>sg_lsn := l, sg_info := (if ls_listening l then Some (mv_addr e) else None)\<rparr>)))"

definition strategy_CloseTunnel :: "strategy \<Rightarrow> strategy" where
  "strategy_CloseTunnel g = g\<lparr>sg_lsn := close_conns (close_listener (sg_lsn g))\<rparr>"

definition StartVPN :: "mobile_env \<Rightarrow> string \<Rightarrow> mobile \<Rightarrow> int res \<times> mobile" where
  "StartVPN e profileJSON m =
     (if mo_active m \<noteq> None then (Inl (Msg ''service is already running''), m)
      else
        (case mv_unmarshal e profileJSON of
           Inl err \<Rightarrow> (Inl (Wrap ''failed to parse profile JSON'' err), m)
         | Inr p0 \<Rightarrow>
             (let profile = p0\<lparr>pf_active := True, pf_local_port := 0\<rparr> in
              case mv_logger e of
                Some err \<Rightarrow> (Inl (Wrap ''failed to initialize logger'' err), m)
              | None \<Rightarrow>
                  (case NewStrategy (mv_env e) [profile] of
                     Inl err \<Rightarrow> (Inl (Wrap ''failed to create strategy'' err), m)
                   | Inr kind \<Rightarrow>
                       (case strategy_Initialize e \<lparr>sg_kind = kind, sg_profile = profile, sg_lsn = new_lsn, sg_info = None\<rparr> of
                          (Inl err, g) \<Rightarrow> (Inl (Wrap ''failed to initialize strategy'' err), m\<lparr>mo_strategies := mo_strategies m @ [g]\<rparr>)
                        | (Inr _, g) \<Rightarrow>
                            (case sg_info g of
                               None \<Rightarrow>
                                 (Inl (Msg ''strategy failed to start listener or return a valid port''),
                                  m\<lparr>mo_strategies := mo_strategies m @ [strategy_CloseTunnel g]\<rparr>)
                             | Some li \<Rightarrow>
                                 if li_port li = 0 then
                                   (Inl (Msg ''strategy failed to start listener or return a valid port''),
                                    m\<lparr>mo_strategies := mo_strategies m @ [strategy_CloseTunnel g]\<rparr>)
                                 else
                                   (Inr (li_port li), m\<lparr>mo_active := Some (length (mo_strategies m)), mo_strategies := mo_strategies m @ [g]\<rparr>)))))))"

definition StopVPN :: "mobile \<Rightarrow> mobile" where
  "StopVPN m =
     (case mo_active m of
        None \<Rightarrow> m
      | Some i \<Rightarrow> m\<lparr>mo_active := None, mo_strategies := (mo_strategies m)[i := strategy_CloseTunnel (mo_strategies m ! i)]\<rparr>)"

text \<open>The application calls in any order; \<open>ok\<close> restricts what the calls meet.\<close>

inductive mobile_reach :: "(mobile_env \<Rightarrow> bool) \<Rightarrow> mobile \<Rightarrow> bool" for ok where
  Init: "mobile_reach ok new_mobile"
| Start: "mobile_reach ok m \<Longrightarrow> ok e \<Longrightarrow> mobile_reach ok (snd (StartVPN e json m))"
| Stop: "mobile_reach ok m \<Longrightarrow> mobile_reach ok (StopVPN m)"

subsection \<open>One strategy at a time\<close>

definition one_listener :: "mobile \<Rightarrow> bool" where
  "one_listener m \<longleftrightarrow>
     (\<forall>i < length (mo_strategies m). ls_listening (sg_lsn (mo_strategies m ! i)) \<longleftrightarrow> mo_active m = Some i)
   \<and> (\<forall>i. mo_active m = Some i \<longrightarrow> i < length (mo_strategies m))"

lemma Initialize_listening:
  assumes "strategy_Initialize e \<lparr>sg_kind = kind, sg_profile = p, sg_lsn = new_lsn, sg_info = None\<rparr> = (r, g)"
  shows "r = Inr u \<Longrightarrow> ls_listening (sg_lsn g) \<and> sg_info g = Some (mv_addr e)"
    and "mv_dial e = None \<Longrightarrow> r = Inl err \<Longrightarrow> \<not> ls_listening (sg_lsn g)"
  using assms
  by (auto simp: strategy_Initialize_def vless_Initialize_def worker_Initialize_def goremote_Start_def new_lsn_def
      split: option.splits strategy_kind.splits)

lemma closed [simp]: "\<not> ls_listening (sg_lsn (strategy_CloseTunnel g))"
  by (simp add: strategy_CloseTunnel_def close_conns_def close_listener_def)

lemma one_listener_append:
  assumes "one_listener m" and "mo_active m = None"
  shows "\<not> ls_listening (sg_lsn g) \<Longrightarrow> one_listener (m\<lparr>mo_strategies := mo_strategies m @ [g]\<rparr>)"
    and "ls_listening (sg_lsn g) \<Longrightarrow> one_listener (m\<lparr>mo_active := Some (length (mo_strategies m)), mo_strategies := mo_strategies m @ [g]\<rparr>)"
  using assms by (auto simp: one_listener_def nth_append less_Suc_eq)

lemma StartVPN_one:
  assumes "one_listener m" and "mv_dial e = None"
  shows "one_listener (snd (StartVPN e json m))"
proof (cases "mo_active m")
  case None
  note app = one_listener_append [OF assms(1) None]
  show ?thesis
    using assms(1) None app Initialize_listening(2) [OF _ assms(2)] Initialize_listening(1)
    by (auto simp: StartVPN_def Let_def split: sum.splits option.splits prod.splits)
qed (use assms(1) in \<open>simp add: StartVPN_def\<close>)

lemma StopVPN_one:
  assumes "one_listener m"
  shows "one_listener (StopVPN m)"
  using assms by (auto simp: StopVPN_def one_listener_def nth_list_update split: option.splits)

lemma mobile_reach_one: "mobile_reach (\<lambda>e. mv_dial e = None) m \<Longrightarrow> one_listener m"
proof (induction rule: mobile_reach.induct)
  case Init
  show ?case by (simp add: one_listener_def new_mobile_def)
qed (simp_all add: StartVPN_one StopVPN_one)

lemma StartVPN_result:
  assumes "StartVPN e json m = (Inr port, m')"
  shows "mo_active m = None \<and> mo_active m' = Some (length (mo_strategies m))
    \<and> (\<exists>li. sg_info (mo_strategies m' ! length (mo_strategies m)) = Some li \<and> li_port li = port) \<and> port \<noteq> 0"
  using assms by (auto simp: StartVPN_def Let_def split: if_splits sum.splits option.splits prod.splits)

text \<open>
  C18. The mobile interface runs one strategy at a time: after any sequence of StartVPN and StopVPN calls, provided that goremote servers could be
  reached, the strategy that listens is exactly the active one, so that there is never a second one; after StopVPN none listens; and a call
  of StartVPN that returns a port found no active strategy and has made one active that listens there.
\<close>

theorem mobile_one_strategy:
  assumes "mobile_reach (\<lambda>e. mv_dial e = None) m"
  shows "(\<forall>i < length (mo_strategies m). ls_listening (sg_lsn (mo_strategies m ! i)) \<longleftrightarrow> mo_active m = Some i)
       \<and> (\<forall>i < length (mo_strategies (StopVPN m)). \<not> ls_listening (sg_lsn (mo_strategies (StopVPN m) ! i)))
       \<and> (\<forall>e json port m'. mv_dial e = None \<longrightarrow> StartVPN e json m = (Inr port, m') \<longrightarrow>
            mo_active m = None \<and> (\<exists>i li. mo_active m' = Some i \<and> ls_listening (sg_lsn (mo_strategies m' ! i))
              \<and> sg_info (mo_strategies m' ! i) = Some li \<and> li_port li = port \<and> port \<noteq> 0))"
proof (intro conjI allI impI)
  have one: "one_listener m" by (rule mobile_reach_one [OF assms])
  show "ls_listening (sg_lsn (mo_strategies m ! i)) \<longleftrightarrow> mo_active m = Some i" if "i < length (mo_strategies m)" for i
    using one that by (simp add: one_listener_def)
  show "\<not> ls_listening (sg_lsn (mo_strategies (StopVPN m) ! i))" if "i < length (mo_strategies (StopVPN m))" for i
    using StopVPN_one [OF one] that by (auto simp: one_listener_def StopVPN_def split: option.splits)
  fix e json port m'
  assume e: "mv_dial e = None" and st: "StartVPN e json m = (Inr port, m')"
  note res = StartVPN_result [OF st]
  then show "mo_active m = None" by simp
  have "one_listener m'" using StartVPN_one [OF one e, of json] st by simp
  with res show "\<exists>i li. mo_active m' = Some i \<and> ls_listening (sg_lsn (mo_strategies m' ! i))
      \<and> sg_info (mo_strategies m' ! i) = Some li \<and> li_port li = port \<and> port \<noteq> 0"
    by (auto simp: one_listener_def)
qed

definition demo_mobile_env :: "goerr option \<Rightarrow> mobile_env" where
  "demo_mobile_env dial =
     \<lparr>mv_unmarshal = (\<lambda>_. Inr \<lparr>pf_id = '''', pf_remarks = '''', pf_type = ''remote'', pf_active = False, pf_local_port = 7, pf_address = '''', pf_port = 0,
        pf_network = '''', pf_scheme = '''', pf_path = '''', pf_host = '''', pf_grpc_service = '''', pf_grpc_mode = '''', pf_grpc_authority = '''', pf_edge_ip = '''',
        pf_uuid = '''', pf_flow = '''', pf_security = '''', pf_sni = '''', pf_fingerprint = '''', pf_public_key = '''', pf_short_id = ''''\<rparr>),
      mv_logger = None,
      mv_env = \<lparr>ev_new = (\<lambda>_ _. None), ev_init = (\<lambda>_ _. Inl EOF), ev_health = (\<lambda>_. None), ev_active = (\<lambda>_. 0), ev_latency = (\<lambda>_. 0), ev_save = None\<rparr>,
      mv_listen = None, mv_dial = dial, mv_addr = \<lparr>li_address = ''127.0.0.1'', li_port = 1080\<rparr>\<rparr>"

lemmas mobile_start_defs = StartVPN_def NewStrategy_def construct_def strategy_Initialize_def goremote_Start_def demo_mobile_env_def

theorem mobile_one_strategy_witness:
  "\<exists>m. StartVPN (demo_mobile_env None) ''{}'' new_mobile = (Inr 1080, m) \<and> ls_listening (sg_lsn (mo_strategies m ! 0))
     \<and> \<not> ls_listening (sg_lsn (mo_strategies (StopVPN m) ! 0))"
proof -
  obtain m where m: "StartVPN (demo_mobile_env None) ''{}'' new_mobile = (Inr 1080, m)" "length (mo_strategies m) = 1"
    by (simp add: mobile_start_defs new_mobile_def new_lsn_def Let_def)
  have d: "mv_dial (demo_mobile_env None) = None" by (simp add: demo_mobile_env_def)
  have "mobile_reach (\<lambda>e. mv_dial e = None) m"
    using mobile_reach.Start [OF mobile_reach.Init, of "\<lambda>e. mv_dial e = None" "demo_mobile_env None" "''{}''"] d m(1) by simp
  note stop = mobile_one_strategy [OF this]
  have "length (mo_strategies (StopVPN m)) = 1" using m(2) by (simp add: StopVPN_def split: option.splits)
  moreover have "mo_active m = Some 0" using StartVPN_result [OF m(1)] by (simp add: new_mobile_def)
  ultimately show ?thesis using stop m by auto
qed

text \<open>
  The proviso is needed: a goremote strategy whose server cannot be reached is dropped while it listens, and no later StopVPN can close it.
\<close>

lemma failed_start_leaks:
  "\<exists>err m. StartVPN (demo_mobile_env (Some err)) ''{}'' new_mobile = (Inl (Wrap ''failed to initialize strategy'' err), m)
     \<and> ls_listening (sg_lsn (mo_strategies m ! 0)) \<and> StopVPN m = m"
  by (simp add: mobile_start_defs new_mobile_def new_lsn_def StopVPN_def Let_def)

end
