(* ===== verification/Strategies.thy ===== *)
theory Strategies
  imports Mobile GoRemote
begin

section \<open>The interface of the strategies (TunnelStrategy)\<close>

text \<open>
  What the application server and the mobile interface call on the three strategies: construction, \<open>GetType\<close>,
  \<open>GetListenerInfo\<close>, \<open>UpdateServer\<close> and \<open>CloseTunnel\<close>, which a \<open>sync.Once\<close> guards. A strategy is the record of
  \<open>Mobile\<close>; the guard is a flag beside it. The address of a listener is fixed when it starts listening.
\<close>

subsection \<open>Construction\<close>

definition fresh_strategy :: "strategy_kind \<Rightarrow> server_profile \<Rightarrow> strategy" where
  "fresh_strategy k p = \<lparr>sg_kind = Some k, sg_profile = p, sg_lsn = new_lsn, sg_info = None\<rparr>"

definition NewVlessStrategyNative :: "server_profile \<Rightarrow> strategy res" where
  "NewVlessStrategyNative p = Inr (fresh_strategy VlessKind p)"

definition NewVlessStrategy :: "server_profile option \<Rightarrow> strategy res" where
  "NewVlessStrategy profile =
     (case profile of
        None \<Rightarrow> Inl (Msg ''vless strategy requires a non-nil profile'')
      | Some p \<Rightarrow> NewVlessStrategyNative p)"

definition NewWorkerStrategy :: "server_profile \<Rightarrow> strategy res" where
  "NewWorkerStrategy p = Inr (fresh_strategy WorkerKind p)"

definition NewGoRemoteStrategy :: "server_profile \<Rightarrow> strategy res" where
  "NewGoRemoteStrategy p = Inr (fresh_strategy GoRemoteKind p)"

fun new_strategy :: "strategy_kind \<Rightarrow> server_profile \<Rightarrow> strategy res" where
  "new_strategy VlessKind p = NewVlessStrategy (Some p)"
| "new_strategy WorkerKind p = NewWorkerStrategy p"
| "new_strategy GoRemoteKind p = NewGoRemoteStrategy p"

subsection \<open>Queries\<close>

fun strategy_GetType :: "strategy_kind \<Rightarrow> string" where
  "strategy_GetType VlessKind = ''vless''"
| "strategy_GetType WorkerKind = ''worker''"
| "strategy_GetType GoRemoteKind = ''goremote''"

text \<open>
  The goremote strategy asks its listener for the address; one that is not a TCP address gives nil.
\<close>

datatype listener_addr = TCPListener listener_info | OtherListener

definition GetListenerAddr :: "listener_addr option \<Rightarrow> listener_addr option" where
  "GetListenerAddr listener = (case listener of Some l \<Rightarrow> Some l | None \<Rightarrow> None)"

definition goremote_GetListenerInfo :: "listener_addr option \<Rightarrow> listener_info option" where
  "goremote_GetListenerInfo listener =
     (case GetListenerAddr listener of
        None \<Rightarrow> None
      | Some (TCPListener li) \<Rightarrow> Some li
      | Some OtherListener \<Rightarrow> None)"

definition strategy_GetListenerInfo :: "strategy \<Rightarrow> listener_info option" where
  "strategy_GetListenerInfo g =
     (case sg_kind g of
        Some GoRemoteKind \<Rightarrow> goremote_GetListenerInfo (map_option TCPListener (sg_info g))
      | _ \<Rightarrow> sg_info g)"

subsection \<open>Updates and closing\<close>

definition vless_UpdateServer :: "server_profile \<Rightarrow> strategy \<Rightarrow> unit res \<times> strategy" where
  "vless_UpdateServer profile s = (Inr (), s\<lparr>sg_profile := profile\<rparr>)"

definition worker_UpdateServer :: "server_profile \<Rightarrow> strategy \<Rightarrow> unit res \<times> strategy" where
  "worker_UpdateServer profile s = (Inl (Msg ''worker strategy does not support hot-update''), s)"

text \<open>The body of \<open>closeOnce.Do\<close>: the listener and the tracked connections are closed; the wait is \<open>wait_returns\<close>.\<close>

definition vless_CloseTunnel :: "bool \<times> strategy \<Rightarrow> bool \<times> strategy" where
  "vless_CloseTunnel s = (if fst s then s else (True, strategy_CloseTunnel (snd s)))"

definition worker_CloseTunnel :: "bool \<times> strategy \<Rightarrow> bool \<times> strategy" where
  "worker_CloseTunnel s = (if fst s then s else (True, strategy_CloseTunnel (snd s)))"

subsection \<open>Metrics and accept loops\<close>

definition GetActiveConnections :: "lsn \<Rightarrow> int" where
  "GetActiveConnections s = sint (ls_active s)"

definition goremote_GetMetrics :: "lsn \<Rightarrow> metrics" where
  "goremote_GetMetrics s = \<lparr>mt_active = GetActiveConnections s, mt_latency = 0\<rparr>"

definition vless_GetMetrics :: "lsn \<Rightarrow> metrics" where
  "vless_GetMetrics s = \<lparr>mt_active = sint (ls_active s), mt_latency = 0\<rparr>"

definition GetCurrentBackendType :: "server_profile option \<Rightarrow> string" where
  "GetCurrentBackendType profile = (case profile of Some p \<Rightarrow> pf_type p | None \<Rightarrow> '''')"

text \<open>The strategy logs the address of the listener that \<open>Start\<close> has set.\<close>

definition goremote_Initialize :: "goerr option \<Rightarrow> goerr option \<Rightarrow> server_profile \<Rightarrow> lsn \<Rightarrow> unit res \<times> lsn" where
  "goremote_Initialize dial listen profile s =
     (case goremote_Start dial listen profile s of
        (Inl err, s') \<Rightarrow> (Inl err, s')
      | (Inr _, s') \<Rightarrow> (if ls_listening s' then Inr () else Inl (Panic ''nil pointer dereference''), s'))"

text \<open>
  One loop with what \<open>Accept\<close> returns: a connection, or an error, which ends it. When the list ends the loop is waiting. Between two accepts
  other goroutines run; here they do not.
\<close>

fun accept_loop :: "(nat \<Rightarrow> lsn \<Rightarrow> lsn) \<Rightarrow> bool list \<Rightarrow> lsn \<Rightarrow> lsn" where
  "accept_loop register [] s = s"
| "accept_loop register (True # accepts) s = accept_loop register accepts (register (ls_next s) (accept_conn s))"
| "accept_loop register (False # accepts) s = accept_fails s"

definition worker_acceptLoop :: "bool list \<Rightarrow> lsn \<Rightarrow> lsn" where
  "worker_acceptLoop = accept_loop worker_register"

definition vless_acceptLoop :: "bool list \<Rightarrow> lsn \<Rightarrow> lsn" where
  "vless_acceptLoop = accept_loop vless_register"

definition goremote_acceptLoop :: "bool list \<Rightarrow> lsn \<Rightarrow> lsn" where
  "goremote_acceptLoop = accept_loop goremote_register"

lemma accept_loop_reach:
  assumes "\<And>c s. ls_pending (register c s) = None \<and> ls_loop (register c s) = ls_loop s \<and> ls_listening (register c s) = ls_listening s"
    and "lsn_reach initialize register start session finish s" and "ls_listening s" and "ls_loop s" and "ls_pending s = None"
  shows "lsn_reach initialize register start session finish (accept_loop register accepts s)"
  using assms(2-)
proof (induction accepts arbitrary: s)
  case (Cons a accepts)
  show ?case
  proof (cases a)
    case True
    let ?s = "register (ls_next s) (accept_conn s)"
    have "lsn_reach initialize register start session finish ?s"
      using lsn_reach.Accept [OF Cons.prems] by (rule lsn_reach.Register) (simp add: accept_conn_def)
    moreover have "ls_listening ?s" "ls_loop ?s" "ls_pending ?s = None" using assms(1) Cons.prems by (simp_all add: accept_conn_def)
    ultimately show ?thesis using Cons.IH True by simp
  next
    case False
    then show ?thesis using lsn_reach.LoopEnds [OF Cons.prems(1,3,4)] by simp
  qed
qed simp

text \<open>The loops are paths of the transition system of \<open>Listener\<close>, so what is shown of its states holds of theirs.\<close>

lemma acceptLoops_reach:
  assumes "ls_listening s" and "ls_loop s" and "ls_pending s = None"
  shows "lsn_reach worker_Initialize worker_register start session finish s \<Longrightarrow>
      lsn_reach worker_Initialize worker_register start session finish (worker_acceptLoop accepts s)"
    and "lsn_reach vless_Initialize vless_register start session finish s \<Longrightarrow>
      lsn_reach vless_Initialize vless_register start session finish (vless_acceptLoop accepts s)"
    and "lsn_reach (goremote_Start dial) goremote_register start session finish s \<Longrightarrow>
      lsn_reach (goremote_Start dial) goremote_register start session finish (goremote_acceptLoop accepts s)"
  unfolding worker_acceptLoop_def vless_acceptLoop_def goremote_acceptLoop_def
  by (rule accept_loop_reach; use assms in \<open>simp add: worker_register_def vless_register_def goremote_register_def\<close>)+

lemma goremote_Initialize_Start: "goremote_Initialize dial listen profile s = goremote_Start dial listen profile s"
  by (cases dial; cases listen) (simp_all add: goremote_Initialize_def goremote_Start_def)

lemma goremote_metrics: "goremote_GetMetrics s = strategy_GetMetrics s" "vless_GetMetrics s = strategy_GetMetrics s"
  by (simp_all add: goremote_GetMetrics_def vless_GetMetrics_def strategy_GetMetrics_def GetActiveConnections_def)

subsection \<open>The contract\<close>

text \<open>
  What the callers rely on: a new strategy of any kind is idle and has no address; the constructors do not fail; once it is initialised
  it has the address of its listener; closing stops the listener whatever was called before, and a second call does nothing.
\<close>

lemma new_strategy_fresh: "new_strategy k p = Inr (fresh_strategy k p)"
  by (cases k) (simp_all add: NewVlessStrategy_def NewVlessStrategyNative_def NewWorkerStrategy_def NewGoRemoteStrategy_def)

lemma fresh_idle: "\<not> ls_listening (sg_lsn (fresh_strategy k p)) \<and> strategy_GetListenerInfo (fresh_strategy k p) = None"
  by (cases k) (simp_all add: fresh_strategy_def new_lsn_def strategy_GetListenerInfo_def goremote_GetListenerInfo_def GetListenerAddr_def)

lemma listener_info: "strategy_GetListenerInfo g = sg_info g"
  by (cases "sg_info g")
    (auto simp: strategy_GetListenerInfo_def goremote_GetListenerInfo_def GetListenerAddr_def split: option.splits strategy_kind.splits)

lemma initialised_listens:
  assumes "strategy_Initialize e (fresh_strategy k p) = (Inr (), g)"
  shows "ls_listening (sg_lsn g) \<and> strategy_GetListenerInfo g = Some (mv_addr e)"
  using Initialize_listening(1) [OF assms [unfolded fresh_strategy_def] HOL.refl] by (simp add: listener_info)

lemma close_once:
  "vless_CloseTunnel (vless_CloseTunnel s) = vless_CloseTunnel s" "worker_CloseTunnel (worker_CloseTunnel s) = worker_CloseTunnel s"
  "\<not> ls_listening (sg_lsn (snd (vless_CloseTunnel (False, g))))" "\<not> ls_listening (sg_lsn (snd (worker_CloseTunnel (False, g))))"
  by (simp_all add: vless_CloseTunnel_def worker_CloseTunnel_def)

text \<open>
  So the environment in which the constructors of \<open>AppServer\<close> do not fail is the one of the real constructors: the factory fails only on an
  unknown type.
\<close>

lemma factory_total:
  assumes "\<And>k p. ev_new env k p = (case new_strategy k p of Inl e \<Rightarrow> Some e | Inr _ \<Rightarrow> None)"
  shows "(\<exists>e. NewStrategy env profiles = Inl e) \<longleftrightarrow>
    (\<exists>p. find pf_active profiles = Some p \<and> pf_type p \<notin> {''vless'', ''worker'', ''goremote'', ''remote'', ''''})"
  using assms by (auto simp: NewStrategy_def construct_def new_strategy_fresh split: option.splits)

end
