(* ===== verification/UdpClient.thy ===== *)
theory UdpClient
  imports GoRemote
begin

section \<open>The manual SOCKS5 UDP client (test/udp_client_manual.go) against the goremote agent\<close>

text \<open>
  The repository's own client of the UDP path: it asks for an association, sends datagrams with the SOCKS5 header to the address that
  it gets, and prints what comes back without the header. It shows what the parts of the agent are for, so the lemmas relate its
  bytes to those of the agent. Its messages, which are not in ASCII, are named by their step.
\<close>

subsection \<open>The client\<close>

definition udp_associate :: "(conn, string) io" where
  "udp_associate =
     bind_io (wrap_io ''step 2'' (write_c [0x05, 0x01, 0x00])) (\<lambda>_.
     bind_io (wrap_io ''step 3'' (read_c 2)) (\<lambda>authResponse.
     if authResponse ! 0 \<noteq> 0x05 \<or> authResponse ! 1 \<noteq> 0x00 then fail_io (Msg ''step 3'')
     else
       bind_io (wrap_io ''step 4'' (write_c [0x05, 0x03, 0x00, 0x01, 0, 0, 0, 0, 0, 0])) (\<lambda>_.
       bind_io (wrap_io ''step 5'' (read_c 10)) (\<lambda>udpResponse.
       if udpResponse ! 0 \<noteq> 0x05 \<or> udpResponse ! 1 \<noteq> 0x00 then fail_io (Msg ''step 5'')
       else ret_io (ip_string (take 4 (drop 4 udpResponse)) @ '':'' @ itoa (uint (get16 (udpResponse ! 8) (udpResponse ! 9))))))))"

definition udp_datagram :: "bytes \<Rightarrow> int \<Rightarrow> bytes \<Rightarrow> bytes" where
  "udp_datagram destIP destPort txt =
     [0x00, 0x00, 0x00, 0x01] @ (case to4 destIP of Some b \<Rightarrow> b | None \<Rightarrow> [])
       @ [word_of_int (destPort div 256), word_of_int (destPort mod 256)] @ txt"

definition udp_shown :: "bytes \<Rightarrow> bytes option" where
  "udp_shown datagram = (let buf = take 2048 datagram in if length buf > 10 then Some (drop 10 buf) else None)"

subsection \<open>Client and agent\<close>

text \<open>The agent reads the client's request as command 3, and the client reads the agent's answer as the address of the UDP listener.\<close>

lemma associate_request:
  "\<exists>k. HandshakeWithClient (live ([0x05, 0x01, 0x00] @ [0x05, 0x03, 0x00, 0x01, 0, 0, 0, 0, 0, 0]) e []) = Some (Inr (3, dest_target (V4 [0, 0, 0, 0]) 0), k)"
proof -
  have bytes: "[0x05, 0x01, 0x00] @ [0x05, 0x03, 0x00, 0x01, 0, 0, 0, 0, 0, 0] = socks_hello [0] @ socks_request 5 3 0 (V4 [0, 0, 0, 0]) 0 @ []"
    by (simp add: socks_hello_def socks_request_def put16_def)
  have "greet read_methods (live (socks_hello [0] @ socks_request 5 3 0 (V4 [0, 0, 0, 0]) 0 @ []) e [])
      = Some (Inr (), live (socks_request 5 3 0 (V4 [0, 0, 0, 0]) 0 @ []) e ([] @ [0x05, 0x00]))"
    using read_methods_live [of "[0]" "socks_request 5 3 0 (V4 [0, 0, 0, 0]) 0 @ []" e "[]"] by (intro greet_live) simp_all
  moreover have "read_request False (live (socks_request 5 3 0 (V4 [0, 0, 0, 0]) 0 @ []) e ([] @ [0x05, 0x00]))
      = Some (Inr (3, dest_target (V4 [0, 0, 0, 0]) 0), live [] e ([] @ [0x05, 0x00]))"
    by (rule read_request_live) simp
  ultimately show ?thesis unfolding bytes by (simp add: HandshakeWithClient_def io_simps)
qed

lemma associate_answer:
  assumes "pf_type (ag_profile a) \<noteq> ''worker''" and "to4 ip = Some b" and "length b = 4"
  shows "\<exists>k. udp_associate (live ([0x05, 0x00] @ handleUdpAssociate a (Inr (ip, port))) e []) = Some (Inr (ip_string b @ '':'' @ itoa (uint port)), k)"
proof -
  let ?reply = "[0x05, 0x00, 0x00, 0x01] @ b @ put16 port"
  obtain hi lo where p: "put16 port = [hi, lo]" "get16 hi lo = port"
    by (rule that [of "ucast (drop_bit 8 port)" "ucast port"]) (simp_all add: put16_def)
  have "read_c 10 (live (?reply @ []) e out) = Some (Inr ?reply, live [] e out)" for out
    by (rule read_live) (simp add: assms(3))
  then have r: "read_c 10 (live ?reply e out) = Some (Inr ?reply, live [] e out)" for out by simp
  obtain b0 b1 b2 b3 where b: "b = [b0, b1, b2, b3]" using assms(3) by (auto simp: length_Suc_conv numeral_eq_Suc)
  show ?thesis
    using assms(1,2) r p by (simp add: udp_associate_def handleUdpAssociate_def io_simps read_conses b)
qed

text \<open>A client whose server is of the type \<open>worker\<close> gets no association, and ends.\<close>

lemma associate_refused:
  assumes "pf_type (ag_profile a) = ''worker''"
  shows "\<exists>k. udp_associate (live ([0x05, 0x00] @ handleUdpAssociate a r) e []) = Some (Inl (Msg ''step 5''), k)"
proof -
  have "read_c 10 (live ([0x05, 0x07, 0x00, 0x01, 0, 0, 0, 0, 0, 0] @ []) e out) = Some (Inr [0x05, 0x07, 0x00, 0x01, 0, 0, 0, 0, 0, 0], live [] e out)" for out
    by (rule read_live) simp
  then show ?thesis using assms by (simp add: udp_associate_def handleUdpAssociate_def io_simps read_conses)
qed

text \<open>A datagram of the client is for the address that the client resolved.\<close>

lemma datagram_target:
  assumes "to4 ip = Some b" and "length b = 4" and "0 \<le> port" and "port < 65536"
  shows "parseSocks5UDPTarget (udp_datagram ip port txt) = (ip_string b, port)"
proof -
  obtain b0 b1 b2 b3 where b: "b = [b0, b1, b2, b3]" using assms(2) by (auto simp: length_Suc_conv numeral_eq_Suc)
  let ?w = "word_of_int port :: 16 word"
  have u: "uint ?w = port" using assms(3,4) by (simp add: uint_word_of_int)
  have "uint (drop_bit 8 ?w) = port div 256" by (simp add: drop_bit_eq_div uint_div u del: uint_word_of_int)
  then have "(ucast (drop_bit 8 ?w) :: byte) = word_of_int (port div 256)" by (simp only: ucast_eq)
  moreover have "(ucast ?w :: byte) = word_of_int (port mod 256)"
    by (simp only: ucast_eq u word_of_int_eq_iff take_bit_eq_mod) simp
  ultimately have "get16 (word_of_int (port div 256)) (word_of_int (port mod 256)) = ?w"
    using get16_put16 [of ?w] by simp
  moreover have "int (unat ?w) = port" using assms(3) u by (simp add: unat_eq_nat_uint)
  ultimately show ?thesis using assms(1) by (simp add: parseSocks5UDPTarget_def udp_datagram_def b)
qed

text \<open>
  What is printed of an answer is its payload, if its header has an IPv4 address and it fits into the buffer; the end of a longer one
  is lost.
\<close>

lemma answer_shown:
  assumes "length b = 4" and "data \<noteq> []"
  shows "udp_shown ([0x00, 0x00, 0x00, 0x01] @ b @ put16 port @ data) = Some (take 2038 data)"
  using assms by (simp add: udp_shown_def Let_def min_def)

end
