(* ===== verification/Startup.thy ===== *)
theory Startup
  imports Routing Settings AppPublish Lifecycle
begin

section \<open>Starting the server (cmd/local/main.go, shared/config, logger.Init, app.New and Run)\<close>

text \<open>
  The program reads \<open>liuproxy.ini\<close> and \<open>servers.json\<close>, sets up the logger, builds the application server with its settings manager
  and its dispatcher, and runs it. A \<open>system\<close> is the application, the settings manager, the dispatcher and the gateway together. Parameters: \<open>iniLoad\<close> and \<open>mapTo\<close> are \<open>ini.Load\<close> and
  \<open>MapTo\<close> of the ini package, \<open>unmarshal\<close> and \<open>marshal\<close> the JSON coding of a list of profiles, \<open>getenv\<close> is \<open>os.Getenv\<close>.
\<close>

subsection \<open>shared/config/config.go\<close>

definition overrideFromEnvInt :: "(string \<Rightarrow> string) \<Rightarrow> string \<Rightarrow> int \<Rightarrow> int" where
  "overrideFromEnvInt getenv envName target =
     (let envValue = getenv envName in
      if envValue \<noteq> '''' then (case atoi envValue of (intValue, None) \<Rightarrow> intValue | (_, Some err) \<Rightarrow> target) else target)"

text \<open>\<open>MapTo\<close> writes into the configuration also when it fails.\<close>

definition LoadIni ::
  "(string \<Rightarrow> string) \<Rightarrow> 'i res \<Rightarrow> ('i \<Rightarrow> app_config \<Rightarrow> goerr option \<times> app_config) \<Rightarrow> app_config \<Rightarrow> goerr option \<times> app_config" where
  "LoadIni getenv iniLoad mapTo cfg =
     (case iniLoad of
        Inl e \<Rightarrow> (Some e, cfg)
      | Inr iniFile \<Rightarrow>
          (case mapTo iniFile cfg of
             (Some e, cfg') \<Rightarrow> (Some e, cfg')
           | (None, cfg') \<Rightarrow> (None, cfg'\<lparr>cf_crypt := overrideFromEnvInt getenv ''CRYPT_KEY'' (cf_crypt cfg')\<rparr>)))"

datatype servers_file = SAbsent | SUnreadable goerr | SBytes bytes

definition LoadServers :: "(bytes \<Rightarrow> server_profile list res) \<Rightarrow> servers_file \<Rightarrow> server_profile list res" where
  "LoadServers unmarshal f =
     (case f of
        SAbsent \<Rightarrow> Inr []
      | SUnreadable e \<Rightarrow> Inl (Wrap ''failed to read servers file'' e)
      | SBytes data \<Rightarrow> wrap_err ''failed to unmarshal servers.json'' (unmarshal data))"

text \<open>\<open>w\<close>: the write fails and leaves the file in some state.\<close>

definition write_servers ::
  "(server_profile list \<Rightarrow> bytes res) \<Rightarrow> (goerr \<times> servers_file) option \<Rightarrow> server_profile list \<Rightarrow> servers_file \<Rightarrow> unit res \<times> servers_file" where
  "write_servers marshal w profiles f =
     (case marshal profiles of
        Inl e \<Rightarrow> (Inl (Wrap ''failed to marshal server profiles'' e), f)
      | Inr data \<Rightarrow> (case w of None \<Rightarrow> (Inr (), SBytes data) | Some (e, f') \<Rightarrow> (Inl e, f')))"

subsection \<open>shared/logger/logger.go\<close>

text \<open>The level that \<open>Init\<close> sets; it never fails. \<open>parseLevel\<close> is \<open>zerolog.ParseLevel\<close>.\<close>

definition logger_Init :: "(string \<Rightarrow> 'l option) \<Rightarrow> 'l \<Rightarrow> string \<Rightarrow> goerr option \<times> 'l" where
  "logger_Init parseLevel infoLevel level = (None, case parseLevel (to_lower level) of None \<Rightarrow> infoLevel | Some l \<Rightarrow> l)"

subsection \<open>app.New and Run\<close>

record system =
  sy_config :: app_config
  sy_app :: app
  sy_settings :: settings_manager
  sy_disp :: dispatcher
  sy_gateway :: gateway
  sy_crashed :: bool

text \<open>The dispatcher is subscriber 0 of both modules.\<close>

definition NewAppServer ::
  "(string \<Rightarrow> (string \<Rightarrow> bool) option) \<Rightarrow> write_result \<Rightarrow> settings_file \<Rightarrow> app_config \<Rightarrow> server_profile list \<Rightarrow> system res" where
  "NewAppServer re w sfile cfg file =
     wrap_err ''FATAL: Failed to initialize settings manager''
       (and_then (NewSettingsManager w sfile) (\<lambda>sm.
          Inr \<lparr>sy_config = cfg, sy_app = new_app file,
               sy_settings = Register ''routing'' 0 (Register ''gateway'' 0 sm),
               sy_disp = NewDispatcher re (fst (settings_view sm)),
               sy_gateway = New (cf_unified_port cfg), sy_crashed = False\<rparr>))"

text \<open>\<open>listen\<close> is the outcome of the gateway's \<open>net.Listen\<close>; a failure ends the process.\<close>

definition Run ::
  "env \<Rightarrow> (nat \<Rightarrow> string) \<Rightarrow> string \<Rightarrow> server_profile list res \<Rightarrow> goerr option \<Rightarrow> system \<Rightarrow> system res" where
  "Run env fresh path loaded listen s =
     (case loadConfigAndBootstrap env fresh path loaded (sy_app s) of
        (Inl e, _) \<Rightarrow> Inl (Wrap ''Server bootstrap failed'' e)
      | (Inr _, a) \<Rightarrow>
          (let s1 = s\<lparr>sy_app := a, sy_disp := dispatcher_start (sy_disp s)\<rparr> in
           if cf_unified_port (sy_config s) > 0 then
             (case gateway_Start listen (sy_gateway s1) of
                (Inl e, _) \<Rightarrow> Inl (Wrap ''Gateway failed to start'' e)
              | (Inr _, g) \<Rightarrow> Inr (s1\<lparr>sy_gateway := g\<rparr>))
           else Inr s1))"

subsection \<open>cmd/local/main.go\<close>

text \<open>
  What the process finds when it starts, and its result: an error is an exit. \<open>servers.json\<close> is read twice, by \<open>main\<close>, which drops the
  profiles, and by \<open>Run\<close>.
\<close>

record ('i, 'l) start_env =
  se_getenv :: "string \<Rightarrow> string"
  se_ini :: "'i res"
  se_mapTo :: "'i \<Rightarrow> app_config \<Rightarrow> goerr option \<times> app_config"
  se_level :: "string \<Rightarrow> 'l option"
  se_info :: 'l
  se_servers :: servers_file
  se_unmarshal :: "bytes \<Rightarrow> server_profile list res"
  se_sfile :: settings_file
  se_swrite :: write_result
  se_regexp :: "string \<Rightarrow> (string \<Rightarrow> bool) option"
  se_uuid :: "nat \<Rightarrow> string"
  se_listen :: "goerr option"

definition zero_config :: app_config where
  "zero_config = \<lparr>cf_mode = '''', cf_max_conns = 0, cf_buffer_size = 0, cf_crypt = 0, cf_unified_port = 0, cf_web_port = 0,
     cf_web_user = '''', cf_web_password = '''', cf_log_level = ''''\<rparr>"

definition local_main :: "env \<Rightarrow> ('i, 'l) start_env \<Rightarrow> string \<Rightarrow> system res" where
  "local_main env e serversPath =
     (case LoadIni (se_getenv e) (se_ini e) (se_mapTo e) zero_config of
        (Some err, _) \<Rightarrow> Inl (Wrap ''Fatal: Failed to load config file'' err)
      | (None, cfg) \<Rightarrow>
          (case logger_Init (se_level e) (se_info e) (cf_log_level cfg) of
             (Some err, _) \<Rightarrow> Inl (Wrap ''Fatal: Failed to initialize logger'' err)
           | (None, _) \<Rightarrow>
               and_then (wrap_err ''Failed to load servers file'' (LoadServers (se_unmarshal e) (se_servers e))) (\<lambda>profiles.
               and_then (NewAppServer (se_regexp e) (se_swrite e) (se_sfile e) cfg profiles)
                 (Run env (se_uuid e) serversPath (LoadServers (se_unmarshal e) (se_servers e)) (se_listen e)))))"

end
