(* ===== verification/Testers.thy ===== *)
theory Testers
  imports Startup Strategies UdpClient
begin

section \<open>The manual test programs of the strategies (cmd/tester)\<close>

text \<open>
  Each program reads one profile, gives it its type, lets the factory make the strategy and starts its listener; then it waits for a
  signal. A value is the configuration and the strategy of the waiting program, an error the last line of one that has ended.
\<close>

definition loadProfile :: "(bytes \<Rightarrow> server_profile res) \<Rightarrow> bytes res \<Rightarrow> server_profile res" where
  "loadProfile unmarshal file_bytes =
     (case file_bytes of
        Inl err \<Rightarrow> Inl (Wrap ''failed to read config file'' err)
      | Inr content \<Rightarrow>
          (case unmarshal content of
             Inl err \<Rightarrow> Inl (Wrap ''failed to parse JSON config'' err)
           | Inr profile \<Rightarrow> Inr profile))"

definition run_tester :: "env \<Rightarrow> mobile_env \<Rightarrow> string \<Rightarrow> app_config \<Rightarrow> server_profile \<Rightarrow> (app_config \<times> strategy) res" where
  "run_tester env e name cfg profile =
     (case NewStrategy env [profile] of
        Inl err \<Rightarrow> Inl (Wrap (''Error creating '' @ name @ '' strategy'') err)
      | Inr None \<Rightarrow> Inl (Panic ''nil pointer dereference'')
      | Inr (Some k) \<Rightarrow>
          (case strategy_Initialize e (fresh_strategy k profile) of
             (Inl err, g) \<Rightarrow> Inl (Wrap (''Error starting '' @ name @ '' strategy'') err)
           | (Inr _, g) \<Rightarrow> Inr (cfg, g)))"

definition vless_main :: "env \<Rightarrow> mobile_env \<Rightarrow> (bytes \<Rightarrow> server_profile res) \<Rightarrow> bytes res \<Rightarrow> (app_config \<times> strategy) res" where
  "vless_main env e unmarshal file_bytes =
     (case loadProfile unmarshal file_bytes of
        Inl err \<Rightarrow> Inl (Wrap ''Error loading server profile'' err)
      | Inr profile \<Rightarrow>
          run_tester env e ''VLESS'' (zero_config\<lparr>cf_buffer_size := 4096\<rparr>) (profile\<lparr>pf_type := ''vless'', pf_active := True\<rparr>))"

definition worker_main :: "env \<Rightarrow> mobile_env \<Rightarrow> (bytes \<Rightarrow> server_profile res) \<Rightarrow> bytes res \<Rightarrow> (app_config \<times> strategy) res" where
  "worker_main env e unmarshal file_bytes =
     (case loadProfile unmarshal file_bytes of
        Inl err \<Rightarrow> Inl (Wrap ''Error loading server profile'' err)
      | Inr profile \<Rightarrow>
          run_tester env e ''Worker'' (zero_config\<lparr>cf_buffer_size := 4096, cf_crypt := 125\<rparr>) (profile\<lparr>pf_type := ''worker'', pf_active := True\<rparr>))"

definition goremote_main ::
  "env \<Rightarrow> ('i, 'l) start_env \<Rightarrow> mobile_env \<Rightarrow> (bytes \<Rightarrow> server_profile res) \<Rightarrow> bytes res \<Rightarrow> (app_config \<times> strategy) res" where
  "goremote_main env se e unmarshal file_bytes =
     (case LoadIni (se_getenv se) (se_ini se) (se_mapTo se) zero_config of
        (Some err, _) \<Rightarrow> Inl (Wrap ''Error loading main .ini config'' err)
      | (None, cfg) \<Rightarrow>
          (case logger_Init (se_level se) (se_info se) (cf_log_level cfg) of
             (Some err, _) \<Rightarrow> Inl (Wrap ''Error initializing logger'' err)
           | (None, _) \<Rightarrow>
               (case loadProfile unmarshal file_bytes of
                  Inl err \<Rightarrow> Inl (Wrap ''Error loading server profile'' err)
                | Inr profile \<Rightarrow> run_tester env e ''GoRemote'' cfg (profile\<lparr>pf_type := ''goremote'', pf_active := True\<rparr>))))"

text \<open>
  With constructors that do not fail, a program waits with a listening strategy of its own type, whatever type and state the
  file gives the profile, as soon as the profile can be read and the listener starts.
\<close>

definition kind_env :: "env \<Rightarrow> bool" where
  "kind_env env \<longleftrightarrow> (\<forall>k p. ev_new env k p = (case new_strategy k p of Inl e \<Rightarrow> Some e | Inr _ \<Rightarrow> None))"

lemma run_tester_listens:
  assumes "kind_env env" and "pf_active p" and "pf_type p \<in> {''vless'', ''worker'', ''goremote''}" and "strategy_Initialize e (fresh_strategy k p) = (Inr (), g)"
    and "strategy_GetType k = pf_type p"
  shows "run_tester env e name cfg p = Inr (cfg, g) \<and> ls_listening (sg_lsn g)"
proof -
  have "NewStrategy env [p] = Inr (Some k)"
    using assms(1,2,3,5) by (cases k) (auto simp: NewStrategy_def construct_def kind_env_def new_strategy_fresh)
  with initialised_listens [OF assms(4)] assms(4) show ?thesis by (simp add: run_tester_def)
qed

lemma testers_listen:
  assumes "kind_env env" and "unmarshal content = Inr p"
  shows "strategy_Initialize e (fresh_strategy VlessKind (p\<lparr>pf_type := ''vless'', pf_active := True\<rparr>)) = (Inr (), g) \<Longrightarrow>
      \<exists>cfg. vless_main env e unmarshal (Inr content) = Inr (cfg, g) \<and> ls_listening (sg_lsn g)"
    and "strategy_Initialize e (fresh_strategy WorkerKind (p\<lparr>pf_type := ''worker'', pf_active := True\<rparr>)) = (Inr (), g) \<Longrightarrow>
      \<exists>cfg. worker_main env e unmarshal (Inr content) = Inr (cfg, g) \<and> ls_listening (sg_lsn g)"
    and "LoadIni (se_getenv se) (se_ini se) (se_mapTo se) zero_config = (None, cfg) \<Longrightarrow>
      strategy_Initialize e (fresh_strategy GoRemoteKind (p\<lparr>pf_type := ''goremote'', pf_active := True\<rparr>)) = (Inr (), g) \<Longrightarrow>
      goremote_main env se e unmarshal (Inr content) = Inr (cfg, g) \<and> ls_listening (sg_lsn g)"
proof -
  assume "strategy_Initialize e (fresh_strategy VlessKind (p\<lparr>pf_type := ''vless'', pf_active := True\<rparr>)) = (Inr (), g)"
  then show "\<exists>cfg. vless_main env e unmarshal (Inr content) = Inr (cfg, g) \<and> ls_listening (sg_lsn g)"
    using run_tester_listens [OF assms(1), of "p\<lparr>pf_type := ''vless'', pf_active := True\<rparr>" e VlessKind g] assms(2)
    by (simp add: vless_main_def loadProfile_def)
next
  assume "strategy_Initialize e (fresh_strategy WorkerKind (p\<lparr>pf_type := ''worker'', pf_active := True\<rparr>)) = (Inr (), g)"
  then show "\<exists>cfg. worker_main env e unmarshal (Inr content) = Inr (cfg, g) \<and> ls_listening (sg_lsn g)"
    using run_tester_listens [OF assms(1), of "p\<lparr>pf_type := ''worker'', pf_active := True\<rparr>" e WorkerKind g] assms(2)
    by (simp add: worker_main_def loadProfile_def)
next
  assume "LoadIni (se_getenv se) (se_ini se) (se_mapTo se) zero_config = (None, cfg)"
    and "strategy_Initialize e (fresh_strategy GoRemoteKind (p\<lparr>pf_type := ''goremote'', pf_active := True\<rparr>)) = (Inr (), g)"
  then show "goremote_main env se e unmarshal (Inr content) = Inr (cfg, g) \<and> ls_listening (sg_lsn g)"
    using run_tester_listens [OF assms(1), of "p\<lparr>pf_type := ''goremote'', pf_active := True\<rparr>" e GoRemoteKind g] assms(2)
    by (simp add: goremote_main_def loadProfile_def logger_Init_def)
qed

end
