(* ===== verification/System.thy ===== *)
theory System
  imports Startup
begin

section \<open>The running server as one system\<close>

text \<open>
  The components at work together: the application server with its web interface and health checks, the settings manager with its notifications,
  the dispatcher, and the dispatches of the gateway. The goroutine that publishing starts (\<open>JRouting\<close> in \<open>AppServer\<close>) is here the
  call that it makes, \<open>OnSettingsUpdate\<close> of the dispatcher with the current routing settings; it reads the published states.
\<close>

definition update_dispatcher ::
  "(processed_rule list \<Rightarrow> processed_rule list) \<Rightarrow> (string \<Rightarrow> (string \<Rightarrow> bool) option) \<Rightarrow> string \<Rightarrow> settings_value \<Rightarrow> system \<Rightarrow> unit res \<times> system" where
  "update_dispatcher srt re key v s =
     (case OnSettingsUpdate srt re (GetServerStates (sy_app s)) key v (sy_disp s) of (r, _, d) \<Rightarrow> (r, s\<lparr>sy_disp := d\<rparr>))"

text \<open>The goroutine of \<open>ReloadStrategy\<close>; \<open>i\<close> is its place among the goroutines that have not run yet.\<close>

definition routing_job ::
  "(processed_rule list \<Rightarrow> processed_rule list) \<Rightarrow> (string \<Rightarrow> (string \<Rightarrow> bool) option) \<Rightarrow> nat \<Rightarrow> system \<Rightarrow> system" where
  "routing_job srt re i s =
     snd (update_dispatcher srt re ''routing'' (SVRouting (snd (settings_view (sy_settings s)))) (s\<lparr>sy_app := drop_job i (sy_app s)\<rparr>))"

text \<open>A notification of the settings manager; a panic of the subscriber ends the process.\<close>

definition deliver ::
  "(processed_rule list \<Rightarrow> processed_rule list) \<Rightarrow> (string \<Rightarrow> (string \<Rightarrow> bool) option) \<Rightarrow> nat \<Rightarrow> system \<Rightarrow> system" where
  "deliver srt re i s =
     (let m = sy_settings s; p = sm_pending m ! i;
          s1 = s\<lparr>sy_settings := m\<lparr>sm_pending := take i (sm_pending m) @ drop (Suc i) (sm_pending m)\<rparr>\<rparr> in
      case notify (\<lambda>sub key v. update_dispatcher srt re key v) m p s1 of
        (Inl (Panic e), s2) \<Rightarrow> s2\<lparr>sy_crashed := True\<rparr>
      | (_, s2) \<Rightarrow> s2)"

definition routing_jobs :: "app \<Rightarrow> nat" where
  "routing_jobs a = length (filter (\<lambda>j. j = JRouting) (ap_jobs a))"

text \<open>
  The steps of a system that has not crashed. A step of the application never runs a \<open>JRouting\<close> goroutine: that is the step \<open>Routing\<close>.
\<close>

inductive system_step ::
  "env \<Rightarrow> (processed_rule list \<Rightarrow> processed_rule list) \<Rightarrow> (string \<Rightarrow> (string \<Rightarrow> bool) option) \<Rightarrow> system \<Rightarrow> system \<Rightarrow> bool" for env srt re where
  App: "\<not> sy_crashed s \<Longrightarrow> app_step env (sy_app s) a \<Longrightarrow> routing_jobs (sy_app s) \<le> routing_jobs a \<Longrightarrow> system_step env srt re s (s\<lparr>sy_app := a\<rparr>)"
| Routing: "\<not> sy_crashed s \<Longrightarrow> i < length (ap_jobs (sy_app s)) \<Longrightarrow> ap_jobs (sy_app s) ! i = JRouting \<Longrightarrow> system_step env srt re s (routing_job srt re i s)"
| Update: "\<not> sy_crashed s \<Longrightarrow> system_step env srt re s (s\<lparr>sy_settings := snd (settings_update w key msg (sy_settings s))\<rparr>)"
| Deliver: "\<not> sy_crashed s \<Longrightarrow> i < length (sm_pending (sy_settings s)) \<Longrightarrow> system_step env srt re s (deliver srt re i s)"
| Dispatch: "\<not> sy_crashed s \<Longrightarrow> system_step env srt re s (s\<lparr>sy_disp := snd (Dispatch lookup t1 t2 t3 (GetServerStates (sy_app s)) source target (sy_disp s))\<rparr>)"

inductive system_reach :: "env \<Rightarrow> (processed_rule list \<Rightarrow> processed_rule list) \<Rightarrow> ('i, 'l) start_env \<Rightarrow> system \<Rightarrow> bool" for env srt e where
  Start: "local_main env e serversPath = Inr s \<Longrightarrow> system_reach env srt e s"
| Step: "system_reach env srt e s \<Longrightarrow> system_step env srt (se_regexp e) s s' \<Longrightarrow> system_reach env srt e s'"

subsection \<open>When the routing table is current\<close>

definition pending_publication :: "app \<Rightarrow> bool" where
  "pending_publication a \<longleftrightarrow> JRouting \<in> set (ap_jobs a) \<or> JPublishSave \<in> set (ap_jobs a)"

definition table_current :: "system \<Rightarrow> bool" where
  "table_current s \<longleftrightarrow> (\<forall>p \<in> set (d_rules (sy_disp s)). \<exists>r. resolve_rule (GetServerStates (sy_app s)) r = Some p)"

definition system_inv :: "system \<Rightarrow> bool" where
  "system_inv s \<longleftrightarrow> good (sy_app s) \<and> pub_inv (sy_app s) \<and> d_lb (sy_disp s) \<noteq> None
     \<and> (pending_publication (sy_app s) \<or> table_current s)"

lemma routing_jobs_mem: "JRouting \<in> set (ap_jobs a) \<longleftrightarrow> 0 < routing_jobs a"
  by (auto simp: routing_jobs_def filter_empty_conv)

lemma states_cong: "ap_work b = ap_work a \<Longrightarrow> ap_profiles b = ap_profiles a \<Longrightarrow> ap_insts b = ap_insts a \<Longrightarrow> GetServerStates b = GetServerStates a"
  by (simp add: GetServerStates_def state_view_def cong: map_cong)

lemma health_publication:
  "JRouting \<in> set (ap_jobs (runHealthChecks env a)) \<or> GetServerStates (runHealthChecks env a) = GetServerStates a \<and> ap_jobs (runHealthChecks env a) = ap_jobs a"
proof -
  obtain hm mm where c: "Check env a (instances_to_check a) = (hm, mm)" by (cases "Check env a (instances_to_check a)")
  obtain a' ch where f: "fold (apply_health mm) hm (a, False) = (a', ch)" by (cases "fold (apply_health mm) hm (a, False)")
  have "runHealthChecks env a = (if instances_to_check a = [] then a else if ch then ReloadStrategy a' else a')"
    using c f by (simp add: runHealthChecks_def)
  moreover have fr: "ap_jobs a' = ap_jobs a" "ap_work a' = ap_work a" "ap_profiles a' = ap_profiles a" "ap_insts a' = ap_insts a"
    using fold_apply_health_frame [of mm hm "(a, False)"] f by (simp_all add: Let_def)
  moreover have "GetServerStates a' = GetServerStates a" by (rule states_cong [OF fr(2-4)])
  ultimately show ?thesis by (auto simp: ReloadStrategy_def)
qed

lemma trigger_publication:
  "JRouting \<in> set (ap_jobs (triggerSingleHealthCheck env k a))
   \<or> GetServerStates (triggerSingleHealthCheck env k a) = GetServerStates a \<and> ap_jobs (triggerSingleHealthCheck env k a) = ap_jobs a"
  by (auto simp: triggerSingleHealthCheck_def ReloadStrategy_def Let_def intro!: states_cong split: option.splits)

lemma drop_job_mem: "i < length (ap_jobs a) \<Longrightarrow> set (ap_jobs a) = insert (ap_jobs a ! i) (set (ap_jobs (drop_job i a)))"
  by (simp add: drop_job_def) (metis Un_insert_right id_take_nth_drop list.simps(15) set_append)

lemma drop_states [simp]: "GetServerStates (drop_job i a) = GetServerStates a"
  by (rule states_cong) (simp_all add: drop_job_def)

text \<open>A step of the application changes what the dispatcher reads only where publishing is then pending.\<close>

lemma job_publication:
  assumes "i < length (ap_jobs a)" and "ap_jobs a ! i \<noteq> JRouting"
  shows "pending_publication (run_job env (ap_jobs a ! i) (drop_job i a))
    \<or> \<not> pending_publication a \<and> GetServerStates (run_job env (ap_jobs a ! i) (drop_job i a)) = GetServerStates a"
proof (cases "ap_jobs a ! i")
  case JPublishSave
  then show ?thesis by (simp add: run_job_def pending_publication_def SaveConfigToFile_def SaveServers_def ReloadStrategy_def split: option.splits)
next
  case JSave
  have "GetServerStates (b\<lparr>ap_file := x\<rparr>) = GetServerStates b" for b x by (rule states_cong) simp_all
  with JSave drop_job_mem [OF assms(1)] show ?thesis
    by (auto simp: run_job_def pending_publication_def SaveConfigToFile_def SaveServers_def split: option.splits)
next
  case (JCheck k)
  with trigger_publication [of env k "drop_job i a"] drop_job_mem [OF assms(1)] show ?thesis
    by (auto simp: run_job_def pending_publication_def)
qed (use assms(2) in simp)

lemma step_publication:
  assumes "app_step env a b" and "routing_jobs a \<le> routing_jobs b"
  shows "pending_publication b \<or> \<not> pending_publication a \<and> GetServerStates b = GetServerStates a"
  using assms
proof (induction rule: app_step.induct)
  case (tick a)
  then show ?case using health_publication [of env a] by (auto simp: pending_publication_def)
next
  case (job i a)
  show ?case
  proof (cases "ap_jobs a ! i = JRouting")
    case True
    have "ap_jobs a = take i (ap_jobs a) @ ap_jobs a ! i # drop (Suc i) (ap_jobs a)" using job(1) by (simp add: id_take_nth_drop)
    then have "filter (\<lambda>j. j = JRouting) (ap_jobs a) = filter (\<lambda>j. j = JRouting) (take i (ap_jobs a)) @ JRouting # filter (\<lambda>j. j = JRouting) (drop (Suc i) (ap_jobs a))"
      using True by (metis (mono_tags) filter.simps(2) filter_append)
    then have "routing_jobs (drop_job i a) < routing_jobs a" by (simp add: routing_jobs_def drop_job_def)
    with True job(2) show ?thesis by (simp add: run_job_def)
  qed (use job_publication job(1) in blast)
qed (auto simp: pending_publication_def AddServerProfile_def UpdateServerProfile_def DeleteServerProfile_def UpdateServerActiveState_def
    ReloadStrategy_def ReportFailure_def ReportSuccess_def Let_def intro!: states_cong split: option.splits)

subsection \<open>The invariant\<close>

lemma system_invI:
  "good (sy_app s) \<Longrightarrow> pub_inv (sy_app s) \<Longrightarrow> d_lb (sy_disp s) \<noteq> None \<Longrightarrow> pending_publication (sy_app s) \<or> table_current s \<Longrightarrow> system_inv s"
  by (simp add: system_inv_def)

lemma set_slice_sort: "slice_sort srt \<Longrightarrow> set (srt xs) = set xs"
  unfolding slice_sort_def by (metis mset_eq_setD)

lemma OnSettingsUpdate_dispatcher:
  assumes "slice_sort srt" and "OnSettingsUpdate srt re states key v d = (r, old, d')" and "d_lb d \<noteq> None"
  shows "d_lb d' \<noteq> None"
    and "d_rules d' = d_rules d \<or> (\<forall>p \<in> set (d_rules d'). \<exists>x. resolve_rule states x = Some p)"
    and "key = ''routing'' \<Longrightarrow> v = SVRouting cfg \<Longrightarrow> \<forall>p \<in> set (d_rules d'). \<exists>x. resolve_rule states x = Some p"
proof -
  have table: "\<forall>p \<in> set (srt (List.map_filter (resolve_rule states) xs)). \<exists>x. resolve_rule states x = Some p" for xs
    unfolding set_slice_sort [OF assms(1)] by (auto simp: map_filter_def)
  show "d_lb d' \<noteq> None"
    using assms(2,3) by (auto simp: OnSettingsUpdate_def updateLoadBalancer_def updateRoutingTables_def Let_def split: if_splits settings_value.splits option.splits)
  show "d_rules d' = d_rules d \<or> (\<forall>p \<in> set (d_rules d'). \<exists>x. resolve_rule states x = Some p)"
    using assms(2) table by (auto simp: OnSettingsUpdate_def updateLoadBalancer_def updateRoutingTables_def Let_def split: if_splits settings_value.splits option.splits)
  show "\<forall>p \<in> set (d_rules d'). \<exists>x. resolve_rule states x = Some p" if "key = ''routing''" "v = SVRouting cfg"
    using assms(2) table that by (auto simp: OnSettingsUpdate_def updateRoutingTables_def)
qed

lemma update_dispatcher_inv:
  assumes "slice_sort srt" and "system_inv s"
  shows "system_inv (snd (update_dispatcher srt re key v s))"
proof -
  obtain r old d where o: "OnSettingsUpdate srt re (GetServerStates (sy_app s)) key v (sy_disp s) = (r, old, d)" by (metis prod_cases3)
  have lb: "d_lb (sy_disp s) \<noteq> None" using assms(2) by (simp add: system_inv_def)
  from OnSettingsUpdate_dispatcher(1,2) [OF assms(1) o lb] assms(2) show ?thesis
    by (auto simp: system_inv_def update_dispatcher_def o table_current_def)
qed

lemma notify_inv:
  assumes "slice_sort srt"
  shows "system_inv s \<Longrightarrow> system_inv (snd (notify_loop (\<lambda>sub key v. update_dispatcher srt re key v) key v subs s))"
proof (induction subs arbitrary: s)
  case (Cons sub subs)
  have "system_inv (snd (update_dispatcher srt re key v s))" by (rule update_dispatcher_inv [OF assms Cons.prems])
  then show ?case using Cons.IH by (auto split: prod.splits sum.splits goerr.splits)
qed simp

lemma Dispatch_frame:
  "d_rules (snd (Dispatch lookup t1 t2 t3 states source target d)) = d_rules d"
  "d_lb d \<noteq> None \<Longrightarrow> d_lb (snd (Dispatch lookup t1 t2 t3 states source target d)) \<noteq> None"
  by (auto simp: Dispatch_def balance_def Let_def split: option.splits prod.splits sum.splits)

lemma routing_job_inv:
  assumes "slice_sort srt" and "system_inv s" and "i < length (ap_jobs (sy_app s))" and "ap_jobs (sy_app s) ! i = JRouting"
  shows "system_inv (routing_job srt re i s)"
proof -
  let ?a = "drop_job i (sy_app s)" and ?v = "SVRouting (snd (settings_view (sy_settings s)))"
  obtain r old d where o: "OnSettingsUpdate srt re (GetServerStates ?a) ''routing'' ?v (sy_disp s) = (r, old, d)" by (metis prod_cases3)
  have s: "good (sy_app s)" "pub_inv (sy_app s)" "d_lb (sy_disp s) \<noteq> None" using assms(2) by (simp_all add: system_inv_def)
  have "routing_job srt re i s = s\<lparr>sy_app := ?a, sy_disp := d\<rparr>" using o by (simp add: routing_job_def update_dispatcher_def)
  moreover have "good ?a" using s(1) by (simp add: drop_job_def good_file)
  moreover have "pub_inv ?a" using pub_inv_drop [OF s(2) assms(3)] assms(4) by simp
  ultimately show ?thesis
    using OnSettingsUpdate_dispatcher(1,3) [OF assms(1) o s(3)] by (intro system_invI) (simp_all add: table_current_def)
qed

lemma deliver_inv:
  assumes "slice_sort srt" and "system_inv s"
  shows "system_inv (deliver srt re i s)"
proof -
  have f: "system_inv (s\<lparr>sy_settings := m\<rparr>) = system_inv s" "system_inv (s\<lparr>sy_crashed := b\<rparr>) = system_inv s" for s m b
    by (simp_all add: system_inv_def table_current_def)
  obtain r s2 where n: "notify (\<lambda>sub key v. update_dispatcher srt re key v) (sy_settings s) (sm_pending (sy_settings s) ! i)
      (s\<lparr>sy_settings := (sy_settings s)\<lparr>sm_pending := take i (sm_pending (sy_settings s)) @ drop (Suc i) (sm_pending (sy_settings s))\<rparr>\<rparr>) = (r, s2)"
    by (metis surj_pair)
  have "system_inv s2"
    using notify_inv [OF assms(1), of "s\<lparr>sy_settings := (sy_settings s)\<lparr>sm_pending := take i (sm_pending (sy_settings s)) @ drop (Suc i) (sm_pending (sy_settings s))\<rparr>\<rparr>"] n assms(2)
    by (metis f(1) notify_def snd_conv)
  then show ?thesis by (auto simp: deliver_def Let_def n f split: sum.splits goerr.splits)
qed

lemma system_step_inv:
  assumes "slice_sort srt" and "system_step env srt re s s'" and "system_inv s"
  shows "system_inv s'"
  using assms(2,3)
proof cases
  case (App a)
  have s: "good (sy_app s)" "pub_inv (sy_app s)" "d_lb (sy_disp s) \<noteq> None" "pending_publication (sy_app s) \<or> table_current s"
    using assms(3) by (simp_all add: system_inv_def)
  have "pending_publication a \<or> table_current (s\<lparr>sy_app := a\<rparr>)"
    using step_publication [OF App(3,4)] s(4) by (auto simp: table_current_def)
  then show ?thesis using App app_step_good [OF App(3) s(1)] app_step_pub [OF App(3) s(2)] s(3) by (intro system_invI) simp_all
next
  case (Routing i)
  then show ?thesis using routing_job_inv [OF assms(1,3)] by simp
next
  case (Update w key msg)
  then show ?thesis using assms(3) by (simp add: system_inv_def table_current_def)
next
  case (Deliver i)
  then show ?thesis using deliver_inv [OF assms(1,3)] by simp
next
  case (Dispatch lookup t1 t2 t3 source target)
  then show ?thesis using assms(3) Dispatch_frame by (simp add: system_inv_def table_current_def)
qed

lemma bootstrap_routing: "loadConfigAndBootstrap env fresh path loaded a = (Inr u, b) \<Longrightarrow> JRouting \<in> set (ap_jobs b)"
  by (auto simp: loadConfigAndBootstrap_def ReloadStrategy_def split: prod.splits sum.splits)

lemma start_inv:
  assumes "local_main env e serversPath = Inr s"
  shows "system_inv s"
proof -
  from assms obtain cfg fl s0 where s0: "NewAppServer (se_regexp e) (se_swrite e) (se_sfile e) cfg fl = Inr s0"
    and run: "Run env (se_uuid e) serversPath (LoadServers (se_unmarshal e) (se_servers e)) (se_listen e) s0 = Inr s"
    by (auto simp: local_main_def split: prod.splits option.splits)
  have n: "sy_app s0 = new_app fl" "d_lb (sy_disp s0) \<noteq> None"
    using s0 by (auto simp: NewAppServer_def NewDispatcher_def updateLoadBalancer_def)
  from run obtain a where a: "loadConfigAndBootstrap env (se_uuid e) serversPath (LoadServers (se_unmarshal e) (se_servers e)) (new_app fl) = (Inr (), a)"
    and s: "sy_app s = a" "sy_disp s = dispatcher_start (sy_disp s0)"
    by (auto simp: Run_def n Let_def split: prod.splits sum.splits if_splits)
  have "good a" "pub_inv a" using bootstrap_good [OF a] reachable_pub [OF a app_steps.refl] by simp_all
  with bootstrap_routing [OF a] n s show ?thesis by (intro system_invI) (simp_all add: pending_publication_def dispatcher_start_def)
qed

lemma system_reach_inv: "slice_sort srt \<Longrightarrow> system_reach env srt e s \<Longrightarrow> system_inv s"
  by (erule system_reach.induct) (use start_inv system_step_inv in blast)+

subsection \<open>What a dispatch of the running system meets\<close>

lemma published_keyed:
  assumes "good a"
  shows "well_keyed (GetServerStates a)"
proof -
  have w: "work_ok a" using assms by (simp add: good_def)
  have "map fst (GetServerStates a) = map fst (ap_work a)" by (simp add: GetServerStates_def deepCopyAppState_id comp_def case_prod_beta)
  then have "gm_ok (GetServerStates a)" using w by (simp add: work_ok_def)
  moreover have "pf_id (ss_profile st) = k" if "(k, st) \<in> set (GetServerStates a)" for k st
  proof -
    from that obtain z where z: "(k, z) \<in> set (ap_work a)" "st = state_view a z" by (auto simp: GetServerStates_def deepCopyAppState_id)
    then have "gm_get (ap_work a) k = Some z" using w by (simp add: work_ok_def map_of_is_SomeI)
    with w z(2) show ?thesis by (simp add: work_ok_def state_view_def)
  qed
  ultimately show ?thesis by (auto simp: well_keyed_def)
qed

lemma published_usable:
  assumes "good a" and "(k, st) \<in> set (GetServerStates a)" and "usable st"
  shows "\<exists>li. ss_instance st = Some (Some li)"
proof -
  have w: "work_ok a" using assms(1) by (simp add: good_def)
  from assms(2) obtain z where z: "(k, z) \<in> set (ap_work a)" "st = state_view a z" by (auto simp: GetServerStates_def deepCopyAppState_id)
  then have "gm_get (ap_work a) k = Some z" using w by (simp add: work_ok_def map_of_is_SomeI)
  with w z(2) assms(3) show ?thesis by (fastforce simp: work_ok_def usable_def state_view_def)
qed

text \<open>A configured server that is active and up, and listens at an address with a running instance.\<close>

definition serves :: "app \<Rightarrow> string \<Rightarrow> string \<Rightarrow> bool" where
  "serves a sid addr \<longleftrightarrow>
     (\<exists>z p li. gm_get (ap_config a) sid = Some z \<and> pf_active (prof a z) \<and> zs_health z = StatusUp \<and> zs_instance z = Some p
        \<and> p < length (ap_insts a) \<and> in_running (ap_insts a ! p) \<and> in_listener (ap_insts a ! p) = Some li \<and> addr = li_addr li)"

lemma published_serves:
  assumes "good a" and "pub_inv a" and "JPublishSave \<notin> set (ap_jobs a)"
    and "gm_get (GetServerStates a) k = Some st" and "usable st" and "ss_instance st = Some (Some li)"
  shows "serves a k (li_addr li)"
proof -
  from assms(4) obtain z where z: "gm_get (ap_work a) k = Some z" "st = state_view a z"
    by (auto simp: GetServerStates_def deepCopyAppState_id map_of_map_restrict map_of_map)
  have "published a" using assms(2,3) by (simp add: pub_inv_def)
  then have "map_option nom (gm_get (ap_config a) k) = Some (nom z)" using z(1) unfolding published_def by (metis option.simps(9))
  then obtain z' where z': "gm_get (ap_config a) k = Some z'" "nom z' = nom z" by blast
  then have same: "zs_profile z' = zs_profile z" "zs_health z' = zs_health z" "zs_instance z' = zs_instance z"
    by (cases z; cases z'; simp add: nom_def)+
  from assms(6) z(2) obtain p where p: "zs_instance z = Some p" "in_listener (ap_insts a ! p) = Some li" by (auto simp: state_view_def)
  have "p < length (ap_insts a) \<and> in_running (ap_insts a ! p)"
    using zone_inst [OF good_zone [OF assms(1)] z'(1)] same(3) p(1) by simp
  with assms(5) z(2) z'(1) same p show ?thesis by (auto simp: serves_def usable_def state_view_def)
qed

lemma current_rule:
  assumes "well_keyed states" and "resolve_rule states r = Some p"
  shows "is_virtual (ri_target (pr_route p)) \<and> ri_server (pr_route p) = ri_target (pr_route p)
    \<or> (\<exists>st li. gm_get states (ri_server (pr_route p)) = Some st \<and> ss_instance st = Some (Some li) \<and> ri_target (pr_route p) = li_addr li)"
  using assms(2) well_keyedD [OF assms(1)]
  by (auto simp: resolve_rule_def split: if_splits option.splits dest!: find_Some_mem)

lemma not_virtual: "\<not> is_virtual (li_addr li)"
proof -
  have "CHR '':'' \<in> set (li_addr li)" by (simp add: li_addr_def)
  then show ?thesis by (auto simp: is_virtual_def)
qed

text \<open>A decision of the dispatcher in a state of the system where no publication is pending.\<close>

lemma system_decision:
  assumes "system_inv s" and "\<not> pending_publication (sy_app s)"
    and "Dispatch lookup t1 t2 t3 (GetServerStates (sy_app s)) source target (sy_disp s) = (Inr (addr, sid), d')"
  shows "is_virtual addr \<and> sid = addr \<or> serves (sy_app s) sid addr"
proof -
  let ?st = "GetServerStates (sy_app s)"
  have inv: "good (sy_app s)" "pub_inv (sy_app s)" "table_current s" using assms(1,2) by (auto simp: system_inv_def)
  have no: "JPublishSave \<notin> set (ap_jobs (sy_app s))" using assms(2) by (simp add: pending_publication_def)
  note keyed = published_keyed [OF inv(1)] and serving = published_serves [OF inv(1,2) no]
  from dispatch_decision [OF keyed assms(3)] show ?thesis
  proof (elim disjE bexE conjE exE)
    fix p assume p: "p \<in> set (d_rules (sy_disp s))" "addr = ri_target (pr_route p)" "sid = ri_server (pr_route p)"
    then obtain r where "resolve_rule ?st r = Some p" using inv(3) by (auto simp: table_current_def)
    note rule = current_rule [OF keyed this]
    { assume "is_virtual addr"
      with rule p not_virtual show ?thesis by auto }
    { fix st assume "gm_get ?st sid = Some st" "usable st"
      with rule p serving show ?thesis by fastforce }
  next
    fix st li assume "gm_get ?st sid = Some st" "usable st" "ss_instance st = Some (Some li)" "addr = li_addr li"
    then show ?thesis using serving by blast
  qed
qed

end
