(* ===== verification/Spec2Isabelle.thy ===== *)
theory Spec2Isabelle
  imports Prelude GoNet Types Sticky Dispatcher Routing Settings Protocol Conn Socks Sniff Gateway AppServer AppInvariant AppPublish Lifecycle WebSocket Worker GoRemote Vless ByteStream Buf Transport MultiHunk Readv VecReaders Writers ConnOptions Errors Closing WebApi Listener IPText XNet StreamConfig TlsConfig SockOpts SystemDial VlessDial Utls Reality Spider Url TunnelDial Session Mobile Strategies UdpClient Startup Testers System
begin

text \<open>
  \<^bold>\<open>liuproxy_go: a verification development\<close>

  liuproxy_go is a local proxy. Clients speak SOCKS5 or HTTP to one gateway port; the gateway finds the
  target of the request, asks the dispatcher for a backend, and forwards the connection to the local
  listener of one of several tunnel strategies (goremote, worker, vless), directly to the target, or nowhere.
  A strategy carries the connection to its remote server. The application server owns the strategies: it
  creates, starts, checks and stops them as profiles are added, changed, activated and deleted through a
  web API, and publishes their states to the dispatcher. Settings (balancing, sticky sessions, routing
  rules) are kept by a settings manager that notifies the dispatcher.

  \<^bold>\<open>Theories and sources\<close> (paths under \<open>src/internal\<close>)

  \<^item> \<open>Prelude\<close>, \<open>GoNet\<close>, \<open>IPText\<close>, \<open>Conn\<close>, \<open>ByteStream\<close>: the Go language and library as the program uses them: errors as
    sums, maps as association lists in any order, decimal and IP address texts with their parsers, host and
    port splitting, byte streams with \<open>io.ReadFull\<close>, connections with what was written to them. \<open>ByteStream\<close> has the
    locale \<open>stream_reader\<close> for readers that return the next bytes of a stream.
  \<^item> \<open>Types\<close>: \<open>shared/types\<close> and the settings structs.
  \<^item> \<open>Sticky\<close>, \<open>Dispatcher\<close>, \<open>Routing\<close>: \<open>core/dispatcher\<close>. The sticky session manager, the two balancers (locale \<open>balancer\<close>),
    the routing table, the decision procedure \<open>Dispatch\<close> and its hot reload.
  \<^item> \<open>Settings\<close>: \<open>shared/settings\<close>, over a heap of module pointers, so that the sharing between the live settings and the
    copy of an update is visible.
  \<^item> \<open>Protocol\<close>: \<open>shared/protocol\<close> and \<open>shared/securecrypt\<close>: packets, their frames, encrypted frames.
  \<^item> \<open>Socks\<close>: the SOCKS5 servers of the three strategies, the client of the gateway, and the metadata
    builders (\<open>tunnel/*/\<close>, \<open>core/gateway/socks_client.go\<close>).
  \<^item> \<open>Sniff\<close>, \<open>Gateway\<close>: \<open>core/gateway\<close>. Protocol detection on a buffered reader, TLS ClientHello and SOCKS5 sniffing, and the
    forwarding of a connection.
  \<^item> \<open>AppServer\<close>, \<open>AppInvariant\<close>, \<open>AppPublish\<close>, \<open>Lifecycle\<close>: \<open>app/appserver.go\<close>, \<open>core/health\<close>, \<open>tunnel/factory.go\<close>. The two zones of server states
    over shared profiles and instances, as a transition system (\<open>app_steps\<close>), its invariant, what is
    published, and start and stop.
  \<^item> \<open>WebApi\<close>: \<open>service/web\<close> and \<open>shared/globalstate\<close>. All handlers over the \<open>ServerController\<close> interface (locale \<open>lawful_controller\<close>).
  \<^item> \<open>GoRemote\<close>, \<open>Session\<close>, \<open>Worker\<close>, \<open>Vless\<close>, \<open>Listener\<close>, \<open>WebSocket\<close>: \<open>tunnel/goremote\<close>, \<open>tunnel/worker\<close>, \<open>tunnel/vless\<close>, \<open>shared/conn_adapter.go\<close>. The goremote agent with its one
    tunnel, sessions, streams and UDP session as a transition system, and the copy loops of a session; the connection handlers of the
    worker and the vless strategy; the listeners of all three (locales \<open>conn_counter\<close> and \<open>conn_tracker\<close>).
  \<^item> \<open>Url\<close>, \<open>TunnelDial\<close>: \<open>tunnel/goremote/dialer.go\<close>, \<open>tunnel/worker/dialer.go\<close> and their callers, over the part of \<open>net/url\<close> that they use.
  \<^item> \<open>Strategies\<close>: the interface \<open>TunnelStrategy\<close> as the three strategies implement it.
  \<^item> \<open>Mobile\<close>: \<open>src/mobile/api.go\<close>, the interface for mobile applications, over the listeners of the strategies.
  \<^item> \<open>Startup\<close>, \<open>System\<close>: \<open>src/cmd/local/main.go\<close>, \<open>shared/config\<close>, \<open>New\<close> and \<open>Run\<close> of \<open>app/appserver.go\<close>: the start of the process and the transition system of all
    components together (\<open>system_step\<close>), with its invariant.
  \<^item> \<open>UdpClient\<close>, \<open>Testers\<close>: \<open>src/test/udp_client_manual.go\<close> and \<open>src/cmd/tester\<close>, the repository's own clients of the agent and of the strategies.
  \<^item> \<open>Buf\<close>, \<open>Transport\<close>, \<open>MultiHunk\<close>, \<open>Readv\<close>, \<open>VecReaders\<close>, \<open>Writers\<close>, \<open>ConnOptions\<close>, \<open>Closing\<close>: \<open>xray_core/common/buf\<close>, \<open>xray_core/common/bytespool\<close>, \<open>xray_core/common/net/cnc\<close> and the connections of the two vless transports. Buffers are
    windows into arrays, lists of them are byte queues (locale \<open>byte_queue\<close>); a source of such lists (locale \<open>multi_source\<close>) is a byte stream
    behind a buffered reader: gRPC messages of one piece or of many, single and vectored reads of a connection (locales \<open>raw_conn\<close> and, for the vectors of each system, \<open>multi_reader\<close>). Both
    writers work on any \<open>io.Writer\<close> that keeps its contract (locales \<open>byte_writer\<close>, \<open>lawful_writer\<close>); connections that are closed keep that
    of the locale \<open>closable\<close>.
  \<^item> \<open>Errors\<close>: \<open>xray_core/common/errors\<close> and its abstraction, the errors of the prelude.
  \<^item> \<open>XNet\<close>, \<open>StreamConfig\<close>, \<open>TlsConfig\<close>, \<open>SockOpts\<close>, \<open>SystemDial\<close>, \<open>VlessDial\<close>, \<open>Utls\<close>, \<open>Reality\<close>, \<open>Spider\<close>: \<open>xray_core/common/net\<close>, \<open>xray_core/transport/internet\<close> and the dialers of \<open>tunnel/vless\<close>: addresses and
    destinations, stream and TLS settings, contexts, the system dialer with the socket options of each system, what is dialled for a profile, and
    the TLS client with a browser's fingerprint, with and without the authentication of REALITY, whose spider is a transition system (\<open>spider_step\<close>).

  \<^bold>\<open>What is shown\<close>

  \<^item> \<^emph>\<open>The whole server.\<close> From the start of the process on, under every interleaving of web requests, settings updates, health checks,
    goroutines and dispatches, traffic is sent only to a running listener of an active and healthy server or to a virtual target, once no
    publication is pending, and it is sent somewhere whenever a server can take it.
  \<^item> \<^emph>\<open>Routing.\<close> A dispatch returns a usable server or a virtual target chosen by the first matching rule in priority
    order, by the sticky session or by the balancer, and it succeeds when the state allows it. The backend connects to
    the target that was used for routing.
  \<^item> \<^emph>\<open>Application.\<close> In every reachable state no instance is leaked or shared, every published usable server has a
    listener, and the zones agree when nothing is pending. Requests of the web API are steps of that system, failing and
    unauthorised ones change nothing.
  \<^item> \<^emph>\<open>Tunnels.\<close> Encrypted packets survive any segmentation of the stream, a cut stream yields a prefix; the goremote
    agent keeps one tunnel, and a session relays both directions unchanged whatever the other streams do; so do the connections of worker and
    vless, from the SOCKS5 request to the end. The tunnels lead to the server of the profile, and TLS is verified for its name.
  \<^item> \<^emph>\<open>Transports.\<close> Messages become byte streams with nothing lost or repeated; buffers are FIFO queues; addresses and
    destinations are well typed and survive printing; a profile is dialled where it says and with verified TLS, and a REALITY server proves itself. The two writers deliver the same bytes, and a closed connection sends
    nothing.
  \<^item> \<^emph>\<open>Errors.\<close> Where the code does not do what it means to, a lemma states what it does: the race of \<open>Stop\<close>, the endless
    loop of the sniffer, lost bytes, panics, updates that leak.

  \<^bold>\<open>Parameters\<close>

  Code that is not in the repository is an argument: the AEAD ciphers and SHA-256, \<open>regexp\<close>, \<open>sort.Slice\<close>, \<open>net.LookupIP\<close>, \<open>net.Dial\<close>,
  JSON and protocol buffer decoding, \<open>http.ReadRequest\<close>, \<open>uuid.Parse\<close>, gorilla websocket, gRPC. The hypotheses state documented
  behaviour (a cipher opens what it sealed, a sort permutes and sorts, an encoding decodes) and every theorem with one has a
  witness that instantiates it. Clocks, random values and the outcomes of system calls are arguments too.

  \<^bold>\<open>Bounds and fuel\<close>

  Integers have the width of the code where it matters (\<open>uint16\<close> stream ids and ports, \<open>uint32\<close> counters, \<open>int64\<close> durations and
  connection counts). Loops are structural or have a termination proof; a read from a stream or a wait that may not return
  is an \<open>option\<close>, with \<open>None\<close> for not returning, and where the code relies on returning that is what is proved. The only fuel
  is that of \<open>trim_with\<close> in \<open>XNet\<close>, the length of the string, which is shown to be enough.

  \<^bold>\<open>Not modelled\<close>

  Log output, the contents of web pages, the generated protocol buffer code (only its structs), the deadlines of connections, the TLS and WebSocket handshakes
  inside the libraries, the helpers for transparent proxying that nothing calls, and the test programs that only try a connection.
\<close>

section \<open>The whole server\<close>



subsection \<open>A running server\<close>

definition demo_start :: "(unit, unit) start_env" where
  "demo_start = \<lparr>se_getenv = (\<lambda>_. ''''), se_ini = Inr (), se_mapTo = (\<lambda>_ c. (None, c\<lparr>cf_unified_port := 1080\<rparr>)), se_level = (\<lambda>_. None), se_info = (),
     se_servers = SBytes [1], se_unmarshal = (\<lambda>_. Inr [blank_profile]), se_sfile = FAbsent, se_swrite = WriteOk, se_regexp = (\<lambda>_. None),
     se_uuid = (\<lambda>_. ''u''), se_listen = None\<rparr>"

definition demo_sort :: "processed_rule list \<Rightarrow> processed_rule list" where
  "demo_sort = sort_key (\<lambda>p. ru_priority (pr_rule p))"

lemma demo_sort: "slice_sort demo_sort"
  by (simp add: slice_sort_def demo_sort_def)

lemma demo_system:
  "\<exists>s. local_main demo_env demo_start ''servers.json'' = Inr s \<and> sy_app s = demo_app \<and> d_lb (sy_disp s) = Some LeastConnectionsBalancer
     \<and> sk_mode (d_sticky (sy_disp s)) = ''disabled'' \<and> \<not> sy_crashed s \<and> rt_rules (snd (settings_view (sy_settings s))) = []"
proof -
  have boot: "loadConfigAndBootstrap demo_env (\<lambda>_. ''u'') ''servers.json'' (Inr [blank_profile]) (new_app [blank_profile]) = (Inr (), demo_app)"
    unfolding demo_app_eval by code_simp
  show ?thesis
    by (simp add: local_main_def demo_start_def LoadIni_def logger_Init_def LoadServers_def NewAppServer_def NewSettingsManager_def persist_def
        Run_def boot Let_def gateway_Start_def New_def settings_view_def fresh_manager_def Register_def NewDispatcher_def updateLoadBalancer_def
        balancer_for_def default_gateway_def default_routing_def dispatcher_start_def sticky_start_def NewStickyManager_def zero_config_def)
qed

text \<open>The same server after the routing goroutine of its first publication.\<close>

lemma demo_reach:
  "\<exists>s. system_reach demo_env demo_sort demo_start s \<and> sy_app s = demo_app\<lparr>ap_jobs := []\<rparr> \<and> d_rules (sy_disp s) = []
     \<and> d_lb (sy_disp s) = Some LeastConnectionsBalancer \<and> sk_mode (d_sticky (sy_disp s)) = ''disabled''"
proof -
  obtain s where s: "local_main demo_env demo_start ''servers.json'' = Inr s" "sy_app s = demo_app" "d_lb (sy_disp s) = Some LeastConnectionsBalancer"
    "sk_mode (d_sticky (sy_disp s)) = ''disabled''" "\<not> sy_crashed s" "rt_rules (snd (settings_view (sy_settings s))) = []"
    using demo_system by blast
  let ?s = "routing_job demo_sort (se_regexp demo_start) 0 s"
  have "system_step demo_env demo_sort (se_regexp demo_start) s ?s"
    by (rule system_step.Routing) (simp_all add: s demo_app_eval)
  then have "system_reach demo_env demo_sort demo_start ?s" using system_reach.intros s(1) by blast
  moreover have "sy_app ?s = demo_app\<lparr>ap_jobs := []\<rparr>" "d_rules (sy_disp ?s) = []" "d_lb (sy_disp ?s) = Some LeastConnectionsBalancer"
    "sk_mode (d_sticky (sy_disp ?s)) = ''disabled''"
    using s by (simp_all add: routing_job_def update_dispatcher_def OnSettingsUpdate_def updateRoutingTables_def demo_sort_def drop_job_def demo_app_eval map_filter_def)
  ultimately show ?thesis by blast
qed

lemma demo_published:
  "GetServerStates (demo_app\<lparr>ap_jobs := []\<rparr>) = [(''s1'', \<lparr>ss_profile = blank_profile, ss_instance = Some (Some \<lparr>li_address = ''127.0.0.1'', li_port = 1001\<rparr>),
     ss_health = StatusUp, ss_metrics = Some \<lparr>mt_active = 2, mt_latency = 7\<rparr>\<rparr>)]"
  unfolding demo_app_eval by code_simp



end
